(* ===== verification/Launcher_Prelude.thy ===== *)
theory Launcher_Prelude
  imports Complex_Main "HOL-Library.Word" "HOL-Library.Sublist"
    "HOL-Library.Char_ord" "HOL-Library.List_Lexorder"
begin

text \<open>
  The shared ground of the development: how a Go computation that may panic is written as a
  value, what the sources use of Go's \<^verbatim>\<open>strings\<close>, \<^verbatim>\<open>strconv\<close>, \<^verbatim>\<open>path\<close> and channel
  primitives, the collections of theorems the component theories add to, and the generic
  invariant rule for step relations.

  Conventions: a Go string is a \<^typ>\<open>string\<close> of bytes; a nilable pointer to a value is an
  option; a \<^verbatim>\<open>uint64\<close> is a 64-bit word; an \<^verbatim>\<open>int\<close> that is only stored and compared is an
  \<^typ>\<open>int\<close>; an instant (\<^verbatim>\<open>time.Time\<close>) is the \<^typ>\<open>int\<close> of its nanoseconds.
\<close>

named_theorems go_simps \<open>definitions of the modelled Go library functions\<close>
named_theorems api_defs \<open>definitions of the api package\<close>
named_theorems wire_defs \<open>definitions of the protocol package\<close>
named_theorems store_defs \<open>definitions of the job store\<close>
named_theorems cache_defs \<open>definitions of the job cache and its subscriptions\<close>
named_theorems run_defs \<open>definitions of the plugin runtime\<close>

type_synonym u32 = "32 word"
type_synonym u64 = "64 word"
type_synonym instant = int


section \<open>Panics as values\<close>

datatype go_panic =
    NilDeref
  | IndexOutOfRange
  | SendOnClosed
  | CloseOfClosed
  | PanicMsg string

type_synonym 'a go = "go_panic + 'a"

text \<open>Sequencing of fallible computations, for panics and for returned errors alike.\<close>

fun andThen :: "'e + 'a \<Rightarrow> ('a \<Rightarrow> 'e + 'b) \<Rightarrow> 'e + 'b" where
  "andThen (Inl e) f = Inl e"
| "andThen (Inr a) f = f a"

lemma andThen_eq_Inr [simp]:
  "andThen m f = Inr b \<longleftrightarrow> (\<exists>a. m = Inr a \<and> f a = Inr b)"
  by (cases m) auto

lemma andThen_eq_Inl:
  "andThen m f = Inl e \<longleftrightarrow> m = Inl e \<or> (\<exists>a. m = Inr a \<and> f a = Inl e)"
  by (cases m) auto

text \<open>Results of a case analysis, in the form proofs about error paths use.\<close>

lemma case_sum_eq_iff:
  "(case x of Inl a \<Rightarrow> f a | Inr b \<Rightarrow> g b) = z \<longleftrightarrow>
     (\<exists>a. x = Inl a \<and> f a = z) \<or> (\<exists>b. x = Inr b \<and> g b = z)"
  by (cases x) auto

lemma case_option_eq_iff:
  "(case x of None \<Rightarrow> f | Some b \<Rightarrow> g b) = z \<longleftrightarrow> (x = None \<and> f = z) \<or> (\<exists>b. x = Some b \<and> g b = z)"
  by (cases x) auto

fun deref :: "'a option \<Rightarrow> 'a go" where
  "deref None = Inl NilDeref"
| "deref (Some a) = Inr a"

text \<open>Running a fallible step over a list from the left, stopping at the first failure.\<close>

fun foldE :: "('a \<Rightarrow> 's \<Rightarrow> 'e + 's) \<Rightarrow> 'a list \<Rightarrow> 's \<Rightarrow> 'e + 's" where
  "foldE f [] s = Inr s"
| "foldE f (x # xs) s = andThen (f x s) (foldE f xs)"

fun mapE :: "('a \<Rightarrow> 'e + 'b) \<Rightarrow> 'a list \<Rightarrow> 'e + 'b list" where
  "mapE f [] = Inr []"
| "mapE f (x # xs) = andThen (f x) (\<lambda>y. andThen (mapE f xs) (\<lambda>ys. Inr (y # ys)))"

fun filterE :: "('a \<Rightarrow> 'e + bool) \<Rightarrow> 'a list \<Rightarrow> 'e + 'a list" where
  "filterE p [] = Inr []"
| "filterE p (x # xs) = andThen (p x) (\<lambda>b. andThen (filterE p xs)
     (\<lambda>ys. Inr (if b then x # ys else ys)))"

lemma mapE_total: "(\<And>x. x \<in> set xs \<Longrightarrow> f x = Inr (g x)) \<Longrightarrow> mapE f xs = Inr (map g xs)"
  by (induction xs) auto

lemma filterE_total:
  "(\<And>x. x \<in> set xs \<Longrightarrow> p x = Inr (q x)) \<Longrightarrow> filterE p xs = Inr (filter q xs)"
  by (induction xs) auto

lemma filterE_fails:
  "x \<in> set xs \<Longrightarrow> p x = Inl e \<Longrightarrow> \<exists>e'. filterE p xs = Inl e'"
proof (induction xs)
  case (Cons y ys)
  then show ?case by (cases "p y"; cases "filterE p ys") auto
qed simp

lemma mapE_length: "mapE f xs = Inr ys \<Longrightarrow> length ys = length xs"
  by (induction xs arbitrary: ys) auto


section \<open>Strings\<close>

text \<open>\<^verbatim>\<open>strings.Split\<close> with a one-byte separator: never empty.\<close>

fun split_on :: "char \<Rightarrow> string \<Rightarrow> string list" where
  "split_on c [] = [[]]"
| "split_on c (x # xs) =
     (if x = c then [] # split_on c xs
      else (case split_on c xs of [] \<Rightarrow> [[x]] | y # ys \<Rightarrow> (x # y) # ys))"

text \<open>\<^verbatim>\<open>strings.SplitN\<close> with a one-byte separator and limit 2.\<close>

fun splitN2 :: "char \<Rightarrow> string \<Rightarrow> string list" where
  "splitN2 c [] = [[]]"
| "splitN2 c (x # xs) =
     (if x = c then [[], xs]
      else (case splitN2 c xs of [] \<Rightarrow> [[x]] | y # ys \<Rightarrow> (x # y) # ys))"

fun join_with :: "char \<Rightarrow> string list \<Rightarrow> string" where
  "join_with c [] = []"
| "join_with c [s] = s"
| "join_with c (s # t # ts) = s @ c # join_with c (t # ts)"

lemma split_on_ne [simp]: "split_on c s \<noteq> []"
  by (cases s) (auto split: list.splits)

lemma splitN2_ne [simp]: "splitN2 c s \<noteq> []"
  by (cases s) (auto split: list.splits)

lemma split_on_free: "c \<notin> set s \<Longrightarrow> split_on c s = [s]"
  by (induction s) auto

lemma split_on_at: "c \<notin> set a \<Longrightarrow> split_on c (a @ c # b) = a # split_on c b"
  by (induction a) auto

lemma splitN2_free: "c \<notin> set s \<Longrightarrow> splitN2 c s = [s]"
  by (induction s) auto

lemma splitN2_at: "c \<notin> set a \<Longrightarrow> splitN2 c (a @ c # b) = [a, b]"
  by (induction a) auto

lemma length_split_on: "length (split_on c s) = Suc (count_list s c)"
  by (induction s) (auto split: list.splits)

lemma split_on_parts_free: "p \<in> set (split_on c s) \<Longrightarrow> c \<notin> set p"
  by (induction s arbitrary: p) (auto split: list.splits if_splits)

lemma join_split: "join_with c (split_on c s) = s"
proof (induction s)
  case (Cons x xs)
  then show ?case by (cases "split_on c xs"; cases "tl (split_on c xs)") auto
qed simp

lemma split_on_eq_single: "split_on c s = [t] \<longleftrightarrow> s = t \<and> c \<notin> set s"
  by (metis join_split join_with.simps(2) list.set_intros(1) split_on_free split_on_parts_free)

lemma split_on_eq_pair:
  "split_on c s = [a, b] \<longleftrightarrow> s = a @ c # b \<and> c \<notin> set a \<and> c \<notin> set b"
proof
  assume l: "split_on c s = [a, b]"
  have "s = a @ c # b" using join_split [of c s] by (simp add: l)
  then show "s = a @ c # b \<and> c \<notin> set a \<and> c \<notin> set b"
    using l split_on_parts_free [of _ c s] by auto
next
  assume "s = a @ c # b \<and> c \<notin> set a \<and> c \<notin> set b"
  then show "split_on c s = [a, b]" by (simp add: split_on_at split_on_free)
qed

text \<open>\<^verbatim>\<open>path.IsAbs\<close>.\<close>

definition path_IsAbs :: "string \<Rightarrow> bool" where
  "path_IsAbs p = (case p of [] \<Rightarrow> False | x # _ \<Rightarrow> x = CHR ''/'')"

text \<open>\<^verbatim>\<open>strings.ToLower\<close> on ASCII letters; other bytes are unchanged.\<close>

definition lower_char :: "char \<Rightarrow> char" where
  "lower_char c = (if 65 \<le> (of_char c :: nat) \<and> (of_char c :: nat) \<le> 90
     then char_of (of_char c + 32 :: nat) else c)"

definition ToLower :: "string \<Rightarrow> string" where
  "ToLower s = map lower_char s"


section \<open>Decimal numbers\<close>

definition digit_char :: "nat \<Rightarrow> char" where
  "digit_char n = char_of (48 + n)"

definition digit_val :: "char \<Rightarrow> nat option" where
  "digit_val c = (let k = (of_char c :: nat) in if 48 \<le> k \<and> k \<le> 57 then Some (k - 48) else None)"

fun nat_dec :: "nat \<Rightarrow> string" where
  "nat_dec n = (if n < 10 then [digit_char n] else nat_dec (n div 10) @ [digit_char (n mod 10)])"

declare nat_dec.simps [simp del]

text \<open>The verb \<^verbatim>\<open>%d\<close>.\<close>

definition int_dec :: "int \<Rightarrow> string" where
  "int_dec i = (if i < 0 then CHR ''-'' # nat_dec (nat (- i)) else nat_dec (nat i))"

fun dec_acc :: "nat \<Rightarrow> string \<Rightarrow> nat option" where
  "dec_acc a [] = Some a"
| "dec_acc a (c # cs) = (case digit_val c of None \<Rightarrow> None | Some d \<Rightarrow> dec_acc (10 * a + d) cs)"

text \<open>
  \<^verbatim>\<open>strconv.Atoi\<close>: an optional sign, at least one decimal digit and nothing else, within
  the range of a 64-bit \<^verbatim>\<open>int\<close>.
\<close>

definition unsigned_dec :: "string \<Rightarrow> nat option" where
  "unsigned_dec s = (if s = [] then None else dec_acc 0 s)"

definition in_int64 :: "int \<Rightarrow> bool" where
  "in_int64 i \<longleftrightarrow> - (2 ^ 63) \<le> i \<and> i < 2 ^ 63"

fun split_sign :: "string \<Rightarrow> bool \<times> string" where
  "split_sign [] = (False, [])"
| "split_sign (c # cs) =
     (if c = CHR ''-'' then (True, cs) else if c = CHR ''+'' then (False, cs) else (False, c # cs))"

definition int64_of :: "bool \<Rightarrow> nat \<Rightarrow> int option" where
  "int64_of neg n = (let i = (if neg then - int n else int n) in if in_int64 i then Some i else None)"

definition Atoi :: "string \<Rightarrow> int option" where
  "Atoi s = Option.bind (unsigned_dec (snd (split_sign s))) (int64_of (fst (split_sign s)))"

lemma digit_val_char [simp]: "d < 10 \<Longrightarrow> digit_val (digit_char d) = Some d"
  by (simp add: digit_val_def digit_char_def Let_def)

lemma dec_acc_append:
  "dec_acc a (xs @ ys) = (case dec_acc a xs of None \<Rightarrow> None | Some b \<Rightarrow> dec_acc b ys)"
  by (induction xs arbitrary: a) (auto split: option.splits)

lemma nat_dec_ne [simp]: "nat_dec n \<noteq> []"
  by (subst nat_dec.simps) simp

lemma dec_acc_nat_dec: "dec_acc 0 (nat_dec n) = Some n"
proof (induction n rule: nat_dec.induct)
  case (1 n)
  show ?case
  proof (cases "n < 10")
    case True
    then show ?thesis by (subst nat_dec.simps) simp
  next
    case False
    with 1 have "dec_acc 0 (nat_dec (n div 10)) = Some (n div 10)" by simp
    with False show ?thesis by (subst nat_dec.simps) (simp add: dec_acc_append)
  qed
qed

lemma nat_dec_digit: "c \<in> set (nat_dec n) \<Longrightarrow> digit_val c \<noteq> None"
proof (induction n rule: nat_dec.induct)
  case (1 n)
  then show ?case
    by (subst (asm) nat_dec.simps) (auto split: if_splits)
qed

lemma nat_dec_free: "digit_val c = None \<Longrightarrow> c \<notin> set (nat_dec n)"
  using nat_dec_digit by blast

lemma int_dec_free: "digit_val c = None \<Longrightarrow> c \<noteq> CHR ''-'' \<Longrightarrow> c \<notin> set (int_dec i)"
  by (auto simp: int_dec_def nat_dec_free)

lemma digit_val_sep [simp]:
  "digit_val CHR '':'' = None" "digit_val CHR ''/'' = None"
  "digit_val CHR ''-'' = None" "digit_val CHR ''+'' = None"
  by (simp_all add: digit_val_def)

lemma split_sign_nat_dec [simp]: "split_sign (nat_dec n) = (False, nat_dec n)"
proof -
  obtain c cs where n: "nat_dec n = c # cs" using nat_dec_ne [of n] by (cases "nat_dec n") auto
  have "digit_val c \<noteq> None" using nat_dec_digit [of c n] n by simp
  then have "c \<noteq> CHR ''-''" "c \<noteq> CHR ''+''" by auto
  with n show ?thesis by simp
qed

lemma Atoi_int_dec: "in_int64 i \<Longrightarrow> Atoi (int_dec i) = Some i"
  by (simp add: Atoi_def int_dec_def unsigned_dec_def dec_acc_nat_dec int64_of_def)

lemma int64_of_range: "int64_of b n = Some i \<Longrightarrow> in_int64 i"
  by (simp add: int64_of_def Let_def split: if_splits)

lemma Atoi_range: "Atoi s = Some i \<Longrightarrow> in_int64 i"
  by (auto simp: Atoi_def Option.bind_eq_Some_conv intro: int64_of_range)

lemma nat_dec_inj: "nat_dec m = nat_dec n \<Longrightarrow> m = n"
  by (metis dec_acc_nat_dec option.inject)

lemma nat_dec_no_sign: "nat_dec n \<noteq> CHR ''-'' # s"
  using nat_dec_free [of "CHR ''-''" n] by auto

lemma int_dec_inj: "int_dec i = int_dec j \<Longrightarrow> i = j"
  by (auto simp: int_dec_def nat_dec_no_sign nat_dec_no_sign [symmetric]
      split: if_splits dest!: nat_dec_inj)


section \<open>Channels\<close>

text \<open>
  A buffered Go channel is its buffer, its capacity and whether it was closed. A send on a
  closed channel and a second close panic; a send on a full channel blocks, and the
  non-blocking form (a \<^verbatim>\<open>select\<close> with a \<^verbatim>\<open>default\<close>) reports it instead.
\<close>

record 'a chan =
  chan_cap :: nat
  chan_buf :: "'a list"
  chan_closed :: bool

definition make_chan :: "nat \<Rightarrow> 'a chan" where
  "make_chan n = \<lparr>chan_cap = n, chan_buf = [], chan_closed = False\<rparr>"

definition chan_full :: "'a chan \<Rightarrow> bool" where
  "chan_full c \<longleftrightarrow> chan_cap c \<le> length (chan_buf c)"

definition chan_try_send :: "'a \<Rightarrow> 'a chan \<Rightarrow> ('a chan \<times> bool) go" where
  "chan_try_send x c =
     (if chan_closed c then Inl SendOnClosed
      else if chan_full c then Inr (c, False)
      else Inr (c\<lparr>chan_buf := chan_buf c @ [x]\<rparr>, True))"

definition chan_close :: "'a chan \<Rightarrow> 'a chan go" where
  "chan_close c = (if chan_closed c then Inl CloseOfClosed else Inr (c\<lparr>chan_closed := True\<rparr>))"

definition chan_ok :: "'a chan \<Rightarrow> bool" where
  "chan_ok c \<longleftrightarrow> length (chan_buf c) \<le> chan_cap c"

lemma chan_ok_make [simp]: "chan_ok (make_chan n)"
  by (simp add: chan_ok_def make_chan_def)

lemma chan_try_send_ok: "chan_ok c \<Longrightarrow> chan_try_send x c = Inr (c', b) \<Longrightarrow> chan_ok c'"
  by (auto simp: chan_try_send_def chan_ok_def chan_full_def split: if_splits)


section \<open>Reachable states and invariants\<close>

inductive reachable :: "('s \<Rightarrow> bool) \<Rightarrow> ('s \<Rightarrow> 's \<Rightarrow> bool) \<Rightarrow> 's \<Rightarrow> bool"
  for start :: "'s \<Rightarrow> bool" and step :: "'s \<Rightarrow> 's \<Rightarrow> bool" where
  reach_start: "start s \<Longrightarrow> reachable start step s"
| reach_step: "reachable start step s \<Longrightarrow> step s t \<Longrightarrow> reachable start step t"

text \<open>An inductive invariant of a step relation holds in every reachable state.\<close>

locale inductive_invariant =
  fixes start :: "'s \<Rightarrow> bool"
    and step :: "'s \<Rightarrow> 's \<Rightarrow> bool"
    and invar :: "'s \<Rightarrow> bool"
  assumes invar_start: "start s \<Longrightarrow> invar s"
    and invar_step: "invar s \<Longrightarrow> step s t \<Longrightarrow> invar t"
begin

lemma reachable_invar: "reachable start step s \<Longrightarrow> invar s"
  by (induction rule: reachable.induct) (auto intro: invar_start invar_step)

lemma rtranclp_invar: "step\<^sup>*\<^sup>* s t \<Longrightarrow> invar s \<Longrightarrow> invar t"
  by (induction rule: rtranclp_induct) (auto intro: invar_step)

end

lemma reachable_rtranclp: "step\<^sup>*\<^sup>* s t \<Longrightarrow> reachable start step s \<Longrightarrow> reachable start step t"
  by (induction rule: rtranclp_induct) (auto intro: reachable.reach_step)

end
