(* ===== verification/Go_Json.thy ===== *)
theory Go_Json
  imports Launcher_Prelude
begin

text \<open>
  What the sources use of Go's \<^verbatim>\<open>encoding/json\<close>: JSON documents as values (numbers keep
  their literal, as the typed decoders read it) and decoding into Go values. A decoder takes
  the value already in place, since \<^verbatim>\<open>json.Unmarshal\<close> leaves it alone on \<^verbatim>\<open>null\<close>, lets a
  repeated key decode again on top of it, and keeps a field whose key is absent.
\<close>

datatype json =
    JNull
  | JBool bool
  | JNum string
  | JStr string
  | JArr "json list"
  | JObj "(string \<times> json) list"

datatype json_err = TypeMismatch | NumberRange | BadText

type_synonym 'a decoder = "json \<Rightarrow> 'a \<Rightarrow> json_err + 'a"

fun dec_string :: "string decoder" where
  "dec_string (JStr s) old = Inr s"
| "dec_string JNull old = Inr old"
| "dec_string _ old = Inl TypeMismatch"

fun dec_bool :: "bool decoder" where
  "dec_bool (JBool b) old = Inr b"
| "dec_bool JNull old = Inr old"
| "dec_bool _ old = Inl TypeMismatch"

fun dec_int :: "int decoder" where
  "dec_int (JNum l) old = (case Atoi l of None \<Rightarrow> Inl NumberRange | Some i \<Rightarrow> Inr i)"
| "dec_int JNull old = Inr old"
| "dec_int _ old = Inl TypeMismatch"

definition parse_uint64 :: "string \<Rightarrow> u64 option" where
  "parse_uint64 l = (case unsigned_dec l of None \<Rightarrow> None
     | Some n \<Rightarrow> if n < 2 ^ 64 then Some (of_nat n) else None)"

fun dec_uint64 :: "u64 decoder" where
  "dec_uint64 (JNum l) old = (case parse_uint64 l of None \<Rightarrow> Inl NumberRange | Some i \<Rightarrow> Inr i)"
| "dec_uint64 JNull old = Inr old"
| "dec_uint64 _ old = Inl TypeMismatch"

text \<open>A pointer: \<^verbatim>\<open>null\<close> resets it, anything else decodes into the value it points to.\<close>

definition dec_ptr :: "'a decoder \<Rightarrow> 'a \<Rightarrow> 'a option decoder" where
  "dec_ptr d zero v old = (case v of
     JNull \<Rightarrow> Inr None
   | _ \<Rightarrow> andThen (d v (case old of None \<Rightarrow> zero | Some x \<Rightarrow> x)) (\<lambda>x. Inr (Some x)))"

fun dec_elems :: "'a decoder \<Rightarrow> 'a \<Rightarrow> json list \<Rightarrow> 'a list \<Rightarrow> json_err + 'a list" where
  "dec_elems d zero [] olds = Inr []"
| "dec_elems d zero (v # vs) olds =
     andThen (d v (case olds of [] \<Rightarrow> zero | x # _ \<Rightarrow> x)) (\<lambda>x.
     andThen (dec_elems d zero vs (tl olds)) (\<lambda>xs. Inr (x # xs)))"

fun dec_list :: "'a decoder \<Rightarrow> 'a \<Rightarrow> 'a list decoder" where
  "dec_list d zero (JArr vs) old = dec_elems d zero vs old"
| "dec_list d zero JNull old = Inr []"
| "dec_list d zero _ old = Inl TypeMismatch"

text \<open>A \<^verbatim>\<open>map[string]interface{}\<close>: the entries are added to the ones already there.\<close>

fun dec_anymap :: "(string \<times> json) list decoder" where
  "dec_anymap (JObj kvs) old = Inr (old @ kvs)"
| "dec_anymap JNull old = Inr []"
| "dec_anymap _ old = Inl TypeMismatch"

text \<open>
  Struct fields: a key selects the field of exactly its name, or else the first field whose
  name is equal up to case. The keys of an object are decoded in the order of the document,
  each into the struct as the keys before it left it; unknown keys are skipped.
\<close>

type_synonym 's struct_fields = "(string \<times> 's decoder) list"

definition match_key :: "string list \<Rightarrow> string \<Rightarrow> string option" where
  "match_key fs k = (if k \<in> set fs then Some k else List.find (\<lambda>f. ToLower f = ToLower k) fs)"

definition dec_key :: "'s struct_fields \<Rightarrow> string \<Rightarrow> 's decoder" where
  "dec_key fl k v s =
     (case match_key (map fst fl) k of None \<Rightarrow> Inr s
      | Some f \<Rightarrow> (case map_of fl f of None \<Rightarrow> Inr s | Some d \<Rightarrow> d v s))"

fun dec_object :: "'s struct_fields \<Rightarrow> (string \<times> json) list \<Rightarrow> 's \<Rightarrow> json_err + 's" where
  "dec_object fl [] s = Inr s"
| "dec_object fl ((k, v) # kvs) s = andThen (dec_key fl k v s) (dec_object fl kvs)"

text \<open>A struct value is an object, or \<^verbatim>\<open>null\<close>, which leaves the struct as it is.\<close>

fun dec_struct :: "'s struct_fields \<Rightarrow> 's decoder" where
  "dec_struct fl (JObj kvs) s = dec_object fl kvs s"
| "dec_struct fl JNull s = Inr s"
| "dec_struct fl _ s = Inl TypeMismatch"

text \<open>A decoder for one field of a record, from a decoder for the field's value.\<close>

definition into :: "'a decoder \<Rightarrow> ('s \<Rightarrow> 'a) \<Rightarrow> ('a \<Rightarrow> 's \<Rightarrow> 's) \<Rightarrow> 's decoder" where
  "into d rd wr v s = andThen (d v (rd s)) (\<lambda>x. Inr (wr x s))"

lemma into_Inr: "into d rd wr v s = Inr s' \<longleftrightarrow> (\<exists>x. d v (rd s) = Inr x \<and> s' = wr x s)"
  by (auto simp: into_def)

text \<open>What every field decoder keeps, decoding an object keeps.\<close>

lemma dec_object_keeps:
  assumes "\<And>f d v s s'. (f, d) \<in> set fl \<Longrightarrow> d v s = Inr s' \<Longrightarrow> Q s \<Longrightarrow> Q s'"
    and "dec_object fl kvs s = Inr s'" and "Q s"
  shows "Q s'"
  using assms(2,3)
proof (induction kvs arbitrary: s)
  case (Cons kv kvs)
  obtain k v where "kv = (k, v)" by fastforce
  with Cons.prems(1) obtain t where t: "dec_key fl k v s = Inr t" "dec_object fl kvs t = Inr s'"
    by auto
  have "Q t" using t(1) Cons.prems(2) assms(1)
    by (auto simp: dec_key_def split: option.splits dest!: map_of_SomeD)
  with t(2) show ?case by (rule Cons.IH)
qed simp

text \<open>
  A struct that embeds another one decodes the embedded part as the embedded struct alone
  would: \<open>view\<close> reads the embedded part, \<open>fl\<close> and \<open>gl\<close> are the fields of the outer and of the
  embedded struct.
\<close>

definition embeds :: "('s \<Rightarrow> 't) \<Rightarrow> 's struct_fields \<Rightarrow> 't struct_fields \<Rightarrow> bool" where
  "embeds view fl gl \<longleftrightarrow> (\<forall>k v s s'. dec_key fl k v s = Inr s' \<longrightarrow>
     dec_key gl k v (view s) = Inr (view s'))"

lemma embeds_object:
  assumes "embeds view fl gl"
  shows "dec_object fl kvs s = Inr s' \<Longrightarrow> dec_object gl kvs (view s) = Inr (view s')"
proof (induction kvs arbitrary: s)
  case (Cons kv kvs)
  obtain k v where "kv = (k, v)" by fastforce
  with Cons show ?case using assms by (fastforce simp: embeds_def)
qed simp

lemma embeds_struct:
  "embeds view fl gl \<Longrightarrow> dec_struct fl v s = Inr s' \<Longrightarrow> dec_struct gl v (view s) = Inr (view s')"
  by (cases v) (auto simp: embeds_object)

text \<open>
  A sufficient condition: the outer struct lists the embedded fields first, decoding each as
  the embedded struct does, and its other fields leave the embedded part alone and have names
  that differ from the embedded ones also up to case.
\<close>

lemma embedsI:
  assumes names: "map fst fl = map fst gl @ ext" and dist: "distinct (map ToLower (map fst fl))"
    and inner: "\<And>f d e v s s'. map_of gl f = Some e \<Longrightarrow> map_of fl f = Some d \<Longrightarrow>
      d v s = Inr s' \<Longrightarrow> e v (view s) = Inr (view s')"
    and outer: "\<And>f d v s s'. f \<in> set ext \<Longrightarrow> map_of fl f = Some d \<Longrightarrow> d v s = Inr s' \<Longrightarrow>
      view s' = view s"
  shows "embeds view fl gl"
  unfolding embeds_def
proof (intro allI impI)
  fix k v s s'
  assume dk: "dec_key fl k v s = Inr s'"
  let ?G = "map fst gl" and ?F = "map fst fl"
  have sep: "ToLower f \<noteq> ToLower g" if "f \<in> set ?G" "g \<in> set ext" for f g
    using dist that by (force simp: names)
  have find_app: "List.find P (xs @ ys) = (case List.find P xs of None \<Rightarrow> List.find P ys | r \<Rightarrow> r)"
    for P :: "string \<Rightarrow> bool" and xs ys by (induction xs) auto
  have mk: "match_key ?F k = (case match_key ?G k of Some f \<Rightarrow> Some f | None \<Rightarrow> match_key ext k)"
  proof (cases "k \<in> set ext \<and> k \<notin> set ?G")
    case True
    with sep have "List.find (\<lambda>f. ToLower f = ToLower k) ?G = None"
      by (auto simp: find_None_iff)
    with True show ?thesis by (simp add: match_key_def names)
  next
    case False
    then show ?thesis by (auto simp: match_key_def names find_app split: option.splits)
  qed
  show "dec_key gl k v (view s) = Inr (view s')"
  proof (cases "match_key ?G k")
    case (Some f)
    then have "f \<in> set ?G"
      by (auto simp: match_key_def find_Some_iff split: if_splits)
    then obtain d e where "map_of gl f = Some e" "map_of fl f = Some d"
      using names by (metis (no_types, opaque_lifting) Un_iff image_set map_of_eq_None_iff
          not_None_eq set_append)
    with Some mk dk inner show ?thesis by (auto simp: dec_key_def)
  next
    case None
    have "view s' = view s"
    proof (cases "match_key ext k")
      case (Some f)
      then have "f \<in> set ext" by (auto simp: match_key_def find_Some_iff split: if_splits)
      with Some mk None dk outer show ?thesis
        by (auto simp: dec_key_def split: option.splits)
    qed (use mk None dk in \<open>auto simp: dec_key_def\<close>)
    with None show ?thesis by (simp add: dec_key_def)
  qed
qed

text \<open>The printed form of an unsigned number decodes to it.\<close>

lemma parse_uint64_nat_dec: "parse_uint64 (nat_dec (unat (w :: u64))) = Some w"
  using unsigned_less [of w, where ?'a = nat]
  by (simp add: parse_uint64_def unsigned_dec_def dec_acc_nat_dec)

end
