(* ===== verification/Api_Types.thy ===== *)
theory Api_Types
  imports Go_Json
begin

text \<open>
  The package \<^verbatim>\<open>api\<close> (\<^verbatim>\<open>src/api/types.go\<close>): error codes and errors, job statuses, the job
  record and its parts, job filters, field projection (\<^verbatim>\<open>WithFields\<close>) and job operations.
  The text forms of environment variables, mounts and ports are in \<open>Api_Flags\<close>.

  Go's integer enumerations (\<^verbatim>\<open>type ErrCode int\<close>) hold any integer, so they are integers here
  with one constant per Go constant. A nil and an empty slice of a job are not told apart by
  the code and are both the empty list.
\<close>


section \<open>Error codes and errors\<close>

type_synonym ErrCode = int

definition CodeUnknown :: ErrCode where [api_defs]: "CodeUnknown = 0"
definition CodeRequestNotSupported :: ErrCode where [api_defs]: "CodeRequestNotSupported = 1"
definition CodeInvalidRequest :: ErrCode where [api_defs]: "CodeInvalidRequest = 2"
definition CodeJobNotFound :: ErrCode where [api_defs]: "CodeJobNotFound = 3"
definition CodePluginRestarted :: ErrCode where [api_defs]: "CodePluginRestarted = 4"
definition CodeTimeout :: ErrCode where [api_defs]: "CodeTimeout = 5"
definition CodeJobNotRunning :: ErrCode where [api_defs]: "CodeJobNotRunning = 6"
definition CodeJobOutputNotFound :: ErrCode where [api_defs]: "CodeJobOutputNotFound = 7"
definition CodeInvalidJobState :: ErrCode where [api_defs]: "CodeInvalidJobState = 8"
definition CodeJobControlFailure :: ErrCode where [api_defs]: "CodeJobControlFailure = 9"
definition CodeUnsupportedVersion :: ErrCode where [api_defs]: "CodeUnsupportedVersion = 10"

definition ErrCode_String :: "ErrCode \<Rightarrow> string" where
  "ErrCode_String e =
     (if e = CodeUnknown then ''an error occurred''
      else if e = CodeRequestNotSupported then ''not supported''
      else if e = CodeInvalidRequest then ''invalid request''
      else if e = CodeJobNotFound then ''job not found''
      else if e = CodePluginRestarted then ''plugin is restarting''
      else if e = CodeTimeout then ''timeout''
      else if e = CodeJobNotRunning then ''job not running''
      else if e = CodeJobOutputNotFound then ''job output not found''
      else if e = CodeInvalidJobState then ''invalid job state''
      else if e = CodeJobControlFailure then ''job control failure''
      else if e = CodeUnsupportedVersion then ''unsupported version''
      else ''an error occurred'')"

record Error =
  err_Code :: ErrCode
  err_Msg :: string

definition Errorf :: "ErrCode \<Rightarrow> string \<Rightarrow> Error" where
  "Errorf code msg = \<lparr>err_Code = code, err_Msg = msg\<rparr>"

definition Error_Error :: "Error \<Rightarrow> string" where
  "Error_Error e = (if err_Msg e \<noteq> '''' then err_Msg e else ErrCode_String (err_Code e))"

definition ErrJobNotRunning :: Error where
  "ErrJobNotRunning = \<lparr>err_Code = CodeJobNotRunning, err_Msg = ''''\<rparr>"
definition ErrJobNotFound :: Error where
  "ErrJobNotFound = \<lparr>err_Code = CodeJobNotFound, err_Msg = ''''\<rparr>"
definition ErrInvalidJobState :: Error where
  "ErrInvalidJobState = \<lparr>err_Code = CodeInvalidJobState, err_Msg = ''''\<rparr>"

type_synonym ConfigReloadErrorType = int

definition ReloadErrorUnknown :: ConfigReloadErrorType where [api_defs]: "ReloadErrorUnknown = -1"
definition ReloadErrorNone :: ConfigReloadErrorType where [api_defs]: "ReloadErrorNone = 0"
definition ReloadErrorLoad :: ConfigReloadErrorType where [api_defs]: "ReloadErrorLoad = 1"
definition ReloadErrorValidate :: ConfigReloadErrorType where [api_defs]: "ReloadErrorValidate = 2"
definition ReloadErrorSave :: ConfigReloadErrorType where [api_defs]: "ReloadErrorSave = 3"

definition ConfigReloadErrorType_String :: "ConfigReloadErrorType \<Rightarrow> string" where
  "ConfigReloadErrorType_String e =
     (if e = ReloadErrorUnknown then ''unknown error''
      else if e = ReloadErrorNone then ''none''
      else if e = ReloadErrorLoad then ''load error''
      else if e = ReloadErrorValidate then ''validation error''
      else if e = ReloadErrorSave then ''save error''
      else ''unknown error'')"

text \<open>
  \<^verbatim>\<open>launcher.ConfigReloadError\<close> is declared here so that one type covers the Go errors the
  sources tell apart: an \<^verbatim>\<open>*api.Error\<close>, a \<^verbatim>\<open>*ConfigReloadError\<close>, any other error with its
  message, and an error wrapping another one (\<^verbatim>\<open>%w\<close>) with the whole message.
\<close>

record ConfigReloadError =
  cre_Type :: ConfigReloadErrorType
  cre_Message :: string

definition ConfigReloadError_Error :: "ConfigReloadError \<Rightarrow> string" where
  "ConfigReloadError_Error e =
     (if cre_Message e \<noteq> '''' then cre_Message e
      else ''config reload failed: '' @ ConfigReloadErrorType_String (cre_Type e))"

datatype goerror =
    EApi Error
  | EReload ConfigReloadError
  | EPlain string
  | EWrap string goerror

fun goerror_Error :: "goerror \<Rightarrow> string" where
  "goerror_Error (EApi e) = Error_Error e"
| "goerror_Error (EReload e) = ConfigReloadError_Error e"
| "goerror_Error (EPlain m) = m"
| "goerror_Error (EWrap m _) = m"

text \<open>\<^verbatim>\<open>errors.As\<close> for the two structured error types: the first match along the chain.\<close>

fun errors_As_api :: "goerror \<Rightarrow> Error option" where
  "errors_As_api (EApi e) = Some e"
| "errors_As_api (EWrap _ e) = errors_As_api e"
| "errors_As_api _ = None"

fun errors_As_reload :: "goerror \<Rightarrow> ConfigReloadError option" where
  "errors_As_reload (EReload e) = Some e"
| "errors_As_reload (EWrap _ e) = errors_As_reload e"
| "errors_As_reload _ = None"

definition Error_Is :: "Error \<Rightarrow> goerror \<Rightarrow> bool" where
  "Error_Is e err = (case err of
     EApi apiErr \<Rightarrow>
       (if err_Msg apiErr \<noteq> '''' \<and> err_Msg e \<noteq> '''' \<and> err_Msg apiErr \<noteq> err_Msg e then False
        else err_Code apiErr = err_Code e)
   | _ \<Rightarrow> False)"


section \<open>Job statuses, outputs, identifiers\<close>

definition StatusCanceled :: string where [api_defs]: "StatusCanceled = ''Canceled''"
definition StatusFailed :: string where [api_defs]: "StatusFailed = ''Failed''"
definition StatusFinished :: string where [api_defs]: "StatusFinished = ''Finished''"
definition StatusKilled :: string where [api_defs]: "StatusKilled = ''Killed''"
definition StatusPending :: string where [api_defs]: "StatusPending = ''Pending''"
definition StatusRunning :: string where [api_defs]: "StatusRunning = ''Running''"
definition StatusSuspended :: string where [api_defs]: "StatusSuspended = ''Suspended''"

definition TerminalStatus :: "string \<Rightarrow> bool" where
  "TerminalStatus status =
     (status = StatusCanceled \<or> status = StatusFailed \<or> status = StatusFinished
      \<or> status = StatusKilled)"

lemma TerminalStatus_simps [simp]:
  "TerminalStatus StatusCanceled" "TerminalStatus StatusFailed"
  "TerminalStatus StatusFinished" "TerminalStatus StatusKilled"
  "\<not> TerminalStatus StatusPending" "\<not> TerminalStatus StatusRunning"
  "\<not> TerminalStatus StatusSuspended"
  by (simp_all add: TerminalStatus_def api_defs)

type_synonym JobOutput = int

definition OutputStdout :: JobOutput where [api_defs]: "OutputStdout = 0"
definition OutputStderr :: JobOutput where [api_defs]: "OutputStderr = 1"
definition OutputBoth :: JobOutput where [api_defs]: "OutputBoth = 2"

definition JobOutput_String :: "JobOutput \<Rightarrow> string" where
  "JobOutput_String out =
     (if out = OutputStdout then ''stdout''
      else if out = OutputStderr then ''stderr''
      else if out = OutputBoth then ''mixed''
      else ''mixed'')"

text \<open>Job identifiers are strings of their own type, ordered as Go orders strings: bytewise.\<close>

datatype JobID = JobID (id_str: string)

instantiation JobID :: linorder
begin

definition less_eq_JobID :: "JobID \<Rightarrow> JobID \<Rightarrow> bool" where
  "less_eq_JobID a b \<longleftrightarrow> id_str a \<le> id_str b"

definition less_JobID :: "JobID \<Rightarrow> JobID \<Rightarrow> bool" where
  "less_JobID a b \<longleftrightarrow> id_str a < id_str b"

instance
  by standard (auto simp: less_eq_JobID_def less_JobID_def JobID.expand)

end

definition JobIDWildcard :: JobID where
  "JobIDWildcard = JobID ''*''"

definition JobID_IsWildcard :: "JobID \<Rightarrow> bool" where
  "JobID_IsWildcard jid \<longleftrightarrow> jid = JobIDWildcard"


section \<open>The job record and its parts\<close>

record Container =
  cont_Image :: string
  cont_RunAsUser :: "int option"
  cont_RunAsGroup :: "int option"
  cont_SupplementalGroups :: "int list"

record Env =
  env_Name :: string
  env_Value :: string

record HostMount =
  hm_Path :: string

text \<open>
  \<^verbatim>\<open>MountSource.Source\<close> is an \<^verbatim>\<open>interface{}\<close>: a \<^verbatim>\<open>HostMount\<close>, or whatever the JSON
  document holds, kept as it is (nothing when the key is missing).
\<close>

datatype mount_source_value = SrcHost HostMount | SrcRaw "json option"

record MountSource =
  ms_Type :: string
  ms_Source :: mount_source_value

definition MountTypeHost :: string where
  "MountTypeHost = ''host''"

record Mount =
  mnt_Path :: string
  mnt_Name :: string
  mnt_ReadOnly :: bool
  mnt_Source :: MountSource

record InitContainer =
  ic_Name :: string
  ic_Image :: string
  ic_Command :: string
  ic_Exe :: string
  ic_Args :: "string list"
  ic_Mounts :: "Mount list"
  ic_Env :: "Env list"

record PlacementConstraint =
  pc_Name :: string
  pc_Value :: string
  pc_Default :: string

record Port =
  port_TargetPort :: int
  port_PublishedPort :: "int option"
  port_Protocol :: string

record JobConfig =
  jc_Name :: string
  jc_Type :: string
  jc_Value :: string

record ResourceLimit =
  rl_Type :: string
  rl_Value :: string
  rl_Default :: string
  rl_Max :: string

record ResourceProfile =
  rp_Name :: string
  rp_DisplayName :: string
  rp_Limits :: "ResourceLimit list"
  rp_Queue :: string
  rp_Constraints :: "PlacementConstraint list"

record Node =
  node_Host :: string
  node_IP :: string
  node_Port :: string
  node_LastSeen :: instant
  node_Status :: string

definition Node_Online :: "Node \<Rightarrow> bool" where
  "Node_Online n \<longleftrightarrow> node_Status n = ''Online''"

record Version =
  ver_Major :: int
  ver_Minor :: int
  ver_Patch :: int
  ver_Build :: int
  ver_Revision :: string

definition APIVersion :: Version where
  "APIVersion = \<lparr>ver_Major = 3, ver_Minor = 10, ver_Patch = 0, ver_Build = 0, ver_Revision = ''''\<rparr>"

record Job =
  job_ID :: JobID
  job_Cluster :: string
  job_Name :: string
  job_User :: string
  job_Group :: string
  job_Queues :: "string list"
  job_WorkDir :: string
  job_Container :: "Container option"
  job_InitContainers :: "InitContainer list"
  job_Host :: string
  job_Status :: string
  job_StatusMsg :: string
  job_StatusCode :: string
  job_Pid :: "int option"
  job_ExitCode :: "int option"
  job_Command :: string
  job_Exe :: string
  job_Stdout :: string
  job_Stderr :: string
  job_Stdin :: string
  job_Args :: "string list"
  job_Env :: "Env list"
  job_Constraints :: "PlacementConstraint list"
  job_LastUpdated :: "instant option"
  job_Submitted :: "instant option"
  job_Ports :: "Port list"
  job_Mounts :: "Mount list"
  job_Config :: "JobConfig list"
  job_Limits :: "ResourceLimit list"
  job_Tags :: "string list"
  job_Metadata :: "(string \<times> json) list"
  job_Profile :: string
  job_SystemJob :: bool
  job_InstanceID :: string
  job_Misc :: "(string \<times> json) list"

text \<open>The zero value \<^verbatim>\<open>Job{}\<close>.\<close>

definition zero_Job :: Job where
  "zero_Job = \<lparr>job_ID = JobID '''', job_Cluster = '''', job_Name = '''', job_User = '''',
     job_Group = '''', job_Queues = [], job_WorkDir = '''', job_Container = None,
     job_InitContainers = [], job_Host = '''', job_Status = '''', job_StatusMsg = '''',
     job_StatusCode = '''', job_Pid = None, job_ExitCode = None, job_Command = '''',
     job_Exe = '''', job_Stdout = '''', job_Stderr = '''', job_Stdin = '''', job_Args = [],
     job_Env = [], job_Constraints = [], job_LastUpdated = None, job_Submitted = None,
     job_Ports = [], job_Mounts = [], job_Config = [], job_Limits = [], job_Tags = [],
     job_Metadata = [], job_Profile = '''', job_SystemJob = False, job_InstanceID = '''',
     job_Misc = []\<rparr>"

end
