(* ===== verification/Api_Jobs.thy ===== *)
theory Api_Jobs
  imports Api_Types
begin

text \<open>
  Behaviour of the package \<^verbatim>\<open>api\<close> on jobs (\<^verbatim>\<open>src/api/types.go\<close>): job filters
  (\<^verbatim>\<open>JobFilter.Includes\<close>, with the nil dereference of a job without a submission time written
  out), field projection (\<^verbatim>\<open>jobFieldSetters\<close>, \<^verbatim>\<open>Job.WithFields\<close>) and job operations, each with
  the declarative reading it implements.
\<close>


section \<open>Filters\<close>

record JobFilter =
  flt_Tags :: "string list"
  flt_StartTime :: "instant option"
  flt_EndTime :: "instant option"
  flt_Statuses :: "string list"
  flt_Fields :: "string list"

definition zero_JobFilter :: JobFilter where
  "zero_JobFilter = \<lparr>flt_Tags = [], flt_StartTime = None, flt_EndTime = None,
     flt_Statuses = [], flt_Fields = []\<rparr>"

text \<open>\<^verbatim>\<open>job.Submitted.Before(t)\<close> on a pointer: a nil pointer is dereferenced and panics.\<close>

definition time_Before :: "instant option \<Rightarrow> instant \<Rightarrow> bool go" where
  "time_Before p t = andThen (deref p) (\<lambda>s. Inr (s < t))"

definition time_After :: "instant option \<Rightarrow> instant \<Rightarrow> bool go" where
  "time_After p t = andThen (deref p) (\<lambda>s. Inr (t < s))"

text \<open>The loop over the filter's statuses, which stops at the first equal one.\<close>

fun status_loop :: "string \<Rightarrow> string list \<Rightarrow> bool \<Rightarrow> bool" where
  "status_loop st [] found = found"
| "status_loop st (s # ss) found = (if st = s then True else status_loop st ss found)"

text \<open>The inner and the outer loop over tags.\<close>

fun tag_loop :: "string \<Rightarrow> string list \<Rightarrow> bool \<Rightarrow> bool" where
  "tag_loop tag [] found = found"
| "tag_loop tag (t # ts) found = (if tag = t then True else tag_loop tag ts found)"

fun tags_loop :: "string list \<Rightarrow> string list \<Rightarrow> bool" where
  "tags_loop [] jtags = True"
| "tags_loop (tag # tags) jtags =
     (if \<not> tag_loop tag jtags False then False else tags_loop tags jtags)"

definition Includes :: "JobFilter \<Rightarrow> Job \<Rightarrow> bool go" where
  "Includes f job =
     andThen (case flt_StartTime f of None \<Rightarrow> Inr False | Some t \<Rightarrow> time_Before (job_Submitted job) t)
       (\<lambda>early. if early then Inr False else
     andThen (case flt_EndTime f of None \<Rightarrow> Inr False | Some t \<Rightarrow> time_After (job_Submitted job) t)
       (\<lambda>late. if late then Inr False else
     (if \<not> status_loop (job_Status job) (flt_Statuses f) (flt_Statuses f = []) then Inr False
      else Inr (tags_loop (flt_Tags f) (job_Tags job)))))"

lemma status_loop_iff: "status_loop st ss b \<longleftrightarrow> b \<or> st \<in> set ss"
  by (induction ss) auto

lemma tag_loop_iff: "tag_loop t ts b \<longleftrightarrow> b \<or> t \<in> set ts"
  by (induction ts) auto

lemma tags_loop_iff: "tags_loop tags jtags \<longleftrightarrow> set tags \<subseteq> set jtags"
  by (induction tags) (auto simp: tag_loop_iff)

text \<open>
  What a filter means: every given condition holds, where a time bound needs the job to have
  been submitted within it.
\<close>

definition filter_matches :: "JobFilter \<Rightarrow> Job \<Rightarrow> bool" where
  "filter_matches f job \<longleftrightarrow>
     (\<forall>t. flt_StartTime f = Some t \<longrightarrow> (\<exists>s. job_Submitted job = Some s \<and> t \<le> s)) \<and>
     (\<forall>t. flt_EndTime f = Some t \<longrightarrow> (\<exists>s. job_Submitted job = Some s \<and> s \<le> t)) \<and>
     (flt_Statuses f = [] \<or> job_Status job \<in> set (flt_Statuses f)) \<and>
     set (flt_Tags f) \<subseteq> set (job_Tags job)"

definition filter_timed :: "JobFilter \<Rightarrow> bool" where
  "filter_timed f \<longleftrightarrow> flt_StartTime f \<noteq> None \<or> flt_EndTime f \<noteq> None"

definition filter_safe :: "JobFilter \<Rightarrow> Job \<Rightarrow> bool" where
  "filter_safe f job \<longleftrightarrow> (filter_timed f \<longrightarrow> job_Submitted job \<noteq> None)"

lemma Includes_safe: "filter_safe f job \<Longrightarrow> Includes f job = Inr (filter_matches f job)"
  by (cases "flt_StartTime f"; cases "flt_EndTime f"; cases "job_Submitted job")
     (auto simp: filter_safe_def filter_timed_def Includes_def filter_matches_def
        time_Before_def time_After_def status_loop_iff tags_loop_iff not_less)

lemma Includes_unsafe: "\<not> filter_safe f job \<Longrightarrow> Includes f job = Inl NilDeref"
  by (cases "flt_StartTime f"; cases "flt_EndTime f"; cases "job_Submitted job")
     (auto simp: filter_safe_def filter_timed_def Includes_def time_Before_def time_After_def)

text \<open>
  \<^verbatim>\<open>JobFilter.Includes\<close> decides exactly the declarative meaning of a filter: it answers
  true when every condition given (start time, end time, one of the statuses, all of the tags)
  is met and false otherwise, and it panics exactly when a time bound is given and the job has
  no submission time.
\<close>

theorem Includes_correct:
  "Includes f job =
     (if filter_timed f \<and> job_Submitted job = None then Inl NilDeref
      else Inr (filter_matches f job))"
  using Includes_safe [of f job] Includes_unsafe [of f job] by (auto simp: filter_safe_def)


section \<open>Projection to requested fields\<close>

definition jobFieldSetters :: "(string \<times> (Job \<Rightarrow> Job \<Rightarrow> Job)) list" where
  "jobFieldSetters = [
     (''cluster'', \<lambda>d s. d\<lparr>job_Cluster := job_Cluster s\<rparr>),
     (''name'', \<lambda>d s. d\<lparr>job_Name := job_Name s\<rparr>),
     (''user'', \<lambda>d s. d\<lparr>job_User := job_User s\<rparr>),
     (''group'', \<lambda>d s. d\<lparr>job_Group := job_Group s\<rparr>),
     (''queues'', \<lambda>d s. d\<lparr>job_Queues := job_Queues s\<rparr>),
     (''workingDirectory'', \<lambda>d s. d\<lparr>job_WorkDir := job_WorkDir s\<rparr>),
     (''container'', \<lambda>d s. d\<lparr>job_Container := job_Container s\<rparr>),
     (''initContainers'', \<lambda>d s. d\<lparr>job_InitContainers := job_InitContainers s\<rparr>),
     (''host'', \<lambda>d s. d\<lparr>job_Host := job_Host s\<rparr>),
     (''status'', \<lambda>d s. d\<lparr>job_Status := job_Status s\<rparr>),
     (''statusMessage'', \<lambda>d s. d\<lparr>job_StatusMsg := job_StatusMsg s\<rparr>),
     (''statusCode'', \<lambda>d s. d\<lparr>job_StatusCode := job_StatusCode s\<rparr>),
     (''pid'', \<lambda>d s. d\<lparr>job_Pid := job_Pid s\<rparr>),
     (''exitCode'', \<lambda>d s. d\<lparr>job_ExitCode := job_ExitCode s\<rparr>),
     (''command'', \<lambda>d s. d\<lparr>job_Command := job_Command s\<rparr>),
     (''exe'', \<lambda>d s. d\<lparr>job_Exe := job_Exe s\<rparr>),
     (''stdoutFile'', \<lambda>d s. d\<lparr>job_Stdout := job_Stdout s\<rparr>),
     (''stderrFile'', \<lambda>d s. d\<lparr>job_Stderr := job_Stderr s\<rparr>),
     (''stdin'', \<lambda>d s. d\<lparr>job_Stdin := job_Stdin s\<rparr>),
     (''args'', \<lambda>d s. d\<lparr>job_Args := job_Args s\<rparr>),
     (''environment'', \<lambda>d s. d\<lparr>job_Env := job_Env s\<rparr>),
     (''placementConstraints'', \<lambda>d s. d\<lparr>job_Constraints := job_Constraints s\<rparr>),
     (''lastUpdateTime'', \<lambda>d s. d\<lparr>job_LastUpdated := job_LastUpdated s\<rparr>),
     (''submissionTime'', \<lambda>d s. d\<lparr>job_Submitted := job_Submitted s\<rparr>),
     (''exposedPorts'', \<lambda>d s. d\<lparr>job_Ports := job_Ports s\<rparr>),
     (''mounts'', \<lambda>d s. d\<lparr>job_Mounts := job_Mounts s\<rparr>),
     (''config'', \<lambda>d s. d\<lparr>job_Config := job_Config s\<rparr>),
     (''resourceLimits'', \<lambda>d s. d\<lparr>job_Limits := job_Limits s\<rparr>),
     (''tags'', \<lambda>d s. d\<lparr>job_Tags := job_Tags s\<rparr>),
     (''metadata'', \<lambda>d s. d\<lparr>job_Metadata := job_Metadata s\<rparr>),
     (''resourceProfile'', \<lambda>d s. d\<lparr>job_Profile := job_Profile s\<rparr>),
     (''systemJob'', \<lambda>d s. d\<lparr>job_SystemJob := job_SystemJob s\<rparr>),
     (''instanceId'', \<lambda>d s. d\<lparr>job_InstanceID := job_InstanceID s\<rparr>)]"

fun set_fields :: "string list \<Rightarrow> Job \<Rightarrow> Job \<Rightarrow> Job" where
  "set_fields [] job scrubbed = scrubbed"
| "set_fields (f # fs) job scrubbed =
     set_fields fs job (case map_of jobFieldSetters f of
        None \<Rightarrow> scrubbed | Some set_field \<Rightarrow> set_field scrubbed job)"

definition WithFields :: "Job \<Rightarrow> string list \<Rightarrow> Job" where
  "WithFields job flds =
     (if flds = [] then job
      else set_fields flds job (zero_Job\<lparr>job_ID := job_ID job\<rparr>))"

text \<open>The declarative reading: the job's own value where the field's name was asked for.\<close>

definition project_job :: "string set \<Rightarrow> Job \<Rightarrow> Job" where
  "project_job F j = \<lparr>
     job_ID = job_ID j,
     job_Cluster = (if ''cluster'' \<in> F then job_Cluster j else ''''),
     job_Name = (if ''name'' \<in> F then job_Name j else ''''),
     job_User = (if ''user'' \<in> F then job_User j else ''''),
     job_Group = (if ''group'' \<in> F then job_Group j else ''''),
     job_Queues = (if ''queues'' \<in> F then job_Queues j else []),
     job_WorkDir = (if ''workingDirectory'' \<in> F then job_WorkDir j else ''''),
     job_Container = (if ''container'' \<in> F then job_Container j else None),
     job_InitContainers = (if ''initContainers'' \<in> F then job_InitContainers j else []),
     job_Host = (if ''host'' \<in> F then job_Host j else ''''),
     job_Status = (if ''status'' \<in> F then job_Status j else ''''),
     job_StatusMsg = (if ''statusMessage'' \<in> F then job_StatusMsg j else ''''),
     job_StatusCode = (if ''statusCode'' \<in> F then job_StatusCode j else ''''),
     job_Pid = (if ''pid'' \<in> F then job_Pid j else None),
     job_ExitCode = (if ''exitCode'' \<in> F then job_ExitCode j else None),
     job_Command = (if ''command'' \<in> F then job_Command j else ''''),
     job_Exe = (if ''exe'' \<in> F then job_Exe j else ''''),
     job_Stdout = (if ''stdoutFile'' \<in> F then job_Stdout j else ''''),
     job_Stderr = (if ''stderrFile'' \<in> F then job_Stderr j else ''''),
     job_Stdin = (if ''stdin'' \<in> F then job_Stdin j else ''''),
     job_Args = (if ''args'' \<in> F then job_Args j else []),
     job_Env = (if ''environment'' \<in> F then job_Env j else []),
     job_Constraints = (if ''placementConstraints'' \<in> F then job_Constraints j else []),
     job_LastUpdated = (if ''lastUpdateTime'' \<in> F then job_LastUpdated j else None),
     job_Submitted = (if ''submissionTime'' \<in> F then job_Submitted j else None),
     job_Ports = (if ''exposedPorts'' \<in> F then job_Ports j else []),
     job_Mounts = (if ''mounts'' \<in> F then job_Mounts j else []),
     job_Config = (if ''config'' \<in> F then job_Config j else []),
     job_Limits = (if ''resourceLimits'' \<in> F then job_Limits j else []),
     job_Tags = (if ''tags'' \<in> F then job_Tags j else []),
     job_Metadata = (if ''metadata'' \<in> F then job_Metadata j else []),
     job_Profile = (if ''resourceProfile'' \<in> F then job_Profile j else ''''),
     job_SystemJob = (if ''systemJob'' \<in> F then job_SystemJob j else False),
     job_InstanceID = (if ''instanceId'' \<in> F then job_InstanceID j else ''''),
     job_Misc = []\<rparr>"

lemma project_job_empty: "project_job {} j = zero_Job\<lparr>job_ID := job_ID j\<rparr>"
  by (simp add: project_job_def zero_Job_def)

lemma project_job_unknown:
  assumes "f \<notin> fst ` set jobFieldSetters"
  shows "project_job (insert f F) j = project_job F j"
proof -
  have mem: "(x \<in> insert f F) = (f = x \<or> x \<in> F)" for x by auto
  show ?thesis using assms unfolding jobFieldSetters_def project_job_def mem
    by (simp split del: if_split)
qed

lemma project_job_setter:
  "(f, st) \<in> set jobFieldSetters \<Longrightarrow> st (project_job F j) j = project_job (insert f F) j"
  unfolding jobFieldSetters_def list.set insert_iff empty_iff prod.inject
  by (elim disjE conjE; simp add: project_job_def split del: if_split)

lemma project_job_step:
  "(case map_of jobFieldSetters f of None \<Rightarrow> project_job F j
      | Some st \<Rightarrow> st (project_job F j) j) = project_job (insert f F) j"
  by (auto simp: project_job_unknown map_of_eq_None_iff project_job_setter
      split: option.split dest!: map_of_SomeD)

lemma set_fields_project: "set_fields fs j (project_job F j) = project_job (F \<union> set fs) j"
  by (induction fs arbitrary: F) (simp_all add: project_job_step)

lemma WithFields_nonempty: "flds \<noteq> [] \<Longrightarrow> WithFields job flds = project_job (set flds) job"
  by (simp add: WithFields_def project_job_empty [symmetric] set_fields_project)

text \<open>
  \<^verbatim>\<open>Job.WithFields\<close> is projection: with no field names it returns the job itself, otherwise
  the job whose ID is kept and each of whose other wire fields is the job's own exactly when
  its JSON name is among those given (case-sensitively, unknown names and repetitions without
  effect) and zero when it is not; the plugin-local \<^verbatim>\<open>Misc\<close> is never copied.
\<close>

theorem WithFields_correct:
  "WithFields job flds = (if flds = [] then job else project_job (set flds) job)"
  by (simp add: WithFields_nonempty) (simp add: WithFields_def)


section \<open>Operations\<close>

type_synonym JobOperation = int

definition OperationSuspend :: JobOperation where [api_defs]: "OperationSuspend = 0"
definition OperationResume :: JobOperation where [api_defs]: "OperationResume = 1"
definition OperationStop :: JobOperation where [api_defs]: "OperationStop = 2"
definition OperationKill :: JobOperation where [api_defs]: "OperationKill = 3"
definition OperationCancel :: JobOperation where [api_defs]: "OperationCancel = 4"

definition ValidForStatus :: "JobOperation \<Rightarrow> string" where
  "ValidForStatus op =
     (if op = OperationSuspend \<or> op = OperationStop \<or> op = OperationKill then StatusRunning
      else if op = OperationResume then StatusSuspended
      else if op = OperationCancel then StatusPending
      else StatusPending)"

definition JobOperation_String :: "JobOperation \<Rightarrow> string" where
  "JobOperation_String op =
     (if op = OperationSuspend then ''Suspend''
      else if op = OperationResume then ''Resume''
      else if op = OperationStop then ''Stop''
      else if op = OperationKill then ''Kill''
      else if op = OperationCancel then ''Cancel''
      else ''Cancel'')"

record ControlJobOptions =
  cjo_StatusMessage :: string
  cjo_StatusCode :: string

lemma ValidForStatus_active: "\<not> TerminalStatus (ValidForStatus op)"
  by (simp add: ValidForStatus_def)

end
