(* ===== verification/Api_Flags.thy ===== *)
theory Api_Flags
  imports Api_Jobs
begin

text \<open>
  Text forms of the package \<^verbatim>\<open>api\<close> (\<^verbatim>\<open>src/api/types.go\<close>): the \<^verbatim>\<open>String\<close> and \<^verbatim>\<open>Set\<close> methods by
  which \<^verbatim>\<open>Env\<close>, \<^verbatim>\<open>Mount\<close> and \<^verbatim>\<open>Port\<close> implement Go's \<^verbatim>\<open>flag.Value\<close>. The locale \<open>flag_value\<close> states
  what printing and parsing promise each other; each type is an interpretation of it.
  \<^verbatim>\<open>Set\<close> returns the new value or the error; on an error the receiver keeps its value.
\<close>

datatype parse_error =
    ErrInvalidMountSpec string
  | ErrInvalidMountPath string
  | ErrInvalidPortSpec string
  | ErrInvalidPort string
  | ErrInvalidEnvSpec string


section \<open>The interface\<close>

text \<open>
  Printing an accepted value and parsing the text gives the value's canonical form; whatever
  parses is accepted; canonical forms are accepted and are their own canonical form.
\<close>

locale flag_value =
  fixes print :: "'a option \<Rightarrow> string"
    and parse :: "string \<Rightarrow> parse_error + 'a"
    and accepted :: "'a \<Rightarrow> bool"
    and canonical :: "'a \<Rightarrow> 'a"
  assumes parse_print: "accepted x \<Longrightarrow> parse (print (Some x)) = Inr (canonical x)"
    and parse_accepted: "parse s = Inr x \<Longrightarrow> accepted x"
    and canonical_idem: "canonical (canonical x) = canonical x"
begin

lemma reparse: "parse s = Inr x \<Longrightarrow> parse (print (Some x)) = Inr (canonical x)"
  by (simp add: parse_print parse_accepted)

lemma canonical_accepted: "accepted x \<Longrightarrow> accepted (canonical x)"
  using parse_print parse_accepted by blast

lemma print_inj:
  "accepted x \<Longrightarrow> accepted y \<Longrightarrow> print (Some x) = print (Some y) \<Longrightarrow> canonical x = canonical y"
  by (metis parse_print sum.inject(2))

lemma print_parse_stable:
  "parse s = Inr x \<Longrightarrow> \<exists>y. parse (print (Some x)) = Inr y \<and> parse (print (Some y)) = Inr y"
  using reparse parse_print canonical_accepted parse_accepted canonical_idem by metis

end


section \<open>Environment variables\<close>

definition Env_String :: "Env option \<Rightarrow> string" where
  "Env_String e = (case e of None \<Rightarrow> '''' | Some v \<Rightarrow> env_Name v @ ''='' @ env_Value v)"

definition Env_Set :: "string \<Rightarrow> parse_error + Env" where
  "Env_Set s = (case split_on (CHR ''='') s of
     [n, v] \<Rightarrow> Inr \<lparr>env_Name = n, env_Value = v\<rparr>
   | _ \<Rightarrow> Inl (ErrInvalidEnvSpec s))"

definition env_printable :: "Env \<Rightarrow> bool" where
  "env_printable e \<longleftrightarrow> CHR ''='' \<notin> set (env_Name e) \<and> CHR ''='' \<notin> set (env_Value e)"

lemma Env_Set_Inr:
  "Env_Set s = Inr e \<longleftrightarrow> s = Env_String (Some e) \<and> env_printable e"
proof -
  have "Env_Set s = Inr e \<longleftrightarrow> split_on (CHR ''='') s = [env_Name e, env_Value e]"
    by (auto simp: Env_Set_def split: list.splits)
  then show ?thesis by (auto simp: split_on_eq_pair Env_String_def env_printable_def)
qed

interpretation env_flag: flag_value Env_String Env_Set env_printable "\<lambda>e. e"
  by unfold_locales (auto simp: Env_Set_Inr)

text \<open>
  An environment variable printed by \<^verbatim>\<open>Env.String\<close> is read back unchanged by \<^verbatim>\<open>Env.Set\<close>
  exactly when neither its name nor its value contains an equals sign; otherwise \<^verbatim>\<open>Set\<close> rejects
  the text its own \<^verbatim>\<open>String\<close> produced.
\<close>

theorem Env_roundtrip:
  "Env_Set (Env_String (Some e)) =
     (if env_printable e then Inr e else Inl (ErrInvalidEnvSpec (Env_String (Some e))))"
proof (cases "env_printable e")
  case True
  then show ?thesis by (simp add: env_flag.parse_print)
next
  case False
  then have "count_list (Env_String (Some e)) (CHR ''='') \<noteq> 1"
    by (auto simp: Env_String_def env_printable_def count_list_0_iff)
  then have "length (split_on (CHR ''='') (Env_String (Some e))) \<noteq> 2"
    by (simp add: length_split_on)
  with False show ?thesis by (auto simp: Env_Set_def split: list.splits)
qed


section \<open>Mounts\<close>

definition host_mount :: "string \<Rightarrow> string \<Rightarrow> bool \<Rightarrow> Mount" where
  "host_mount src dst ro = \<lparr>mnt_Path = dst, mnt_Name = '''', mnt_ReadOnly = ro,
     mnt_Source = \<lparr>ms_Type = MountTypeHost, ms_Source = SrcHost \<lparr>hm_Path = src\<rparr>\<rparr>\<rparr>"

definition Mount_String :: "Mount option \<Rightarrow> string" where
  "Mount_String m = (case m of None \<Rightarrow> '''' | Some v \<Rightarrow>
     if ms_Type (mnt_Source v) \<noteq> MountTypeHost then ''''
     else (let opt = (if mnt_ReadOnly v then ''ro'' else ''rw'') in
       case ms_Source (mnt_Source v) of
         SrcHost host \<Rightarrow> hm_Path host @ '':'' @ mnt_Path v @ '':'' @ opt
       | SrcRaw _ \<Rightarrow> ''''))"

text \<open>The switch on the number of parts: the destination and the read-only flag, or an error.\<close>

definition mount_parts :: "string \<Rightarrow> string list \<Rightarrow> parse_error + string \<times> bool" where
  "mount_parts s spec = (case spec of
     [src] \<Rightarrow> Inr (src, False)
   | [src, dst] \<Rightarrow> Inr (dst, False)
   | [src, dst, opt] \<Rightarrow>
       (if opt = ''rw'' then Inr (dst, False)
        else if opt = ''ro'' then Inr (dst, True)
        else Inl (ErrInvalidMountSpec s))
   | _ \<Rightarrow> Inl (ErrInvalidMountSpec s))"

definition Mount_Set :: "string \<Rightarrow> parse_error + Mount" where
  "Mount_Set s = (let spec = split_on (CHR '':'') s; src = hd spec in
     if \<not> path_IsAbs src then Inl (ErrInvalidMountPath src)
     else andThen (mount_parts s spec) (\<lambda>(dst, readonly).
       if \<not> path_IsAbs dst then Inl (ErrInvalidMountPath dst)
       else Inr (host_mount src dst readonly)))"

definition mount_path_ok :: "string \<Rightarrow> bool" where
  "mount_path_ok p \<longleftrightarrow> path_IsAbs p \<and> CHR '':'' \<notin> set p"

definition mount_printable :: "Mount \<Rightarrow> bool" where
  "mount_printable m \<longleftrightarrow> (\<exists>src dst ro. m = host_mount src dst ro \<and>
     mount_path_ok src \<and> mount_path_ok dst)"

lemma Mount_Set_printed:
  assumes "mount_path_ok src" "mount_path_ok dst"
  shows "Mount_Set (Mount_String (Some (host_mount src dst ro))) = Inr (host_mount src dst ro)"
proof -
  have "split_on (CHR '':'') (Mount_String (Some (host_mount src dst ro)))
      = [src, dst, if ro then ''ro'' else ''rw'']"
    using assms by (auto simp: Mount_String_def host_mount_def mount_path_ok_def split_on_at)
  then show ?thesis using assms
    by (auto simp: Mount_Set_def mount_parts_def mount_path_ok_def)
qed

lemma Mount_Set_Inr:
  assumes "Mount_Set s = Inr m"
  shows "mount_printable m"
proof -
  obtain src rest where spec: "split_on (CHR '':'') s = src # rest"
    using split_on_ne [of "CHR '':''" s] by (cases "split_on (CHR '':'') s") auto
  have free: "p \<in> set (src # rest) \<Longrightarrow> CHR '':'' \<notin> set p" for p
    using split_on_parts_free [of p "CHR '':''" s] spec by simp
  from assms spec obtain dst ro where
    m: "m = host_mount src dst ro" "path_IsAbs src" "path_IsAbs dst"
    and p: "mount_parts s (src # rest) = Inr (dst, ro)"
    by (auto simp: Mount_Set_def Let_def split: if_splits)
  from p have "dst \<in> set (src # rest)"
    by (auto simp: mount_parts_def split: list.splits if_splits)
  with m free show ?thesis by (auto simp: mount_printable_def mount_path_ok_def)
qed

interpretation mount_flag: flag_value Mount_String Mount_Set mount_printable "\<lambda>m. m"
proof unfold_locales
  fix m assume "mount_printable m"
  then show "Mount_Set (Mount_String (Some m)) = Inr m"
    by (auto simp: mount_printable_def Mount_Set_printed)
qed (auto intro: Mount_Set_Inr)

text \<open>
  Whatever text \<^verbatim>\<open>Mount.Set\<close> accepts (\<^verbatim>\<open>src\<close>, \<^verbatim>\<open>src:dst\<close> or \<^verbatim>\<open>src:dst:ro|rw\<close>), the mount it
  yields is a host mount with absolute, colon-free source and destination, and \<^verbatim>\<open>Mount.String\<close>
  prints it as a full spec that \<^verbatim>\<open>Mount.Set\<close> reads back to the very same mount.
\<close>

theorem Mount_reparse:
  assumes "Mount_Set s = Inr m"
  shows "mount_printable m \<and> Mount_Set (Mount_String (Some m)) = Inr m"
  using assms mount_flag.reparse Mount_Set_Inr by blast

theorem Mount_reparse_witness:
  "Mount_Set ''/mnt/data:/home:ro'' = Inr (host_mount ''/mnt/data'' ''/home'' True) \<and>
   mount_printable (host_mount ''/mnt/data'' ''/home'' True) \<and>
   Mount_Set (Mount_String (Some (host_mount ''/mnt/data'' ''/home'' True)))
     = Inr (host_mount ''/mnt/data'' ''/home'' True)"
proof -
  have set: "Mount_Set ''/mnt/data:/home:ro'' = Inr (host_mount ''/mnt/data'' ''/home'' True)"
    by (simp add: Mount_Set_def mount_parts_def path_IsAbs_def)
  show ?thesis using set Mount_reparse [OF set] by simp
qed


section \<open>Ports\<close>

definition Port_String :: "Port option \<Rightarrow> string" where
  "Port_String p = (case p of None \<Rightarrow> '''' | Some v \<Rightarrow>
     let proto = (if port_Protocol v = '''' then ''tcp'' else port_Protocol v);
         published = (case port_PublishedPort v of None \<Rightarrow> port_TargetPort v | Some q \<Rightarrow> q)
     in int_dec published @ '':'' @ int_dec (port_TargetPort v) @ ''/'' @ proto)"

definition port_number :: "string \<Rightarrow> parse_error + int" where
  "port_number s = (case Atoi s of None \<Rightarrow> Inl (ErrInvalidPort s) | Some i \<Rightarrow> Inr i)"

definition Port_Set :: "string \<Rightarrow> parse_error + Port" where
  "Port_Set s = (let spec = splitN2 (CHR ''/'') s;
       proto = (if length spec = 2 then spec ! 1 else ''tcp'');
       parts = split_on (CHR '':'') (hd spec)
     in if length parts > 2 then Inl (ErrInvalidPortSpec s)
     else andThen (port_number (hd parts)) (\<lambda>port.
       if length parts = 2 then
         andThen (port_number (parts ! 1)) (\<lambda>target.
           Inr \<lparr>port_TargetPort = target,
             port_PublishedPort = (if target \<noteq> port then Some port else None),
             port_Protocol = proto\<rparr>)
       else Inr \<lparr>port_TargetPort = port, port_PublishedPort = None, port_Protocol = proto\<rparr>))"

definition port_in_range :: "Port \<Rightarrow> bool" where
  "port_in_range p \<longleftrightarrow> in_int64 (port_TargetPort p) \<and>
     (\<forall>q. port_PublishedPort p = Some q \<longrightarrow> in_int64 q)"

text \<open>The canonical port: no published port equal to the target, the default protocol named.\<close>

definition port_canonical :: "Port \<Rightarrow> Port" where
  "port_canonical p = p\<lparr>
     port_PublishedPort := (if port_PublishedPort p = Some (port_TargetPort p) then None
        else port_PublishedPort p),
     port_Protocol := (if port_Protocol p = '''' then ''tcp'' else port_Protocol p)\<rparr>"

lemma Port_Set_printed:
  assumes "in_int64 a" "in_int64 b"
  shows "Port_Set (int_dec a @ '':'' @ int_dec b @ ''/'' @ proto) =
     Inr \<lparr>port_TargetPort = b, port_PublishedPort = (if b \<noteq> a then Some a else None),
       port_Protocol = proto\<rparr>"
proof -
  have slash: "splitN2 (CHR ''/'') (int_dec a @ '':'' @ int_dec b @ ''/'' @ proto)
      = [int_dec a @ '':'' @ int_dec b, proto]"
    using splitN2_at [of "CHR ''/''" "int_dec a @ '':'' @ int_dec b" proto]
    by (simp add: int_dec_free)
  have colon: "split_on (CHR '':'') (int_dec a @ '':'' @ int_dec b) = [int_dec a, int_dec b]"
    by (simp add: split_on_eq_pair int_dec_free)
  show ?thesis using assms unfolding Port_Set_def slash
    by (simp add: colon [simplified] port_number_def Atoi_int_dec)
qed

lemma Port_roundtrip_canonical:
  "port_in_range p \<Longrightarrow> Port_Set (Port_String (Some p)) = Inr (port_canonical p)"
  by (cases "port_PublishedPort p")
     (auto simp: Port_String_def port_in_range_def Let_def Port_Set_printed [simplified]
        port_canonical_def)

lemma port_number_range: "port_number s = Inr i \<Longrightarrow> in_int64 i"
  by (auto simp: port_number_def Atoi_range split: option.splits)

lemma Port_Set_in_range: "Port_Set s = Inr p \<Longrightarrow> port_in_range p"
  by (auto simp: Port_Set_def Let_def port_in_range_def port_number_range split: if_splits)

interpretation port_flag: flag_value Port_String Port_Set port_in_range port_canonical
  by unfold_locales
     (auto simp: Port_roundtrip_canonical port_canonical_def intro: Port_Set_in_range)

text \<open>
  A port whose numbers fit Go's \<^verbatim>\<open>int\<close>, printed by \<^verbatim>\<open>Port.String\<close> and read by \<^verbatim>\<open>Port.Set\<close>,
  comes back in canonical form: the same target and published ports (a published port equal
  to the target is dropped) and the same protocol, an empty one replaced by \<^verbatim>\<open>tcp\<close>.
\<close>

theorem Port_roundtrip:
  assumes "port_in_range p"
  shows "Port_Set (Port_String (Some p)) = Inr (port_canonical p)"
  using assms by (rule port_flag.parse_print)

theorem Port_roundtrip_witness:
  "port_in_range \<lparr>port_TargetPort = 80, port_PublishedPort = Some 8080, port_Protocol = ''''\<rparr> \<and>
   Port_Set (Port_String (Some
     \<lparr>port_TargetPort = 80, port_PublishedPort = Some 8080, port_Protocol = ''''\<rparr>)) =
   Inr \<lparr>port_TargetPort = 80, port_PublishedPort = Some 8080, port_Protocol = ''tcp''\<rparr>"
proof -
  have r: "port_in_range \<lparr>port_TargetPort = 80, port_PublishedPort = Some 8080, port_Protocol = ''''\<rparr>"
    by (simp add: port_in_range_def in_int64_def)
  show ?thesis using r Port_roundtrip [OF r] by (simp add: port_canonical_def)
qed

end
