(* ===== verification/Wire_Requests.thy ===== *)
theory Wire_Requests
  imports Api_Jobs
begin

text \<open>
  Requests of the wire protocol (\<^verbatim>\<open>src/internal/protocol/rpc.go\<close>, first half): the request
  structs with their embeddings as record extension, decoding of every request from a JSON
  document, and \<^verbatim>\<open>RequestFromJSON\<close> with its dispatch on the message type.

  Three functions of the Go library are parameters, collected in \<open>json_env\<close>: the reading of a
  byte string as a JSON document, of a string as an RFC 3339 instant and of a string as an IP
  address (each may reject its input). The lemmas hold for any choice of them.
\<close>

record json_env =
  je_parse :: "string \<Rightarrow> json option"
  je_time :: "string \<Rightarrow> instant option"
  je_addr :: "string \<Rightarrow> string option"


section \<open>Request structs\<close>

record BaseRequest =
  br_MessageType :: "int option"
  br_RequestID :: "u64 option"

record BootstrapRequest = BaseRequest +
  bq_Version :: Version

record BaseUserRequest = BaseRequest +
  bu_Username :: string
  bu_ReqUsername :: string

record SubmitJobRequest = BaseUserRequest +
  sj_Job :: "Job option"

record BaseJobRequest = BaseUserRequest +
  bj_JobID :: JobID
  bj_EncodedJobID :: string

record JobStateRequest = BaseJobRequest +
  js_Filter :: JobFilter

record BaseJobStreamRequest = BaseJobRequest +
  bs_Cancel :: bool

record ControlJobRequest = BaseJobRequest +
  cj_Operation :: JobOperation
  cj_StatusMessage :: string
  cj_StatusCode :: string

record JobOutputRequest = BaseJobStreamRequest +
  jo_Output :: JobOutput

record SetLoadBalancerNodesRequest = BaseUserRequest +
  sn_Nodes :: "Node list"

text \<open>The concrete request types behind the interface \<^verbatim>\<open>Request\<close>.\<close>

datatype Request =
    RHeartbeat BaseRequest
  | RBootstrap BootstrapRequest
  | RSubmitJob SubmitJobRequest
  | RJobState JobStateRequest
  | RJobStatusStream BaseJobStreamRequest
  | RControlJob ControlJobRequest
  | RJobOutput JobOutputRequest
  | RJobResourceUtil BaseJobStreamRequest
  | RJobNetwork BaseJobRequest
  | RClusterInfo BaseUserRequest
  | RSetLoadBalancerNodes SetLoadBalancerNodesRequest
  | RConfigReload BaseUserRequest

fun req_base :: "Request \<Rightarrow> BaseRequest" where
  "req_base (RHeartbeat r) = r"
| "req_base (RBootstrap r) = BaseRequest.truncate r"
| "req_base (RSubmitJob r) = BaseRequest.truncate r"
| "req_base (RJobState r) = BaseRequest.truncate r"
| "req_base (RJobStatusStream r) = BaseRequest.truncate r"
| "req_base (RControlJob r) = BaseRequest.truncate r"
| "req_base (RJobOutput r) = BaseRequest.truncate r"
| "req_base (RJobResourceUtil r) = BaseRequest.truncate r"
| "req_base (RJobNetwork r) = BaseRequest.truncate r"
| "req_base (RClusterInfo r) = BaseRequest.truncate r"
| "req_base (RSetLoadBalancerNodes r) = BaseRequest.truncate r"
| "req_base (RConfigReload r) = BaseRequest.truncate r"

text \<open>\<^verbatim>\<open>Type\<close> and \<^verbatim>\<open>ID\<close> dereference the decoded pointers and panic when they are nil.\<close>

definition Request_Type :: "Request \<Rightarrow> int go" where
  "Request_Type r = deref (br_MessageType (req_base r))"

definition Request_ID :: "Request \<Rightarrow> u64 go" where
  "Request_ID r = deref (br_RequestID (req_base r))"

definition BaseRequest_Valid :: "BaseRequest \<Rightarrow> bool" where
  "BaseRequest_Valid r \<longleftrightarrow> br_MessageType r \<noteq> None \<and> br_RequestID r \<noteq> None"


section \<open>Request types\<close>

definition requestHeartbeat :: int where [wire_defs]: "requestHeartbeat = 0"
definition requestBootstrap :: int where [wire_defs]: "requestBootstrap = 1"
definition requestSubmitJob :: int where [wire_defs]: "requestSubmitJob = 2"
definition requestJob :: int where [wire_defs]: "requestJob = 3"
definition requestJobStatus :: int where [wire_defs]: "requestJobStatus = 4"
definition requestControlJob :: int where [wire_defs]: "requestControlJob = 5"
definition requestJobOutput :: int where [wire_defs]: "requestJobOutput = 6"
definition requestJobResourceUtil :: int where [wire_defs]: "requestJobResourceUtil = 7"
definition requestJobNetwork :: int where [wire_defs]: "requestJobNetwork = 8"
definition requestClusterInfo :: int where [wire_defs]: "requestClusterInfo = 9"
definition requestSetLoadBalancerNodes :: int where
  [wire_defs]: "requestSetLoadBalancerNodes = 201"
definition requestConfigReload :: int where [wire_defs]: "requestConfigReload = 202"

fun request_type_of :: "Request \<Rightarrow> int" where
  "request_type_of (RHeartbeat _) = requestHeartbeat"
| "request_type_of (RBootstrap _) = requestBootstrap"
| "request_type_of (RSubmitJob _) = requestSubmitJob"
| "request_type_of (RJobState _) = requestJob"
| "request_type_of (RJobStatusStream _) = requestJobStatus"
| "request_type_of (RControlJob _) = requestControlJob"
| "request_type_of (RJobOutput _) = requestJobOutput"
| "request_type_of (RJobResourceUtil _) = requestJobResourceUtil"
| "request_type_of (RJobNetwork _) = requestJobNetwork"
| "request_type_of (RClusterInfo _) = requestClusterInfo"
| "request_type_of (RSetLoadBalancerNodes _) = requestSetLoadBalancerNodes"
| "request_type_of (RConfigReload _) = requestConfigReload"


section \<open>Decoding the parts of a job\<close>

text \<open>The decoder of a string type and of an instant.\<close>

definition dec_JobID :: "JobID decoder" where
  "dec_JobID v old = andThen (dec_string v (id_str old)) (\<lambda>s. Inr (JobID s))"

fun dec_time :: "json_env \<Rightarrow> instant decoder" where
  "dec_time env (JStr s) old = (case je_time env s of None \<Rightarrow> Inl BadText | Some t \<Rightarrow> Inr t)"
| "dec_time env JNull old = Inr old"
| "dec_time env _ old = Inl TypeMismatch"

fun dec_addr :: "json_env \<Rightarrow> string decoder" where
  "dec_addr env (JStr s) old = (case je_addr env s of None \<Rightarrow> Inl BadText | Some a \<Rightarrow> Inr a)"
| "dec_addr env JNull old = Inr old"
| "dec_addr env _ old = Inl TypeMismatch"

definition zero_Version :: Version where
  "zero_Version = \<lparr>ver_Major = 0, ver_Minor = 0, ver_Patch = 0, ver_Build = 0, ver_Revision = ''''\<rparr>"

definition Version_fields :: "Version struct_fields" where
  "Version_fields = [
     (''major'', into dec_int ver_Major (\<lambda>x. ver_Major_update (\<lambda>_. x))),
     (''minor'', into dec_int ver_Minor (\<lambda>x. ver_Minor_update (\<lambda>_. x))),
     (''patch'', into dec_int ver_Patch (\<lambda>x. ver_Patch_update (\<lambda>_. x))),
     (''build'', into dec_int ver_Build (\<lambda>x. ver_Build_update (\<lambda>_. x))),
     (''revision'', into dec_string ver_Revision (\<lambda>x. ver_Revision_update (\<lambda>_. x)))]"

definition zero_Env :: Env where
  "zero_Env = \<lparr>env_Name = '''', env_Value = ''''\<rparr>"

definition Env_fields :: "Env struct_fields" where
  "Env_fields = [
     (''name'', into dec_string env_Name (\<lambda>x. env_Name_update (\<lambda>_. x))),
     (''value'', into dec_string env_Value (\<lambda>x. env_Value_update (\<lambda>_. x)))]"

definition zero_Container :: Container where
  "zero_Container = \<lparr>cont_Image = '''', cont_RunAsUser = None, cont_RunAsGroup = None,
     cont_SupplementalGroups = []\<rparr>"

definition Container_fields :: "Container struct_fields" where
  "Container_fields = [
     (''image'', into dec_string cont_Image (\<lambda>x. cont_Image_update (\<lambda>_. x))),
     (''runAsUserId'', into (dec_ptr dec_int 0) cont_RunAsUser (\<lambda>x. cont_RunAsUser_update (\<lambda>_. x))),
     (''runAsGroupId'', into (dec_ptr dec_int 0) cont_RunAsGroup (\<lambda>x. cont_RunAsGroup_update (\<lambda>_. x))),
     (''supplementalGroupIds'', into (dec_list dec_int 0) cont_SupplementalGroups
        (\<lambda>x. cont_SupplementalGroups_update (\<lambda>_. x)))]"

definition HostMount_fields :: "HostMount struct_fields" where
  "HostMount_fields = [(''path'', into dec_string hm_Path (\<lambda>x. hm_Path_update (\<lambda>_. x)))]"

text \<open>
  \<^verbatim>\<open>MountSource.UnmarshalJSON\<close>: a raw struct is decoded first; a host mount's source is decoded
  again as a \<^verbatim>\<open>HostMount\<close> (a missing one is an error), any other source is kept as it is.
\<close>

record rawMountSource =
  raw_Type :: string
  raw_Source :: "json option"

definition rawMountSource_fields :: "rawMountSource struct_fields" where
  "rawMountSource_fields = [
     (''type'', into dec_string raw_Type (\<lambda>x. raw_Type_update (\<lambda>_. x))),
     (''source'', \<lambda>v r. Inr (r\<lparr>raw_Source := Some v\<rparr>))]"

definition MountSource_UnmarshalJSON :: "MountSource decoder" where
  "MountSource_UnmarshalJSON v old =
     andThen (dec_struct rawMountSource_fields v \<lparr>raw_Type = '''', raw_Source = None\<rparr>) (\<lambda>raw.
       if raw_Type raw = MountTypeHost then
         (case raw_Source raw of
            None \<Rightarrow> Inl BadText
          | Some src \<Rightarrow> andThen (dec_struct HostMount_fields src \<lparr>hm_Path = ''''\<rparr>) (\<lambda>h.
              Inr \<lparr>ms_Type = raw_Type raw, ms_Source = SrcHost h\<rparr>))
       else Inr \<lparr>ms_Type = raw_Type raw, ms_Source = SrcRaw (raw_Source raw)\<rparr>)"

definition zero_Mount :: Mount where
  "zero_Mount = \<lparr>mnt_Path = '''', mnt_Name = '''', mnt_ReadOnly = False,
     mnt_Source = \<lparr>ms_Type = '''', ms_Source = SrcRaw None\<rparr>\<rparr>"

definition Mount_fields :: "Mount struct_fields" where
  "Mount_fields = [
     (''mountPath'', into dec_string mnt_Path (\<lambda>x. mnt_Path_update (\<lambda>_. x))),
     (''name'', into dec_string mnt_Name (\<lambda>x. mnt_Name_update (\<lambda>_. x))),
     (''readOnly'', into dec_bool mnt_ReadOnly (\<lambda>x. mnt_ReadOnly_update (\<lambda>_. x))),
     (''mountSource'', into MountSource_UnmarshalJSON mnt_Source (\<lambda>x. mnt_Source_update (\<lambda>_. x)))]"

definition zero_InitContainer :: InitContainer where
  "zero_InitContainer = \<lparr>ic_Name = '''', ic_Image = '''', ic_Command = '''', ic_Exe = '''',
     ic_Args = [], ic_Mounts = [], ic_Env = []\<rparr>"

definition InitContainer_fields :: "InitContainer struct_fields" where
  "InitContainer_fields = [
     (''name'', into dec_string ic_Name (\<lambda>x. ic_Name_update (\<lambda>_. x))),
     (''image'', into dec_string ic_Image (\<lambda>x. ic_Image_update (\<lambda>_. x))),
     (''command'', into dec_string ic_Command (\<lambda>x. ic_Command_update (\<lambda>_. x))),
     (''exe'', into dec_string ic_Exe (\<lambda>x. ic_Exe_update (\<lambda>_. x))),
     (''args'', into (dec_list dec_string '''') ic_Args (\<lambda>x. ic_Args_update (\<lambda>_. x))),
     (''mounts'', into (dec_list (dec_struct Mount_fields) zero_Mount) ic_Mounts
        (\<lambda>x. ic_Mounts_update (\<lambda>_. x))),
     (''environment'', into (dec_list (dec_struct Env_fields) zero_Env) ic_Env
        (\<lambda>x. ic_Env_update (\<lambda>_. x)))]"

definition PlacementConstraint_fields :: "PlacementConstraint struct_fields" where
  "PlacementConstraint_fields = [
     (''name'', into dec_string pc_Name (\<lambda>x. pc_Name_update (\<lambda>_. x))),
     (''value'', into dec_string pc_Value (\<lambda>x. pc_Value_update (\<lambda>_. x))),
     (''defaultValue'', into dec_string pc_Default (\<lambda>x. pc_Default_update (\<lambda>_. x)))]"

definition Port_fields :: "Port struct_fields" where
  "Port_fields = [
     (''targetPort'', into dec_int port_TargetPort (\<lambda>x. port_TargetPort_update (\<lambda>_. x))),
     (''publishedPort'', into (dec_ptr dec_int 0) port_PublishedPort
        (\<lambda>x. port_PublishedPort_update (\<lambda>_. x))),
     (''protocol'', into dec_string port_Protocol (\<lambda>x. port_Protocol_update (\<lambda>_. x)))]"

definition JobConfig_fields :: "JobConfig struct_fields" where
  "JobConfig_fields = [
     (''name'', into dec_string jc_Name (\<lambda>x. jc_Name_update (\<lambda>_. x))),
     (''valueType'', into dec_string jc_Type (\<lambda>x. jc_Type_update (\<lambda>_. x))),
     (''value'', into dec_string jc_Value (\<lambda>x. jc_Value_update (\<lambda>_. x)))]"

definition ResourceLimit_fields :: "ResourceLimit struct_fields" where
  "ResourceLimit_fields = [
     (''type'', into dec_string rl_Type (\<lambda>x. rl_Type_update (\<lambda>_. x))),
     (''value'', into dec_string rl_Value (\<lambda>x. rl_Value_update (\<lambda>_. x))),
     (''defaultValue'', into dec_string rl_Default (\<lambda>x. rl_Default_update (\<lambda>_. x))),
     (''maxValue'', into dec_string rl_Max (\<lambda>x. rl_Max_update (\<lambda>_. x)))]"

definition Node_fields :: "json_env \<Rightarrow> Node struct_fields" where
  "Node_fields env = [
     (''host'', into dec_string node_Host (\<lambda>x. node_Host_update (\<lambda>_. x))),
     (''ipv4'', into (dec_addr env) node_IP (\<lambda>x. node_IP_update (\<lambda>_. x))),
     (''port'', into dec_string node_Port (\<lambda>x. node_Port_update (\<lambda>_. x))),
     (''lastSeen'', into (dec_time env) node_LastSeen (\<lambda>x. node_LastSeen_update (\<lambda>_. x))),
     (''status'', into dec_string node_Status (\<lambda>x. node_Status_update (\<lambda>_. x)))]"

definition Job_fields :: "json_env \<Rightarrow> Job struct_fields" where
  "Job_fields env = [
     (''id'', into dec_JobID job_ID (\<lambda>x. job_ID_update (\<lambda>_. x))),
     (''cluster'', into dec_string job_Cluster (\<lambda>x. job_Cluster_update (\<lambda>_. x))),
     (''name'', into dec_string job_Name (\<lambda>x. job_Name_update (\<lambda>_. x))),
     (''user'', into dec_string job_User (\<lambda>x. job_User_update (\<lambda>_. x))),
     (''group'', into dec_string job_Group (\<lambda>x. job_Group_update (\<lambda>_. x))),
     (''queues'', into (dec_list dec_string '''') job_Queues (\<lambda>x. job_Queues_update (\<lambda>_. x))),
     (''workingDirectory'', into dec_string job_WorkDir (\<lambda>x. job_WorkDir_update (\<lambda>_. x))),
     (''container'', into (dec_ptr (dec_struct Container_fields) zero_Container) job_Container
        (\<lambda>x. job_Container_update (\<lambda>_. x))),
     (''initContainers'', into (dec_list (dec_struct InitContainer_fields) zero_InitContainer)
        job_InitContainers (\<lambda>x. job_InitContainers_update (\<lambda>_. x))),
     (''host'', into dec_string job_Host (\<lambda>x. job_Host_update (\<lambda>_. x))),
     (''status'', into dec_string job_Status (\<lambda>x. job_Status_update (\<lambda>_. x))),
     (''statusMessage'', into dec_string job_StatusMsg (\<lambda>x. job_StatusMsg_update (\<lambda>_. x))),
     (''statusCode'', into dec_string job_StatusCode (\<lambda>x. job_StatusCode_update (\<lambda>_. x))),
     (''pid'', into (dec_ptr dec_int 0) job_Pid (\<lambda>x. job_Pid_update (\<lambda>_. x))),
     (''exitCode'', into (dec_ptr dec_int 0) job_ExitCode (\<lambda>x. job_ExitCode_update (\<lambda>_. x))),
     (''command'', into dec_string job_Command (\<lambda>x. job_Command_update (\<lambda>_. x))),
     (''exe'', into dec_string job_Exe (\<lambda>x. job_Exe_update (\<lambda>_. x))),
     (''stdoutFile'', into dec_string job_Stdout (\<lambda>x. job_Stdout_update (\<lambda>_. x))),
     (''stderrFile'', into dec_string job_Stderr (\<lambda>x. job_Stderr_update (\<lambda>_. x))),
     (''stdin'', into dec_string job_Stdin (\<lambda>x. job_Stdin_update (\<lambda>_. x))),
     (''args'', into (dec_list dec_string '''') job_Args (\<lambda>x. job_Args_update (\<lambda>_. x))),
     (''environment'', into (dec_list (dec_struct Env_fields) zero_Env) job_Env
        (\<lambda>x. job_Env_update (\<lambda>_. x))),
     (''placementConstraints'', into (dec_list (dec_struct PlacementConstraint_fields)
        \<lparr>pc_Name = '''', pc_Value = '''', pc_Default = ''''\<rparr>) job_Constraints
        (\<lambda>x. job_Constraints_update (\<lambda>_. x))),
     (''lastUpdateTime'', into (dec_ptr (dec_time env) 0) job_LastUpdated
        (\<lambda>x. job_LastUpdated_update (\<lambda>_. x))),
     (''submissionTime'', into (dec_ptr (dec_time env) 0) job_Submitted
        (\<lambda>x. job_Submitted_update (\<lambda>_. x))),
     (''exposedPorts'', into (dec_list (dec_struct Port_fields)
        \<lparr>port_TargetPort = 0, port_PublishedPort = None, port_Protocol = ''''\<rparr>) job_Ports
        (\<lambda>x. job_Ports_update (\<lambda>_. x))),
     (''mounts'', into (dec_list (dec_struct Mount_fields) zero_Mount) job_Mounts
        (\<lambda>x. job_Mounts_update (\<lambda>_. x))),
     (''config'', into (dec_list (dec_struct JobConfig_fields)
        \<lparr>jc_Name = '''', jc_Type = '''', jc_Value = ''''\<rparr>) job_Config
        (\<lambda>x. job_Config_update (\<lambda>_. x))),
     (''resourceLimits'', into (dec_list (dec_struct ResourceLimit_fields)
        \<lparr>rl_Type = '''', rl_Value = '''', rl_Default = '''', rl_Max = ''''\<rparr>) job_Limits
        (\<lambda>x. job_Limits_update (\<lambda>_. x))),
     (''tags'', into (dec_list dec_string '''') job_Tags (\<lambda>x. job_Tags_update (\<lambda>_. x))),
     (''metadata'', into dec_anymap job_Metadata (\<lambda>x. job_Metadata_update (\<lambda>_. x))),
     (''resourceProfile'', into dec_string job_Profile (\<lambda>x. job_Profile_update (\<lambda>_. x))),
     (''systemJob'', into dec_bool job_SystemJob (\<lambda>x. job_SystemJob_update (\<lambda>_. x))),
     (''instanceId'', into dec_string job_InstanceID (\<lambda>x. job_InstanceID_update (\<lambda>_. x)))]"


section \<open>Decoding requests\<close>

text \<open>The fields of each struct, an embedded struct's first, as the embedding puts them.\<close>

definition base_fields :: "'a BaseRequest_scheme struct_fields" where
  "base_fields = [
     (''messageType'', into (dec_ptr dec_int 0) br_MessageType (\<lambda>x. br_MessageType_update (\<lambda>_. x))),
     (''requestId'', into (dec_ptr dec_uint64 0) br_RequestID (\<lambda>x. br_RequestID_update (\<lambda>_. x)))]"

definition bootstrap_ext :: "BootstrapRequest struct_fields" where
  "bootstrap_ext = [
     (''version'', into (dec_struct Version_fields) bq_Version (\<lambda>x. bq_Version_update (\<lambda>_. x)))]"

definition user_ext :: "'a BaseUserRequest_scheme struct_fields" where
  "user_ext = [
     (''username'', into dec_string bu_Username (\<lambda>x. bu_Username_update (\<lambda>_. x))),
     (''requestUsername'', into dec_string bu_ReqUsername (\<lambda>x. bu_ReqUsername_update (\<lambda>_. x)))]"

definition submit_ext :: "json_env \<Rightarrow> SubmitJobRequest struct_fields" where
  "submit_ext env = user_ext @ [
     (''job'', into (dec_ptr (dec_struct (Job_fields env)) zero_Job) sj_Job
        (\<lambda>x. sj_Job_update (\<lambda>_. x)))]"

definition job_ext :: "'a BaseJobRequest_scheme struct_fields" where
  "job_ext = user_ext @ [
     (''jobId'', into dec_JobID bj_JobID (\<lambda>x. bj_JobID_update (\<lambda>_. x))),
     (''encodedJobId'', into dec_string bj_EncodedJobID (\<lambda>x. bj_EncodedJobID_update (\<lambda>_. x)))]"

definition state_ext :: "json_env \<Rightarrow> JobStateRequest struct_fields" where
  "state_ext env = job_ext @ [
     (''tags'', into (dec_list dec_string '''') (\<lambda>r. flt_Tags (js_Filter r))
        (\<lambda>x. js_Filter_update (flt_Tags_update (\<lambda>_. x)))),
     (''startTime'', into (dec_ptr (dec_time env) 0) (\<lambda>r. flt_StartTime (js_Filter r))
        (\<lambda>x. js_Filter_update (flt_StartTime_update (\<lambda>_. x)))),
     (''endTime'', into (dec_ptr (dec_time env) 0) (\<lambda>r. flt_EndTime (js_Filter r))
        (\<lambda>x. js_Filter_update (flt_EndTime_update (\<lambda>_. x)))),
     (''statuses'', into (dec_list dec_string '''') (\<lambda>r. flt_Statuses (js_Filter r))
        (\<lambda>x. js_Filter_update (flt_Statuses_update (\<lambda>_. x)))),
     (''fields'', into (dec_list dec_string '''') (\<lambda>r. flt_Fields (js_Filter r))
        (\<lambda>x. js_Filter_update (flt_Fields_update (\<lambda>_. x))))]"

definition stream_ext :: "'a BaseJobStreamRequest_scheme struct_fields" where
  "stream_ext = job_ext @ [
     (''cancel'', into dec_bool bs_Cancel (\<lambda>x. bs_Cancel_update (\<lambda>_. x)))]"

definition control_ext :: "ControlJobRequest struct_fields" where
  "control_ext = job_ext @ [
     (''operation'', into dec_int cj_Operation (\<lambda>x. cj_Operation_update (\<lambda>_. x))),
     (''statusMessage'', into dec_string cj_StatusMessage (\<lambda>x. cj_StatusMessage_update (\<lambda>_. x))),
     (''statusCode'', into dec_string cj_StatusCode (\<lambda>x. cj_StatusCode_update (\<lambda>_. x)))]"

definition output_ext :: "JobOutputRequest struct_fields" where
  "output_ext = stream_ext @ [
     (''outputType'', into dec_int jo_Output (\<lambda>x. jo_Output_update (\<lambda>_. x)))]"

definition nodes_ext :: "json_env \<Rightarrow> SetLoadBalancerNodesRequest struct_fields" where
  "nodes_ext env = user_ext @ [
     (''nodes'', into (dec_list (dec_struct (Node_fields env))
        \<lparr>node_Host = '''', node_IP = '''', node_Port = '''', node_LastSeen = 0, node_Status = ''''\<rparr>)
        sn_Nodes (\<lambda>x. sn_Nodes_update (\<lambda>_. x)))]"

definition zero_BaseRequest :: BaseRequest where
  "zero_BaseRequest = \<lparr>br_MessageType = None, br_RequestID = None\<rparr>"

definition zero_BaseUserRequest :: BaseUserRequest where
  "zero_BaseUserRequest = \<lparr>br_MessageType = None, br_RequestID = None, bu_Username = '''',
     bu_ReqUsername = ''''\<rparr>"

definition zero_BaseJobRequest :: BaseJobRequest where
  "zero_BaseJobRequest = \<lparr>br_MessageType = None, br_RequestID = None, bu_Username = '''',
     bu_ReqUsername = '''', bj_JobID = JobID '''', bj_EncodedJobID = ''''\<rparr>"

definition zero_BaseJobStreamRequest :: BaseJobStreamRequest where
  "zero_BaseJobStreamRequest = BaseJobRequest.extend zero_BaseJobRequest \<lparr>bs_Cancel = False\<rparr>"

datatype rpc_error = ErrMsgInvalid | ErrUnknownRequestType

text \<open>\<^verbatim>\<open>requestForType\<close>: the empty request of a type; a heartbeat is not expected here.\<close>

definition requestForType :: "int \<Rightarrow> rpc_error + Request" where
  "requestForType rt =
     (if rt = requestHeartbeat then Inl ErrUnknownRequestType
      else if rt = requestBootstrap then
        Inr (RBootstrap (BaseRequest.extend zero_BaseRequest \<lparr>bq_Version = zero_Version\<rparr>))
      else if rt = requestSubmitJob then
        Inr (RSubmitJob (BaseUserRequest.extend zero_BaseUserRequest \<lparr>sj_Job = None\<rparr>))
      else if rt = requestJob then
        Inr (RJobState (BaseJobRequest.extend zero_BaseJobRequest \<lparr>js_Filter = zero_JobFilter\<rparr>))
      else if rt = requestJobStatus then Inr (RJobStatusStream zero_BaseJobStreamRequest)
      else if rt = requestControlJob then
        Inr (RControlJob (BaseJobRequest.extend zero_BaseJobRequest
          \<lparr>cj_Operation = 0, cj_StatusMessage = '''', cj_StatusCode = ''''\<rparr>))
      else if rt = requestJobOutput then
        Inr (RJobOutput (BaseJobStreamRequest.extend zero_BaseJobStreamRequest \<lparr>jo_Output = 0\<rparr>))
      else if rt = requestJobResourceUtil then Inr (RJobResourceUtil zero_BaseJobStreamRequest)
      else if rt = requestJobNetwork then Inr (RJobNetwork zero_BaseJobRequest)
      else if rt = requestClusterInfo then Inr (RClusterInfo zero_BaseUserRequest)
      else if rt = requestSetLoadBalancerNodes then
        Inr (RSetLoadBalancerNodes (BaseUserRequest.extend zero_BaseUserRequest \<lparr>sn_Nodes = []\<rparr>))
      else if rt = requestConfigReload then Inr (RConfigReload zero_BaseUserRequest)
      else Inl ErrUnknownRequestType)"

text \<open>\<^verbatim>\<open>json.Unmarshal(buf, req)\<close> into the concrete struct behind the interface.\<close>

fun unmarshal_request :: "json_env \<Rightarrow> json \<Rightarrow> Request \<Rightarrow> json_err + Request" where
  "unmarshal_request env j (RHeartbeat r) =
     andThen (dec_struct base_fields j r) (\<lambda>r. Inr (RHeartbeat r))"
| "unmarshal_request env j (RBootstrap r) =
     andThen (dec_struct (base_fields @ bootstrap_ext) j r) (\<lambda>r. Inr (RBootstrap r))"
| "unmarshal_request env j (RSubmitJob r) =
     andThen (dec_struct (base_fields @ submit_ext env) j r) (\<lambda>r. Inr (RSubmitJob r))"
| "unmarshal_request env j (RJobState r) =
     andThen (dec_struct (base_fields @ state_ext env) j r) (\<lambda>r. Inr (RJobState r))"
| "unmarshal_request env j (RJobStatusStream r) =
     andThen (dec_struct (base_fields @ stream_ext) j r) (\<lambda>r. Inr (RJobStatusStream r))"
| "unmarshal_request env j (RControlJob r) =
     andThen (dec_struct (base_fields @ control_ext) j r) (\<lambda>r. Inr (RControlJob r))"
| "unmarshal_request env j (RJobOutput r) =
     andThen (dec_struct (base_fields @ output_ext) j r) (\<lambda>r. Inr (RJobOutput r))"
| "unmarshal_request env j (RJobResourceUtil r) =
     andThen (dec_struct (base_fields @ stream_ext) j r) (\<lambda>r. Inr (RJobResourceUtil r))"
| "unmarshal_request env j (RJobNetwork r) =
     andThen (dec_struct (base_fields @ job_ext) j r) (\<lambda>r. Inr (RJobNetwork r))"
| "unmarshal_request env j (RClusterInfo r) =
     andThen (dec_struct (base_fields @ user_ext) j r) (\<lambda>r. Inr (RClusterInfo r))"
| "unmarshal_request env j (RSetLoadBalancerNodes r) =
     andThen (dec_struct (base_fields @ nodes_ext env) j r) (\<lambda>r. Inr (RSetLoadBalancerNodes r))"
| "unmarshal_request env j (RConfigReload r) =
     andThen (dec_struct (base_fields @ user_ext) j r) (\<lambda>r. Inr (RConfigReload r))"

definition RequestFromJSON :: "json_env \<Rightarrow> string \<Rightarrow> rpc_error + Request" where
  "RequestFromJSON env buf = (case je_parse env buf of
     None \<Rightarrow> Inl ErrMsgInvalid
   | Some doc \<Rightarrow>
       (case dec_struct base_fields doc zero_BaseRequest of
          Inl _ \<Rightarrow> Inl ErrMsgInvalid
        | Inr base \<Rightarrow>
            (if \<not> BaseRequest_Valid base then Inl ErrMsgInvalid
             else (let rt = the (br_MessageType base) in
               if rt = requestHeartbeat then Inr (RHeartbeat base)
               else andThen (requestForType rt) (\<lambda>req.
                 case unmarshal_request env doc req of
                   Inl _ \<Rightarrow> Inl ErrMsgInvalid
                 | Inr r \<Rightarrow> Inr r)))))"


section \<open>The embedded base is decoded alike in every request\<close>

lemma base_embeds:
  assumes dist: "distinct (map ToLower (map fst ((base_fields :: 'a BaseRequest_scheme struct_fields) @ ext)))"
    and keep: "\<And>f d v s s'. (f, d) \<in> set ext \<Longrightarrow> d v s = Inr s' \<Longrightarrow>
      BaseRequest.truncate s' = BaseRequest.truncate s"
  shows "embeds BaseRequest.truncate
     ((base_fields :: 'a BaseRequest_scheme struct_fields) @ ext) (base_fields :: BaseRequest struct_fields)"
proof (rule embedsI [where ext = "map fst ext"])
  show "map fst (base_fields @ ext) = map fst base_fields @ map fst ext"
    by (simp add: base_fields_def)
next
  fix f d e v and s s' :: "'a BaseRequest_scheme"
  assume "map_of (base_fields :: BaseRequest struct_fields) f = Some e"
    "map_of (base_fields @ ext) f = Some d" "d v s = Inr s'"
  then show "e v (BaseRequest.truncate s) = Inr (BaseRequest.truncate s')"
    by (auto simp: base_fields_def into_Inr BaseRequest.truncate_def split: if_splits)
next
  fix f d v and s s' :: "'a BaseRequest_scheme"
  assume f: "f \<in> set (map fst ext)" and d: "map_of (base_fields @ ext) f = Some d"
    and st: "d v s = Inr s'"
  have "f \<notin> fst ` set (base_fields :: 'a BaseRequest_scheme struct_fields)"
    using dist f by (force simp del: map_map)
  then have "map_of (base_fields :: 'a BaseRequest_scheme struct_fields) f = None"
    by (simp add: map_of_eq_None_iff)
  with d have "map_of ext f = Some d" by (auto simp: map_add_Some_iff)
  with keep st show "BaseRequest.truncate s' = BaseRequest.truncate s" by (blast dest: map_of_SomeD)
qed (use dist in simp)

lemmas ext_defs = base_fields_def bootstrap_ext_def user_ext_def submit_ext_def job_ext_def
  state_ext_def stream_ext_def control_ext_def output_ext_def nodes_ext_def

lemma request_embeds:
  "embeds BaseRequest.truncate (base_fields @ bootstrap_ext) (base_fields :: BaseRequest struct_fields)"
  "embeds BaseRequest.truncate (base_fields @ submit_ext env) (base_fields :: BaseRequest struct_fields)"
  "embeds BaseRequest.truncate (base_fields @ state_ext env) (base_fields :: BaseRequest struct_fields)"
  "embeds BaseRequest.truncate (base_fields @ (stream_ext :: BaseJobStreamRequest struct_fields))
     (base_fields :: BaseRequest struct_fields)"
  "embeds BaseRequest.truncate (base_fields @ control_ext) (base_fields :: BaseRequest struct_fields)"
  "embeds BaseRequest.truncate (base_fields @ output_ext) (base_fields :: BaseRequest struct_fields)"
  "embeds BaseRequest.truncate (base_fields @ (job_ext :: BaseJobRequest struct_fields))
     (base_fields :: BaseRequest struct_fields)"
  "embeds BaseRequest.truncate (base_fields @ (user_ext :: BaseUserRequest struct_fields))
     (base_fields :: BaseRequest struct_fields)"
  "embeds BaseRequest.truncate (base_fields @ nodes_ext env) (base_fields :: BaseRequest struct_fields)"
  by (rule base_embeds;
      force simp: ext_defs into_Inr BaseRequest.truncate_def ToLower_def lower_char_def)+

lemma truncate_BaseRequest [simp]: "BaseRequest.truncate (r :: BaseRequest) = r"
  by (simp add: BaseRequest.truncate_def)

lemma unmarshal_request_base:
  "unmarshal_request env j r = Inr r' \<Longrightarrow>
     dec_struct base_fields j (req_base r) = Inr (req_base r')"
  by (cases r) (auto dest: request_embeds [THEN embeds_struct])

lemma unmarshal_request_type:
  "unmarshal_request env j r = Inr r' \<Longrightarrow> request_type_of r' = request_type_of r"
  by (cases r) auto

lemma requestForType_type: "requestForType rt = Inr r \<Longrightarrow> request_type_of r = rt"
  by (auto simp: requestForType_def split: if_splits)

lemma requestForType_base: "requestForType rt = Inr r \<Longrightarrow> req_base r = zero_BaseRequest"
  by (auto simp: requestForType_def zero_BaseRequest_def zero_BaseUserRequest_def
      zero_BaseJobRequest_def zero_BaseJobStreamRequest_def BaseRequest.defs BaseUserRequest.defs
      BaseJobRequest.defs BaseJobStreamRequest.defs split: if_splits)

lemma requestForType_known:
  "(\<exists>r. requestForType rt = Inr r) \<longleftrightarrow> rt \<in> {1..9} \<union> {201, 202}"
  by (auto simp: requestForType_def wire_defs)

lemma RequestFromJSON_base:
  assumes "RequestFromJSON env buf = Inr r"
  obtains doc where "je_parse env buf = Some doc"
    "dec_struct base_fields doc zero_BaseRequest = Inr (req_base r)"
    "BaseRequest_Valid (req_base r)" "br_MessageType (req_base r) = Some (request_type_of r)"
proof -
  from assms obtain doc base where doc: "je_parse env buf = Some doc"
    and base: "dec_struct base_fields doc zero_BaseRequest = Inr base"
    and valid: "BaseRequest_Valid base"
    and r: "(let rt = the (br_MessageType base) in
               if rt = requestHeartbeat then Inr (RHeartbeat base)
               else andThen (requestForType rt) (\<lambda>req.
                 case unmarshal_request env doc req of
                   Inl _ \<Rightarrow> Inl ErrMsgInvalid
                 | Inr r \<Rightarrow> Inr r)) = Inr r"
    by (auto simp: RequestFromJSON_def split: option.splits sum.splits if_splits)
  obtain rt where rt: "br_MessageType base = Some rt"
    using valid by (auto simp: BaseRequest_Valid_def)
  have "req_base r = base \<and> request_type_of r = rt"
  proof (cases "rt = requestHeartbeat")
    case True
    with r rt show ?thesis by auto
  next
    case False
    with r rt obtain req where req: "requestForType rt = Inr req"
      and "(case unmarshal_request env doc req of Inl _ \<Rightarrow> Inl ErrMsgInvalid | Inr r \<Rightarrow> Inr r) = Inr r"
      by (auto simp: Let_def)
    then have u: "unmarshal_request env doc req = Inr r"
      by (cases "unmarshal_request env doc req") simp_all
    from unmarshal_request_base [OF u] requestForType_base [OF req] base have "req_base r = base"
      by simp
    with unmarshal_request_type [OF u] requestForType_type [OF req] show ?thesis by simp
  qed
  with that doc base valid rt show thesis by auto
qed

text \<open>
  A request that \<^verbatim>\<open>RequestFromJSON\<close> returns has the concrete type its message type names,
  and its \<^verbatim>\<open>ID\<close> and \<^verbatim>\<open>Type\<close> methods, which dereference decoded pointers and panic when those are
  nil, both succeed: \<^verbatim>\<open>Type\<close> gives the type of the concrete request and \<^verbatim>\<open>ID\<close> some request ID.
\<close>

theorem RequestFromJSON_no_panic:
  assumes "RequestFromJSON env buf = Inr r"
  shows "Request_Type r = Inr (request_type_of r) \<and> (\<exists>rid. Request_ID r = Inr rid)"
  using assms
  by (rule RequestFromJSON_base)
     (auto simp: Request_Type_def Request_ID_def BaseRequest_Valid_def)

definition example_env :: "string \<Rightarrow> json \<Rightarrow> json_env" where
  "example_env text doc = \<lparr>je_parse = (\<lambda>s. if s = text then Some doc else None),
     je_time = (\<lambda>_. None), je_addr = Some\<rparr>"

lemma ToLower_simps [simp]: "ToLower [] = []" "ToLower (c # cs) = lower_char c # ToLower cs"
  by (simp_all add: ToLower_def)

lemma example_request:
  "RequestFromJSON
     (example_env ''b'' (JObj [(''messageType'', JNum ''9''), (''requestId'', JNum ''7''),
        (''username'', JStr ''alice'')])) ''b'' =
   Inr (RClusterInfo \<lparr>br_MessageType = Some 9, br_RequestID = Some 7, bu_Username = ''alice'',
     bu_ReqUsername = ''''\<rparr>)"
  by (simp add: RequestFromJSON_def example_env_def base_fields_def user_ext_def into_def dec_key_def
      match_key_def dec_ptr_def Atoi_def unsigned_dec_def digit_val_def int64_of_def in_int64_def
      parse_uint64_def zero_BaseRequest_def BaseRequest_Valid_def requestForType_def wire_defs
      zero_BaseUserRequest_def)

theorem RequestFromJSON_no_panic_witness:
  "Request_Type (RClusterInfo \<lparr>br_MessageType = Some 9, br_RequestID = Some 7,
     bu_Username = ''alice'', bu_ReqUsername = ''''\<rparr>) = Inr 9"
  using RequestFromJSON_no_panic [OF example_request] by (simp add: wire_defs)

text \<open>
  \<^verbatim>\<open>RequestFromJSON\<close> answers with the unknown-type error exactly when the buffer is a JSON
  object with a message type and a request ID whose type is none of the twelve the protocol
  has (0 to 9, 201 and 202); every other failure is the invalid-message error.
\<close>

theorem RequestFromJSON_unknown:
  "RequestFromJSON env buf = Inl ErrUnknownRequestType \<longleftrightarrow>
     (\<exists>doc base rt. je_parse env buf = Some doc \<and>
        dec_struct base_fields doc zero_BaseRequest = Inr base \<and>
        br_MessageType base = Some rt \<and> br_RequestID base \<noteq> None \<and>
        rt \<notin> {0..9} \<union> {201, 202})" (is "?lhs \<longleftrightarrow> ?rhs")
proof
  assume ?lhs
  then obtain doc base rt where *: "je_parse env buf = Some doc"
    "dec_struct base_fields doc zero_BaseRequest = Inr base"
    "br_MessageType base = Some rt" "br_RequestID base \<noteq> None" "rt \<noteq> requestHeartbeat"
    "\<exists>e. requestForType rt = Inl e"
    by (auto simp: RequestFromJSON_def BaseRequest_Valid_def andThen_eq_Inl Let_def
        split: option.splits sum.splits if_splits)
       (metis obj_sumE)
  then have "rt \<notin> {1..9} \<union> {201, 202}"
    using requestForType_known [of rt] by force
  with * show ?rhs by (auto simp: wire_defs)
next
  assume ?rhs
  then obtain doc base rt where *: "je_parse env buf = Some doc"
    "dec_struct base_fields doc zero_BaseRequest = Inr base"
    "br_MessageType base = Some rt" "br_RequestID base \<noteq> None" "rt \<notin> {0..9} \<union> {201, 202}"
    by blast
  then have "requestForType rt = Inl ErrUnknownRequestType" "rt \<noteq> requestHeartbeat"
    by (auto simp: requestForType_def wire_defs)
  with * show ?lhs by (simp add: RequestFromJSON_def BaseRequest_Valid_def)
qed

end
