(* ===== verification/Wire_Responses.thy ===== *)
theory Wire_Responses
  imports Api_Types
begin

text \<open>
  Responses of the wire protocol (\<^verbatim>\<open>src/internal/protocol/rpc.go\<close>, second half): the response structs
  with their embedded base as record extension, and their constructors. A slice that may be nil
  is an optional list, since nil and empty differ on the wire (\<^verbatim>\<open>null\<close> against \<^verbatim>\<open>[]\<close>); a float is a
  \<^typ>\<open>real\<close> that is only passed on.
\<close>

definition responseError :: int where [wire_defs]: "responseError = -1"
definition responseHeartbeat :: int where [wire_defs]: "responseHeartbeat = 0"
definition responseBootstrap :: int where [wire_defs]: "responseBootstrap = 1"
definition responseJobState :: int where [wire_defs]: "responseJobState = 2"
definition responseJobStatus :: int where [wire_defs]: "responseJobStatus = 3"
definition responseControlJob :: int where [wire_defs]: "responseControlJob = 4"
definition responseJobOutput :: int where [wire_defs]: "responseJobOutput = 5"
definition responseJobResourceUtil :: int where [wire_defs]: "responseJobResourceUtil = 6"
definition responseJobNetwork :: int where [wire_defs]: "responseJobNetwork = 7"
definition responseClusterInfo :: int where [wire_defs]: "responseClusterInfo = 8"
definition responseSetLoadBalancerNodes :: int where
  [wire_defs]: "responseSetLoadBalancerNodes = 201"
definition responseConfigReload :: int where [wire_defs]: "responseConfigReload = 202"
definition responseMetrics :: int where [wire_defs]: "responseMetrics = 203"


section \<open>Response structs\<close>

record responseBase =
  rs_MessageType :: int
  rs_RequestID :: u64
  rs_ResponseID :: u64

record StreamSequence =
  seq_RequestID :: u64
  seq_SequenceID :: u64

record ErrorResponse = responseBase +
  er_Code :: ErrCode
  er_Msg :: string

record BootstrapResponse = responseBase +
  bsr_Version :: Version

record JobStateResponse = responseBase +
  jsr_Jobs :: "Job list option"

record JobStatusStreamResponse = responseBase +
  jst_Sequences :: "StreamSequence list option"
  jst_ID :: JobID
  jst_Name :: string
  jst_Status :: string
  jst_Code :: string
  jst_Msg :: string

record JobOutputResponse = responseBase +
  jor_SequenceID :: u64
  jor_Output :: string
  jor_OutputType :: string
  jor_Complete :: bool

record JobResourceResponse = responseBase +
  jrr_Sequences :: "StreamSequence list option"
  jrr_CPUPercent :: real
  jrr_CPUTime :: real
  jrr_VirtualMem :: real
  jrr_ResidentMem :: real
  jrr_Complete :: bool

record ControlJobResponse = responseBase +
  cjr_Msg :: string
  cjr_Complete :: bool

record JobNetworkResponse = responseBase +
  jnr_Host :: string
  jnr_Addr :: "string list option"
  jnr_Endpoints :: "string list option"

record ClusterInfo =
  ci_Containers :: bool
  ci_InitContainers :: bool
  ci_Configs :: "JobConfig list option"
  ci_Constraints :: "PlacementConstraint list option"
  ci_Queues :: "string list option"
  ci_DefaultQueue :: string
  ci_Limits :: "ResourceLimit list option"
  ci_Images :: "string list option"
  ci_DefaultImage :: string
  ci_AllowUnknown :: bool
  ci_Profiles :: "ResourceProfile list option"
  ci_HostNetwork :: bool

record ClusterInfoResponse = responseBase +
  cir_Info :: ClusterInfo

record ConfigReloadResponse = responseBase +
  crr_ErrorType :: ConfigReloadErrorType
  crr_ErrorMessage :: string

record HistogramSample =
  hs_Buckets :: "real list"
  hs_Sum :: real

record MetricsResponse = responseBase +
  mr_UptimeSeconds :: u64
  mr_MemoryUsageBytes :: u64
  mr_Latency :: "HistogramSample option"


section \<open>Constructors\<close>

definition NewHeartbeatResponse :: responseBase where
  "NewHeartbeatResponse = \<lparr>rs_MessageType = responseHeartbeat, rs_RequestID = 0, rs_ResponseID = 0\<rparr>"

definition NewErrorResponse :: "u64 \<Rightarrow> ErrCode \<Rightarrow> string \<Rightarrow> ErrorResponse" where
  "NewErrorResponse rid code msg = \<lparr>rs_MessageType = responseError, rs_RequestID = rid,
     rs_ResponseID = 0, er_Code = code, er_Msg = msg\<rparr>"

definition NewBootstrapResponse :: "u64 \<Rightarrow> u64 \<Rightarrow> BootstrapResponse" where
  "NewBootstrapResponse rid sid = \<lparr>rs_MessageType = responseBootstrap, rs_RequestID = rid,
     rs_ResponseID = sid, bsr_Version = APIVersion\<rparr>"

text \<open>A nil slice replaced by an empty one.\<close>

definition non_nil :: "'a list option \<Rightarrow> 'a list option" where
  "non_nil xs = (case xs of None \<Rightarrow> Some [] | Some _ \<Rightarrow> xs)"

lemma non_nil_simps [simp]:
  "non_nil None = Some []" "non_nil (Some ys) = Some ys" "non_nil xs \<noteq> None"
  by (simp_all add: non_nil_def split: option.splits)

definition NewJobStateResponse :: "u64 \<Rightarrow> u64 \<Rightarrow> Job list option \<Rightarrow> JobStateResponse" where
  "NewJobStateResponse rid sid jobs = \<lparr>rs_MessageType = responseJobState, rs_RequestID = rid,
     rs_ResponseID = sid, jsr_Jobs = non_nil jobs\<rparr>"

definition NewJobStatusStreamResponse ::
  "u64 \<Rightarrow> string \<Rightarrow> string \<Rightarrow> string \<Rightarrow> string \<Rightarrow> string \<Rightarrow> JobStatusStreamResponse" where
  "NewJobStatusStreamResponse sid jid name status code msg =
     \<lparr>rs_MessageType = responseJobStatus, rs_RequestID = 0, rs_ResponseID = sid,
      jst_Sequences = Some [], jst_ID = JobID jid, jst_Name = name, jst_Status = status,
      jst_Code = code, jst_Msg = msg\<rparr>"

definition NewJobOutputStreamResponse :: "u64 \<Rightarrow> u64 \<Rightarrow> JobOutputResponse" where
  "NewJobOutputStreamResponse rid sid = \<lparr>rs_MessageType = responseJobOutput, rs_RequestID = rid,
     rs_ResponseID = sid, jor_SequenceID = 0, jor_Output = '''', jor_OutputType = '''',
     jor_Complete = False\<rparr>"

definition NewJobResourceResponse :: "u64 \<Rightarrow> bool \<Rightarrow> JobResourceResponse" where
  "NewJobResourceResponse sid cpl = \<lparr>rs_MessageType = responseJobResourceUtil,
     rs_RequestID = 0, rs_ResponseID = sid, jrr_Sequences = Some [], jrr_CPUPercent = 0,
     jrr_CPUTime = 0, jrr_VirtualMem = 0, jrr_ResidentMem = 0, jrr_Complete = cpl\<rparr>"

definition NewControlJobResponse :: "u64 \<Rightarrow> u64 \<Rightarrow> bool \<Rightarrow> string \<Rightarrow> ControlJobResponse" where
  "NewControlJobResponse rid sid cpl msg = \<lparr>rs_MessageType = responseControlJob,
     rs_RequestID = rid, rs_ResponseID = sid, cjr_Msg = msg, cjr_Complete = cpl\<rparr>"

definition NewJobNetworkResponse :: "u64 \<Rightarrow> u64 \<Rightarrow> string \<Rightarrow> string list option \<Rightarrow> JobNetworkResponse" where
  "NewJobNetworkResponse rid sid host addr = \<lparr>rs_MessageType = responseJobNetwork,
     rs_RequestID = rid, rs_ResponseID = sid, jnr_Host = host, jnr_Addr = non_nil addr,
     jnr_Endpoints = None\<rparr>"

definition NewClusterInfoResponse :: "u64 \<Rightarrow> u64 \<Rightarrow> ClusterInfo \<Rightarrow> ClusterInfoResponse" where
  "NewClusterInfoResponse rid sid cluster = \<lparr>rs_MessageType = responseClusterInfo,
     rs_RequestID = rid, rs_ResponseID = sid,
     cir_Info = cluster\<lparr>ci_Configs := non_nil (ci_Configs cluster),
       ci_Constraints := non_nil (ci_Constraints cluster), ci_Limits := non_nil (ci_Limits cluster),
       ci_Profiles := non_nil (ci_Profiles cluster)\<rparr>\<rparr>"

definition NewSetLoadBalancerNodesResponse :: "u64 \<Rightarrow> u64 \<Rightarrow> responseBase" where
  "NewSetLoadBalancerNodesResponse rid sid = \<lparr>rs_MessageType = responseSetLoadBalancerNodes,
     rs_RequestID = rid, rs_ResponseID = sid\<rparr>"

definition NewConfigReloadResponse ::
  "u64 \<Rightarrow> u64 \<Rightarrow> ConfigReloadErrorType \<Rightarrow> string \<Rightarrow> ConfigReloadResponse" where
  "NewConfigReloadResponse rid sid errType msg = \<lparr>rs_MessageType = responseConfigReload,
     rs_RequestID = rid, rs_ResponseID = sid, crr_ErrorType = errType, crr_ErrorMessage = msg\<rparr>"

definition NewMetricsResponse :: "u64 \<Rightarrow> u64 \<Rightarrow> HistogramSample option \<Rightarrow> MetricsResponse" where
  "NewMetricsResponse uptime mem latency = \<lparr>rs_MessageType = responseMetrics, rs_RequestID = 0,
     rs_ResponseID = 0, mr_UptimeSeconds = uptime, mr_MemoryUsageBytes = mem, mr_Latency = latency\<rparr>"


section \<open>Responses\<close>

text \<open>What a handler may put on the response channel.\<close>

datatype Response =
    PHeartbeat responseBase
  | PError ErrorResponse
  | PBootstrap BootstrapResponse
  | PJobState JobStateResponse
  | PJobStatus JobStatusStreamResponse
  | PJobOutput JobOutputResponse
  | PJobResource JobResourceResponse
  | PControlJob ControlJobResponse
  | PJobNetwork JobNetworkResponse
  | PClusterInfo ClusterInfoResponse
  | PSetNodes responseBase
  | PConfigReload ConfigReloadResponse
  | PMetrics MetricsResponse

fun resp_base :: "Response \<Rightarrow> responseBase" where
  "resp_base (PHeartbeat r) = r"
| "resp_base (PError r) = responseBase.truncate r"
| "resp_base (PBootstrap r) = responseBase.truncate r"
| "resp_base (PJobState r) = responseBase.truncate r"
| "resp_base (PJobStatus r) = responseBase.truncate r"
| "resp_base (PJobOutput r) = responseBase.truncate r"
| "resp_base (PJobResource r) = responseBase.truncate r"
| "resp_base (PControlJob r) = responseBase.truncate r"
| "resp_base (PJobNetwork r) = responseBase.truncate r"
| "resp_base (PClusterInfo r) = responseBase.truncate r"
| "resp_base (PSetNodes r) = r"
| "resp_base (PConfigReload r) = responseBase.truncate r"
| "resp_base (PMetrics r) = responseBase.truncate r"

text \<open>The pairs of request and sequence ID a stream response carries.\<close>

fun resp_sequences :: "Response \<Rightarrow> (u64 \<times> u64) list" where
  "resp_sequences (PJobStatus r) =
     map (\<lambda>q. (seq_RequestID q, seq_SequenceID q)) (case jst_Sequences r of None \<Rightarrow> [] | Some qs \<Rightarrow> qs)"
| "resp_sequences (PJobResource r) =
     map (\<lambda>q. (seq_RequestID q, seq_SequenceID q)) (case jrr_Sequences r of None \<Rightarrow> [] | Some qs \<Rightarrow> qs)"
| "resp_sequences (PJobOutput r) = [(rs_RequestID r, jor_SequenceID r)]"
| "resp_sequences _ = []"

text \<open>No list the Launcher expects is sent as null.\<close>

fun no_null_lists :: "Response \<Rightarrow> bool" where
  "no_null_lists (PJobState r) \<longleftrightarrow> jsr_Jobs r \<noteq> None"
| "no_null_lists (PJobStatus r) \<longleftrightarrow> jst_Sequences r \<noteq> None"
| "no_null_lists (PJobResource r) \<longleftrightarrow> jrr_Sequences r \<noteq> None"
| "no_null_lists (PJobNetwork r) \<longleftrightarrow> jnr_Addr r \<noteq> None"
| "no_null_lists (PClusterInfo r) \<longleftrightarrow> ci_Configs (cir_Info r) \<noteq> None \<and>
     ci_Constraints (cir_Info r) \<noteq> None \<and> ci_Limits (cir_Info r) \<noteq> None \<and>
     ci_Profiles (cir_Info r) \<noteq> None"
| "no_null_lists _ \<longleftrightarrow> True"

lemmas response_defs = NewHeartbeatResponse_def NewErrorResponse_def NewBootstrapResponse_def
  NewJobStateResponse_def NewJobStatusStreamResponse_def NewJobOutputStreamResponse_def
  NewJobResourceResponse_def NewControlJobResponse_def NewJobNetworkResponse_def
  NewClusterInfoResponse_def NewSetLoadBalancerNodesResponse_def NewConfigReloadResponse_def
  NewMetricsResponse_def

end
