(* ===== verification/Response_Writer.thy ===== *)
theory Response_Writer
  imports Wire_Requests Wire_Responses "HOL-Library.Finite_Map" "HOL-Library.Multiset"
begin

text \<open>
  The response writers of the runtime and the store of its streams (\<^verbatim>\<open>src/launcher/launcher.go\<close>,
  second half). The state is the process-wide response counter, the stream store and the
  responses put on the channel so far. A writer method prepares its response, which allocates
  its numbers, and then sends it on the channel; the definitions give the prepared response, and
  the sending is a step of its own, so that calls of several goroutines interleave between the
  two.
\<close>


section \<open>Stream store\<close>

text \<open>
  A context is a number; the contexts made by \<^verbatim>\<open>context.WithCancel\<close> are numbered in the order of
  their creation, and \<open>ss_cancelled\<close> tells which were cancelled on their own.
\<close>

record streamRecord =
  sr_Context :: nat
  sr_SeqID :: u64

record streamStore =
  ss_streams :: "(u64, streamRecord) fmap"
  ss_made :: nat
  ss_cancelled :: "nat set"

definition newStreamStore :: streamStore where
  "newStreamStore = \<lparr>ss_streams = fmempty, ss_made = 0, ss_cancelled = {}\<rparr>"

definition stream_Start :: "u64 \<Rightarrow> streamStore \<Rightarrow> streamStore \<times> nat" where
  "stream_Start rid s =
     (case fmlookup (ss_streams s) rid of
        Some rec \<Rightarrow> (s, sr_Context rec)
      | None \<Rightarrow> (s\<lparr>ss_streams := fmupd rid \<lparr>sr_Context = ss_made s, sr_SeqID = 0\<rparr> (ss_streams s),
                    ss_made := Suc (ss_made s)\<rparr>, ss_made s))"

definition stream_Cancel :: "u64 \<Rightarrow> streamStore \<Rightarrow> streamStore" where
  "stream_Cancel rid s =
     (case fmlookup (ss_streams s) rid of
        Some rec \<Rightarrow> s\<lparr>ss_cancelled := insert (sr_Context rec) (ss_cancelled s),
                      ss_streams := fmdrop rid (ss_streams s)\<rparr>
      | None \<Rightarrow> s)"

definition SequenceID :: "u64 \<Rightarrow> streamStore \<Rightarrow> streamStore \<times> u64" where
  "SequenceID rid s =
     (case fmlookup (ss_streams s) rid of
        Some rec \<Rightarrow> (let n = sr_SeqID rec + 1 in
          (s\<lparr>ss_streams := fmupd rid (rec\<lparr>sr_SeqID := n\<rparr>) (ss_streams s)\<rparr>, n))
      | None \<Rightarrow> (s, 0))"


section \<open>Cluster options\<close>

record ImageOptions =
  io_Default :: string
  io_Images :: "string list option"
  io_AllowUnknown :: bool
  io_HostNetwork :: bool
  io_InitContainers :: bool

record ClusterOptions =
  co_Constraints :: "PlacementConstraint list option"
  co_Queues :: "string list option"
  co_DefaultQueue :: string
  co_Limits :: "ResourceLimit list option"
  co_ImageOpt :: ImageOptions
  co_Configs :: "JobConfig list option"
  co_Profiles :: "ResourceProfile list option"

definition slice_len :: "'a list option \<Rightarrow> nat" where
  "slice_len xs = (case xs of None \<Rightarrow> 0 | Some ys \<Rightarrow> length ys)"

definition toProtocol :: "ClusterOptions \<Rightarrow> ClusterInfo" where
  "toProtocol opt = \<lparr>
     ci_Containers = (slice_len (io_Images (co_ImageOpt opt)) \<noteq> 0),
     ci_InitContainers = io_InitContainers (co_ImageOpt opt),
     ci_Configs = co_Configs opt,
     ci_Constraints = co_Constraints opt,
     ci_Queues = co_Queues opt,
     ci_DefaultQueue = co_DefaultQueue opt,
     ci_Limits = co_Limits opt,
     ci_Images = io_Images (co_ImageOpt opt),
     ci_DefaultImage = io_Default (co_ImageOpt opt),
     ci_AllowUnknown = io_AllowUnknown (co_ImageOpt opt),
     ci_Profiles = co_Profiles opt,
     ci_HostNetwork = io_HostNetwork (co_ImageOpt opt)\<rparr>"


section \<open>Writer methods\<close>

record runtime_state =
  rt_counter :: u64
  rt_store :: streamStore
  rt_out :: "Response list"

definition new_runtime_state :: runtime_state where
  "new_runtime_state = \<lparr>rt_counter = 0, rt_store = newStreamStore, rt_out = []\<rparr>"

text \<open>\<^verbatim>\<open>atomic.AddUint64(&responseCounter, 1) - 1\<close>.\<close>

definition nextResponseID :: "runtime_state \<Rightarrow> runtime_state \<times> u64" where
  "nextResponseID st = (let c = rt_counter st + 1 in (st\<lparr>rt_counter := c\<rparr>, c - 1))"

definition next_seq :: "u64 \<Rightarrow> runtime_state \<Rightarrow> runtime_state \<times> u64" where
  "next_seq rid st = (case SequenceID rid (rt_store st) of (s, n) \<Rightarrow> (st\<lparr>rt_store := s\<rparr>, n))"

definition sendResponse :: "Response \<Rightarrow> runtime_state \<Rightarrow> runtime_state" where
  "sendResponse r st = st\<lparr>rt_out := rt_out st @ [r]\<rparr>"

text \<open>A writer knows its request and, for a stream, the stream store (never nil there).\<close>

record defaultResponseWriter =
  rw_req :: Request
  rw_stream :: bool

definition newResponseWriter :: "Request \<Rightarrow> defaultResponseWriter" where
  "newResponseWriter req = \<lparr>rw_req = req, rw_stream = False\<rparr>"

definition newStreamWriter :: "Request \<Rightarrow> defaultResponseWriter" where
  "newStreamWriter req = \<lparr>rw_req = req, rw_stream = True\<rparr>"

type_synonym write_result = "(runtime_state \<times> Response option \<times> goerror option) go"

definition errNotStreamWriter :: goerror where
  "errNotStreamWriter = EPlain ''method called on non-stream response writer''"

text \<open>A response that carries the request's ID and the next response ID.\<close>

definition numbered :: "defaultResponseWriter \<Rightarrow> (u64 \<Rightarrow> u64 \<Rightarrow> Response) \<Rightarrow> runtime_state \<Rightarrow> write_result" where
  "numbered w mk st = andThen (Request_ID (rw_req w)) (\<lambda>rid.
     case nextResponseID st of (st', sid) \<Rightarrow> Inr (st', Some (mk rid sid), None))"

text \<open>A stream response, which also takes the next sequence ID of its stream.\<close>

definition sequenced ::
  "defaultResponseWriter \<Rightarrow> (u64 \<Rightarrow> u64 \<Rightarrow> u64 \<Rightarrow> Response) \<Rightarrow> runtime_state \<Rightarrow> write_result" where
  "sequenced w mk st = andThen (Request_ID (rw_req w)) (\<lambda>rid.
     case nextResponseID st of (st1, sid) \<Rightarrow>
     case next_seq rid st1 of (st2, n) \<Rightarrow> Inr (st2, Some (mk rid sid n), None))"

definition WriteErrorf :: "defaultResponseWriter \<Rightarrow> ErrCode \<Rightarrow> string \<Rightarrow> runtime_state \<Rightarrow> write_result" where
  "WriteErrorf w code msg st = andThen (Request_ID (rw_req w)) (\<lambda>rid.
     Inr (st, Some (PError (NewErrorResponse rid code msg)), None))"

definition WriteError :: "defaultResponseWriter \<Rightarrow> goerror \<Rightarrow> runtime_state \<Rightarrow> write_result" where
  "WriteError w err st = andThen (Request_ID (rw_req w)) (\<lambda>rid.
     let resp = NewErrorResponse rid CodeUnknown (goerror_Error err);
         resp' = (case errors_As_api err of None \<Rightarrow> resp | Some werr \<Rightarrow> resp\<lparr>er_Code := err_Code werr\<rparr>)
     in Inr (st, Some (PError resp'), None))"

definition WriteJobs :: "defaultResponseWriter \<Rightarrow> Job list option \<Rightarrow> runtime_state \<Rightarrow> write_result" where
  "WriteJobs w jobs = numbered w (\<lambda>rid sid. PJobState (NewJobStateResponse rid sid jobs))"

definition WriteJobStatus ::
  "defaultResponseWriter \<Rightarrow> JobID \<Rightarrow> string \<Rightarrow> string \<Rightarrow> string \<Rightarrow> string \<Rightarrow> runtime_state \<Rightarrow> write_result" where
  "WriteJobStatus w jid name status code msg st =
     (if \<not> rw_stream w then Inr (st, None, Some errNotStreamWriter)
      else sequenced w (\<lambda>rid sid n. PJobStatus
        ((NewJobStatusStreamResponse sid (id_str jid) name status code msg)
          \<lparr>jst_Sequences := Some [\<lparr>seq_RequestID = rid, seq_SequenceID = n\<rparr>]\<rparr>)) st)"

definition WriteJobOutput :: "defaultResponseWriter \<Rightarrow> string \<Rightarrow> JobOutput \<Rightarrow> runtime_state \<Rightarrow> write_result" where
  "WriteJobOutput w output ot st =
     (if \<not> rw_stream w then Inr (st, None, Some errNotStreamWriter)
      else sequenced w (\<lambda>rid sid n. PJobOutput
        ((NewJobOutputStreamResponse rid sid)\<lparr>jor_SequenceID := n, jor_Output := output,
           jor_OutputType := JobOutput_String ot, jor_Complete := False\<rparr>)) st)"

definition WriteJobResourceUtil ::
  "defaultResponseWriter \<Rightarrow> real \<Rightarrow> real \<Rightarrow> real \<Rightarrow> real \<Rightarrow> runtime_state \<Rightarrow> write_result" where
  "WriteJobResourceUtil w cpu cput res virt st =
     (if \<not> rw_stream w then Inr (st, None, Some errNotStreamWriter)
      else sequenced w (\<lambda>rid sid n. PJobResource
        ((NewJobResourceResponse sid False)
          \<lparr>jrr_Sequences := Some [\<lparr>seq_RequestID = rid, seq_SequenceID = n\<rparr>],
           jrr_CPUPercent := cpu, jrr_CPUTime := cput, jrr_ResidentMem := res,
           jrr_VirtualMem := virt\<rparr>)) st)"

text \<open>\<^verbatim>\<open>Close\<close>: only output and resource streams have a completion message.\<close>

definition writer_Close :: "defaultResponseWriter \<Rightarrow> runtime_state \<Rightarrow> write_result" where
  "writer_Close w st =
     (if \<not> rw_stream w then Inr (st, None, None)
      else (case rw_req w of
        RJobOutput _ \<Rightarrow> sequenced w (\<lambda>rid sid n. PJobOutput
          ((NewJobOutputStreamResponse rid sid)\<lparr>jor_SequenceID := n, jor_Complete := True\<rparr>)) st
      | RJobResourceUtil _ \<Rightarrow> sequenced w (\<lambda>rid sid n. PJobResource
          ((NewJobResourceResponse sid True)
            \<lparr>jrr_Sequences := Some [\<lparr>seq_RequestID = rid, seq_SequenceID = n\<rparr>]\<rparr>)) st
      | _ \<Rightarrow> Inr (st, None, None)))"

definition WriteControlJob :: "defaultResponseWriter \<Rightarrow> bool \<Rightarrow> string \<Rightarrow> runtime_state \<Rightarrow> write_result" where
  "WriteControlJob w cpl msg =
     numbered w (\<lambda>rid sid. PControlJob (NewControlJobResponse rid sid cpl msg))"

definition WriteJobNetwork ::
  "defaultResponseWriter \<Rightarrow> string \<Rightarrow> string list option \<Rightarrow> runtime_state \<Rightarrow> write_result" where
  "WriteJobNetwork w host addr =
     numbered w (\<lambda>rid sid. PJobNetwork (NewJobNetworkResponse rid sid host addr))"

definition WriteClusterInfo :: "defaultResponseWriter \<Rightarrow> ClusterOptions \<Rightarrow> runtime_state \<Rightarrow> write_result" where
  "WriteClusterInfo w opt =
     numbered w (\<lambda>rid sid. PClusterInfo (NewClusterInfoResponse rid sid (toProtocol opt)))"

definition WriteHeartbeat :: "defaultResponseWriter \<Rightarrow> runtime_state \<Rightarrow> write_result" where
  "WriteHeartbeat w st = Inr (st, Some (PHeartbeat NewHeartbeatResponse), None)"

definition WriteBootstrap :: "defaultResponseWriter \<Rightarrow> runtime_state \<Rightarrow> write_result" where
  "WriteBootstrap w = numbered w (\<lambda>rid sid. PBootstrap (NewBootstrapResponse rid sid))"

definition WriteSetLoadBalancerNodes :: "defaultResponseWriter \<Rightarrow> runtime_state \<Rightarrow> write_result" where
  "WriteSetLoadBalancerNodes w =
     numbered w (\<lambda>rid sid. PSetNodes (NewSetLoadBalancerNodesResponse rid sid))"

definition WriteConfigReload ::
  "defaultResponseWriter \<Rightarrow> ConfigReloadErrorType \<Rightarrow> string \<Rightarrow> runtime_state \<Rightarrow> write_result" where
  "WriteConfigReload w et msg =
     numbered w (\<lambda>rid sid. PConfigReload (NewConfigReloadResponse rid sid et msg))"

text \<open>A call of a writer method, as data.\<close>

datatype writer_call =
    CErrorf ErrCode string
  | CError goerror
  | CJobs "Job list option"
  | CControlJob bool string
  | CJobNetwork string "string list option"
  | CClusterInfo ClusterOptions
  | CJobStatus JobID string string string string
  | CJobOutput string JobOutput
  | CJobResourceUtil real real real real
  | CClose
  | CHeartbeat
  | CBootstrap
  | CSetNodes
  | CConfigReload ConfigReloadErrorType string

fun prepare :: "defaultResponseWriter \<Rightarrow> writer_call \<Rightarrow> runtime_state \<Rightarrow> write_result" where
  "prepare w (CErrorf code msg) = WriteErrorf w code msg"
| "prepare w (CError err) = WriteError w err"
| "prepare w (CJobs jobs) = WriteJobs w jobs"
| "prepare w (CControlJob cpl msg) = WriteControlJob w cpl msg"
| "prepare w (CJobNetwork host addr) = WriteJobNetwork w host addr"
| "prepare w (CClusterInfo opt) = WriteClusterInfo w opt"
| "prepare w (CJobStatus jid name status code msg) = WriteJobStatus w jid name status code msg"
| "prepare w (CJobOutput output ot) = WriteJobOutput w output ot"
| "prepare w (CJobResourceUtil a b c d) = WriteJobResourceUtil w a b c d"
| "prepare w CClose = writer_Close w"
| "prepare w CHeartbeat = WriteHeartbeat w"
| "prepare w CBootstrap = WriteBootstrap w"
| "prepare w CSetNodes = WriteSetLoadBalancerNodes w"
| "prepare w (CConfigReload et msg) = WriteConfigReload w et msg"

text \<open>A whole call, and a goroutine's calls one after the other with nothing in between.\<close>

definition run_call :: "defaultResponseWriter \<Rightarrow> writer_call \<Rightarrow> runtime_state \<Rightarrow> (runtime_state \<times> goerror option) go" where
  "run_call w c st = andThen (prepare w c st) (\<lambda>(st', resp, err).
     Inr (case resp of None \<Rightarrow> st' | Some r \<Rightarrow> sendResponse r st', err))"

fun run_calls :: "defaultResponseWriter \<Rightarrow> writer_call list \<Rightarrow> runtime_state \<Rightarrow> runtime_state go" where
  "run_calls w [] st = Inr st"
| "run_calls w (c # cs) st = andThen (run_call w c st) (\<lambda>(st', _). run_calls w cs st')"

lemmas write_defs = WriteErrorf_def WriteError_def WriteJobs_def WriteJobStatus_def
  WriteJobOutput_def WriteJobResourceUtil_def writer_Close_def WriteControlJob_def
  WriteJobNetwork_def WriteClusterInfo_def WriteHeartbeat_def WriteBootstrap_def
  WriteSetLoadBalancerNodes_def WriteConfigReload_def numbered_def sequenced_def

section \<open>What a writer call prepares\<close>

text \<open>The responses that take a number from the response counter.\<close>

fun takes_number :: "Response \<Rightarrow> bool" where
  "takes_number (PHeartbeat _) = False"
| "takes_number (PError _) = False"
| "takes_number (PMetrics _) = False"
| "takes_number _ = True"

definition resp_id :: "Response \<Rightarrow> u64" where
  "resp_id r = rs_ResponseID (resp_base r)"

text \<open>A response that names the request it answers, in its base or in its sequences.\<close>

definition answers :: "u64 \<Rightarrow> Response \<Rightarrow> bool" where
  "answers rid r \<longleftrightarrow> rs_RequestID (resp_base r) = rid \<or> fst ` set (resp_sequences r) = {rid} \<or>
     r = PHeartbeat NewHeartbeatResponse"

text \<open>The outcome of a call that prepares a response, as a relation between the states.\<close>

definition prepared :: "u64 \<Rightarrow> bool \<Rightarrow> runtime_state \<Rightarrow> runtime_state \<Rightarrow> Response \<Rightarrow> bool" where
  "prepared rid stream st st' r \<longleftrightarrow> rt_out st' = rt_out st \<and> answers rid r \<and> no_null_lists r \<and>
     (if takes_number r then rt_counter st' = rt_counter st + 1 \<and> resp_id r = rt_counter st
      else rt_counter st' = rt_counter st) \<and>
     (if resp_sequences r = [] then rt_store st' = rt_store st
      else stream \<and> resp_sequences r = [(rid, snd (SequenceID rid (rt_store st)))] \<and>
        rt_store st' = fst (SequenceID rid (rt_store st)))"

lemma truncate_sel [simp]:
  "rs_ResponseID (responseBase.truncate r) = rs_ResponseID r"
  "rs_RequestID (responseBase.truncate r) = rs_RequestID r"
  by (simp_all add: responseBase.truncate_def)

lemma numbered_outcome:
  assumes "Request_ID (rw_req w) = Inr rid"
  shows "numbered w mk st = Inr (st\<lparr>rt_counter := rt_counter st + 1\<rparr>, Some (mk rid (rt_counter st)), None)"
  using assms by (simp add: numbered_def nextResponseID_def Let_def)

lemma sequenced_outcome:
  assumes "Request_ID (rw_req w) = Inr rid"
  shows "sequenced w mk st = Inr (st\<lparr>rt_counter := rt_counter st + 1,
      rt_store := fst (SequenceID rid (rt_store st))\<rparr>,
    Some (mk rid (rt_counter st) (snd (SequenceID rid (rt_store st)))), None)"
  using assms by (simp add: sequenced_def nextResponseID_def next_seq_def Let_def split: prod.splits)

lemma prepare_outcome:
  assumes "Request_ID (rw_req w) = Inr rid"
  shows "\<exists>st' resp err. prepare w c st = Inr (st', resp, err) \<and>
    (case resp of None \<Rightarrow> st' = st | Some r \<Rightarrow> prepared rid (rw_stream w) st st' r)"
proof -
  note defs = WriteErrorf_def WriteError_def WriteJobs_def WriteJobStatus_def
    WriteJobOutput_def WriteJobResourceUtil_def writer_Close_def WriteControlJob_def
    WriteJobNetwork_def WriteClusterInfo_def WriteHeartbeat_def WriteBootstrap_def
    WriteSetLoadBalancerNodes_def WriteConfigReload_def numbered_outcome [OF assms]
    sequenced_outcome [OF assms] prepared_def answers_def resp_id_def response_defs Let_def
  show ?thesis
  proof (cases c)
    case CClose
    then show ?thesis by (cases "rw_req w") (simp_all add: defs)
  next
    case (CError err)
    then show ?thesis using assms by (cases "errors_As_api err") (simp_all add: defs)
  qed (use assms in \<open>simp_all add: defs\<close>)
qed

lemma run_call_outcome:
  assumes "Request_ID (rw_req w) = Inr rid"
  shows "\<exists>st' err. run_call w c st = Inr (st', err) \<and>
    (\<exists>rs. rt_out st' = rt_out st @ rs \<and> (\<forall>r\<in>set rs. answers rid r \<and> no_null_lists r))"
proof -
  obtain st' resp err where p: "prepare w c st = Inr (st', resp, err)"
    and o: "case resp of None \<Rightarrow> st' = st | Some r \<Rightarrow> prepared rid (rw_stream w) st st' r"
    using prepare_outcome [OF assms] by blast
  show ?thesis
  proof (cases resp)
    case None
    with p o show ?thesis by (auto simp: run_call_def)
  next
    case (Some r)
    with p o show ?thesis
      by (intro exI [of _ "sendResponse r st'"] exI [of _ err] conjI exI [of _ "[r]"])
         (auto simp: run_call_def sendResponse_def prepared_def)
  qed
qed

text \<open>Whatever methods a handler calls, none panics and each response names the request.\<close>

lemma run_calls_outcome:
  assumes "Request_ID (rw_req w) = Inr rid"
  shows "\<exists>st' rs. run_calls w cs st = Inr st' \<and> rt_out st' = rt_out st @ rs \<and>
    (\<forall>r\<in>set rs. answers rid r \<and> no_null_lists r)"
proof (induction cs arbitrary: st)
  case (Cons c cs)
  obtain st1 err rs1 where c: "run_call w c st = Inr (st1, err)" "rt_out st1 = rt_out st @ rs1"
    "\<forall>r\<in>set rs1. answers rid r \<and> no_null_lists r"
    using run_call_outcome [OF assms, of c st] by blast
  from Cons.IH [of st1] obtain st' rs2 where "run_calls w cs st1 = Inr st'"
    "rt_out st' = rt_out st1 @ rs2" "\<forall>r\<in>set rs2. answers rid r \<and> no_null_lists r" by blast
  with c show ?case by (intro exI [of _ st'] exI [of _ "rs1 @ rs2"]) auto
qed simp

definition example_stream :: Request where
  "example_stream = RJobStatusStream (zero_BaseJobStreamRequest
     \<lparr>br_MessageType := Some requestJobStatus, br_RequestID := Some 5\<rparr>)"

lemma example_stream_id [simp]: "Request_ID example_stream = Inr 5"
  by (simp add: example_stream_def Request_ID_def BaseRequest.truncate_def)


section \<open>Interleaved calls\<close>

text \<open>
  Several handlers at work: each request has one goroutine, which prepares a response and then
  sends it, so there is at most one prepared and unsent response per request. Streams are
  started before their writer is used and may be cancelled at any time; \<open>sy_started\<close> and
  \<open>sy_cancels\<close> record for which requests that happened.
\<close>

record system =
  sy_rt :: runtime_state
  sy_flight :: "(u64 \<times> Response) list"
  sy_started :: "u64 set"
  sy_cancels :: "u64 set"

definition system_start :: "system \<Rightarrow> bool" where
  "system_start s \<longleftrightarrow> s = \<lparr>sy_rt = new_runtime_state, sy_flight = [], sy_started = {}, sy_cancels = {}\<rparr>"

inductive system_step :: "system \<Rightarrow> system \<Rightarrow> bool" where
  prepare_step: "Request_ID (rw_req w) = Inr rid \<Longrightarrow> rid \<notin> fst ` set (sy_flight s) \<Longrightarrow>
    (rw_stream w \<longrightarrow> rid \<in> sy_started s) \<Longrightarrow> prepare w c (sy_rt s) = Inr (rt, resp, err) \<Longrightarrow>
    system_step s (s\<lparr>sy_rt := rt,
      sy_flight := sy_flight s @ (case resp of None \<Rightarrow> [] | Some r \<Rightarrow> [(rid, r)])\<rparr>)"
| send_step: "sy_flight s = xs @ (rid, r) # ys \<Longrightarrow>
    system_step s (s\<lparr>sy_rt := sendResponse r (sy_rt s), sy_flight := xs @ ys\<rparr>)"
| start_step: "stream_Start rid (rt_store (sy_rt s)) = (store, ctx) \<Longrightarrow>
    system_step s (s\<lparr>sy_rt := (sy_rt s)\<lparr>rt_store := store\<rparr>, sy_started := insert rid (sy_started s)\<rparr>)"
| cancel_step: "system_step s (s\<lparr>sy_rt := (sy_rt s)\<lparr>rt_store := stream_Cancel rid (rt_store (sy_rt s))\<rparr>,
    sy_cancels := insert rid (sy_cancels s)\<rparr>)"

inductive_cases system_stepE: "system_step s t"

text \<open>All responses prepared so far: those on the channel and those about to be sent.\<close>

definition all_responses :: "system \<Rightarrow> Response list" where
  "all_responses s = rt_out (sy_rt s) @ map snd (sy_flight s)"

definition numbers :: "Response list \<Rightarrow> u64 list" where
  "numbers rs = map resp_id (filter takes_number rs)"

text \<open>The numbers handed out are the first natural numbers, as 64-bit words.\<close>

definition numbers_ok :: "system \<Rightarrow> bool" where
  "numbers_ok s \<longleftrightarrow>
     mset (numbers (all_responses s)) = mset (map of_nat [0..<length (numbers (all_responses s))]) \<and>
     rt_counter (sy_rt s) = of_nat (length (numbers (all_responses s)))"

lemma numbers_append [simp]: "numbers (xs @ ys) = numbers xs @ numbers ys"
  by (simp add: numbers_def)

lemma numbers_ok_same:
  "numbers_ok s \<Longrightarrow> mset (all_responses t) = mset (all_responses s) \<Longrightarrow>
     rt_counter (sy_rt t) = rt_counter (sy_rt s) \<Longrightarrow> numbers_ok t"
proof -
  assume *: "numbers_ok s" "mset (all_responses t) = mset (all_responses s)"
    "rt_counter (sy_rt t) = rt_counter (sy_rt s)"
  from *(2) have "mset (numbers (all_responses t)) = mset (numbers (all_responses s))"
    by (simp add: numbers_def)
  moreover from this have "length (numbers (all_responses t)) = length (numbers (all_responses s))"
    by (metis size_mset)
  ultimately show ?thesis using *(1,3) by (simp add: numbers_ok_def)
qed

lemma numbers_ok_prepare:
  assumes "numbers_ok s" "prepared rid b (sy_rt s) rt r"
    "sy_rt t = rt" "sy_flight t = sy_flight s @ [(rid, r)]"
  shows "numbers_ok t"
proof -
  have all: "all_responses t = all_responses s @ [r]"
    using assms by (simp add: all_responses_def prepared_def)
  show ?thesis
  proof (cases "takes_number r")
    case True
    with all assms show ?thesis
      by (simp add: numbers_ok_def prepared_def numbers_def add.commute)
  next
    case False
    with all assms show ?thesis by (simp add: numbers_ok_def prepared_def numbers_def)
  qed
qed

lemma prepare_step_outcome:
  assumes "Request_ID (rw_req w) = Inr rid" "prepare w c st = Inr (st', resp, err)"
  shows "case resp of None \<Rightarrow> st' = st | Some r \<Rightarrow> prepared rid (rw_stream w) st st' r"
  using prepare_outcome [OF assms(1), of c st] assms(2) by auto

lemma numbers_ok_step:
  assumes "system_step s t" "numbers_ok s"
  shows "numbers_ok t"
  using assms(1)
proof (rule system_stepE)
  fix w rid c rt resp err
  assume t: "t = s\<lparr>sy_rt := rt,
      sy_flight := sy_flight s @ (case resp of None \<Rightarrow> [] | Some r \<Rightarrow> [(rid, r)])\<rparr>"
    and "Request_ID (rw_req w) = Inr rid" "prepare w c (sy_rt s) = Inr (rt, resp, err)"
  note out = prepare_step_outcome [OF this(2,3)]
  show ?thesis
  proof (cases resp)
    case None
    with t out have "t = s" by simp
    with assms(2) show ?thesis by simp
  next
    case (Some r)
    with out have "prepared rid (rw_stream w) (sy_rt s) rt r" by simp
    from numbers_ok_prepare [OF assms(2) this] t Some show ?thesis by simp
  qed
next
  fix xs rid r ys
  assume t: "t = s\<lparr>sy_rt := sendResponse r (sy_rt s), sy_flight := xs @ ys\<rparr>"
    and "sy_flight s = xs @ (rid, r) # ys"
  with assms(2) show ?thesis
    by (elim numbers_ok_same) (simp_all add: all_responses_def sendResponse_def)
next
  fix rid store ctx
  assume t: "t = s\<lparr>sy_rt := (sy_rt s)\<lparr>rt_store := store\<rparr>, sy_started := insert rid (sy_started s)\<rparr>"
  with assms(2) show ?thesis by (elim numbers_ok_same) (simp_all add: all_responses_def)
next
  fix rid
  assume t: "t = s\<lparr>sy_rt := (sy_rt s)\<lparr>rt_store := stream_Cancel rid (rt_store (sy_rt s))\<rparr>,
    sy_cancels := insert rid (sy_cancels s)\<rparr>"
  with assms(2) show ?thesis by (elim numbers_ok_same) (simp_all add: all_responses_def)
qed

interpretation numbering: inductive_invariant system_start system_step numbers_ok
proof unfold_locales
  show "system_start s \<Longrightarrow> numbers_ok s" for s
    by (simp add: system_start_def numbers_ok_def all_responses_def new_runtime_state_def numbers_def)
qed (rule numbers_ok_step)

text \<open>
  C26: However the calls of concurrent handlers interleave, and whichever streams are started and
  cancelled, no two responses on the channel that carry a response ID carry the same one, as long
  as no more than \<open>2^64\<close> IDs were taken (the counter is a 64-bit word and wraps).
\<close>

theorem response_ids_unique:
  assumes "reachable system_start system_step s"
    and "length (numbers (all_responses s)) \<le> 2 ^ 64"
  shows "distinct (numbers (rt_out (sy_rt s)))"
proof -
  let ?n = "length (numbers (all_responses s))"
  have m: "mset (numbers (all_responses s)) = mset (map of_nat [0..<?n])"
    using numbering.reachable_invar [OF assms(1)] by (simp add: numbers_ok_def)
  have "inj_on (of_nat :: nat \<Rightarrow> u64) {0..<?n}"
  proof (rule inj_onI)
    fix i j assume "i \<in> {0..<?n}" "j \<in> {0..<?n}" "(of_nat i :: u64) = of_nat j"
    then show "i = j"
      using assms(2) of_nat_inverse [where 'a = 64, of i "of_nat i :: u64"] by (simp add: word_of_nat_eq_iff take_bit_nat_eq_self)
  qed
  then have "distinct (map (of_nat :: nat \<Rightarrow> u64) [0..<?n])" by (simp add: distinct_map)
  with m have "distinct (numbers (all_responses s))" by (metis mset_eq_imp_distinct_iff)
  then show ?thesis by (simp add: all_responses_def)
qed

section \<open>Sequence numbers of streams\<close>

definition seqs :: "u64 \<Rightarrow> Response list \<Rightarrow> u64 list" where
  "seqs rid rs = map snd (filter (\<lambda>p. fst p = rid) (concat (map resp_sequences rs)))"

lemma seqs_append [simp]: "seqs rid (xs @ ys) = seqs rid xs @ seqs rid ys"
  by (simp add: seqs_def)

lemma seqs_Nil [simp]: "seqs rid [] = []"
  by (simp add: seqs_def)

definition count_up :: "nat \<Rightarrow> u64 list" where
  "count_up k = map of_nat [1..<Suc k]"

lemma count_up_simps [simp]:
  "count_up 0 = []" "count_up (Suc k) = count_up k @ [of_nat (Suc k)]"
  by (simp_all add: count_up_def)

lemma take_count_up: "take n (count_up k) = count_up (min n k)"
  by (rule nth_equalityI) (auto simp: count_up_def simp del: upt_Suc)

definition stream_ok :: "system \<Rightarrow> u64 \<Rightarrow> bool" where
  "stream_ok s rid \<longleftrightarrow> rid \<in> sy_cancels s \<or>
     (\<exists>k. seqs rid (all_responses s) = count_up k \<and>
       (case fmlookup (ss_streams (rt_store (sy_rt s))) rid of
          None \<Rightarrow> k = 0 \<and> rid \<notin> sy_started s
        | Some rec \<Rightarrow> sr_SeqID rec = of_nat k))"

definition flight_ok :: "system \<Rightarrow> bool" where
  "flight_ok s \<longleftrightarrow> distinct (map fst (sy_flight s)) \<and>
     (\<forall>(g, r)\<in>set (sy_flight s). \<forall>p\<in>set (resp_sequences r). fst p = g)"

definition streams_ok :: "system \<Rightarrow> bool" where
  "streams_ok s \<longleftrightarrow> flight_ok s \<and> (\<forall>rid. stream_ok s rid)"

lemma SequenceID_lookup:
  "fmlookup (ss_streams (fst (SequenceID rid s))) rid' =
     (if rid' = rid then map_option (\<lambda>rec. rec\<lparr>sr_SeqID := sr_SeqID rec + 1\<rparr>) (fmlookup (ss_streams s) rid)
      else fmlookup (ss_streams s) rid')"
  by (auto simp: SequenceID_def Let_def split: option.splits)

lemma SequenceID_value:
  "fmlookup (ss_streams s) rid = Some rec \<Longrightarrow> snd (SequenceID rid s) = sr_SeqID rec + 1"
  by (simp add: SequenceID_def Let_def)

lemma stream_ok_cong:
  assumes "stream_ok s rid" "seqs rid (all_responses t) = seqs rid (all_responses s)"
    "fmlookup (ss_streams (rt_store (sy_rt t))) rid = fmlookup (ss_streams (rt_store (sy_rt s))) rid"
    "rid \<in> sy_started t \<longleftrightarrow> rid \<in> sy_started s" "sy_cancels s \<subseteq> sy_cancels t"
  shows "stream_ok t rid"
  using assms by (auto simp: stream_ok_def split: option.splits)

lemma streams_ok_prepare:
  assumes ok: "streams_ok s" and out: "prepared rid b (sy_rt s) rt r"
    and free: "rid \<notin> fst ` set (sy_flight s)" and started: "b \<longrightarrow> rid \<in> sy_started s"
    and t: "t = s\<lparr>sy_rt := rt, sy_flight := sy_flight s @ [(rid, r)]\<rparr>"
  shows "streams_ok t"
proof -
  have fl: "flight_ok t"
    using ok free out
    by (auto simp: t flight_ok_def streams_ok_def prepared_def split: if_splits)
  have all: "all_responses t = all_responses s @ [r]"
    using out by (simp add: t all_responses_def prepared_def)
  have "stream_ok t rid'" for rid'
  proof (cases "resp_sequences r = [] \<or> rid' \<noteq> rid")
    case True
    have "stream_ok s rid'" using ok by (simp add: streams_ok_def)
    then show ?thesis
      by (rule stream_ok_cong)
         (use True out in \<open>auto simp: all_responses_def seqs_def t prepared_def SequenceID_lookup
            split: if_splits\<close>)
  next
    case False
    then have seq: "resp_sequences r = [(rid, snd (SequenceID rid (rt_store (sy_rt s))))]"
      and store: "rt_store rt = fst (SequenceID rid (rt_store (sy_rt s)))"
      and st: "rid \<in> sy_started s" and eq: "rid' = rid"
      using out started by (auto simp: prepared_def)
    show ?thesis
    proof (cases "rid \<in> sy_cancels s")
      case False
      with ok st obtain k rec where k: "seqs rid (all_responses s) = count_up k"
        and rec: "fmlookup (ss_streams (rt_store (sy_rt s))) rid = Some rec" "sr_SeqID rec = of_nat k"
        by (fastforce simp: streams_ok_def stream_ok_def split: option.splits)
      have "seqs rid (all_responses t) = count_up (Suc k)"
        by (simp add: all k seqs_def [of rid "[r]"] seq SequenceID_value [OF rec(1)] rec(2) add.commute)
      then show ?thesis
        by (auto simp: stream_ok_def eq t store SequenceID_lookup rec add.commute intro!: exI [of _ "Suc k"])
    qed (simp add: stream_ok_def eq t)
  qed
  with fl show ?thesis by (simp add: streams_ok_def)
qed

lemma seqs_other:
  assumes "\<forall>(g, r)\<in>set fl. \<forall>p\<in>set (resp_sequences r). fst p = g" "rid \<notin> fst ` set fl"
  shows "seqs rid (map snd fl) = []"
  using assms by (induction fl) (auto simp: seqs_def)

lemma streams_ok_send:
  assumes ok: "streams_ok s" and fl: "sy_flight s = xs @ (rid, r) # ys"
    and t: "t = s\<lparr>sy_rt := sendResponse r (sy_rt s), sy_flight := xs @ ys\<rparr>"
  shows "streams_ok t"
proof -
  have fok: "flight_ok s" using ok by (simp add: streams_ok_def)
  have "seqs rid' (all_responses t) = seqs rid' (all_responses s)" for rid'
  proof (cases "rid' = rid")
    case True
    then have "seqs rid' (map snd xs) = []"
      using fok fl by (intro seqs_other) (auto simp: flight_ok_def)
    then show ?thesis by (simp add: all_responses_def t fl sendResponse_def seqs_def)
  next
    case False
    then have "seqs rid' [r] = []" using fok fl seqs_other [of "[(rid, r)]" rid'] by (simp add: flight_ok_def)
    then show ?thesis by (simp add: all_responses_def t fl sendResponse_def seqs_def)
  qed
  then have "stream_ok t rid'" for rid'
    using ok by (intro stream_ok_cong [of s rid' t]) (simp_all add: streams_ok_def t sendResponse_def)
  moreover have "flight_ok t" using fok fl by (auto simp: flight_ok_def t)
  ultimately show ?thesis by (simp add: streams_ok_def)
qed

lemma streams_ok_start:
  assumes ok: "streams_ok s" and st: "stream_Start rid (rt_store (sy_rt s)) = (store, ctx)"
    and t: "t = s\<lparr>sy_rt := (sy_rt s)\<lparr>rt_store := store\<rparr>, sy_started := insert rid (sy_started s)\<rparr>"
  shows "streams_ok t"
proof -
  have "stream_ok t rid'" for rid'
  proof (cases "rid' = rid")
    case True
    have "stream_ok s rid" using ok by (simp add: streams_ok_def)
    then show ?thesis using st True
      by (cases "fmlookup (ss_streams (rt_store (sy_rt s))) rid")
         (auto simp: stream_ok_def all_responses_def t stream_Start_def intro: exI [of _ 0])
  next
    case False
    have "stream_ok s rid'" using ok by (simp add: streams_ok_def)
    then show ?thesis
      by (rule stream_ok_cong) (use False st in \<open>auto simp: all_responses_def t stream_Start_def split: option.splits\<close>)
  qed
  then show ?thesis using ok by (simp add: streams_ok_def flight_ok_def t)
qed

lemma streams_ok_cancel:
  assumes ok: "streams_ok s"
    and t: "t = s\<lparr>sy_rt := (sy_rt s)\<lparr>rt_store := stream_Cancel rid (rt_store (sy_rt s))\<rparr>,
      sy_cancels := insert rid (sy_cancels s)\<rparr>"
  shows "streams_ok t"
proof -
  have "stream_ok t rid'" for rid'
  proof (cases "rid' = rid")
    case False
    have "stream_ok s rid'" using ok by (simp add: streams_ok_def)
    then show ?thesis
      by (rule stream_ok_cong) (use False in \<open>auto simp: all_responses_def t stream_Cancel_def split: option.splits\<close>)
  qed (simp add: stream_ok_def t)
  then show ?thesis using ok by (simp add: streams_ok_def flight_ok_def t)
qed

lemma streams_ok_step:
  assumes "system_step s t" "streams_ok s"
  shows "streams_ok t"
  using assms(1)
proof (rule system_stepE)
  fix w rid c rt resp err
  assume t: "t = s\<lparr>sy_rt := rt,
      sy_flight := sy_flight s @ (case resp of None \<Rightarrow> [] | Some r \<Rightarrow> [(rid, r)])\<rparr>"
    and p: "Request_ID (rw_req w) = Inr rid" "prepare w c (sy_rt s) = Inr (rt, resp, err)"
    and g: "rid \<notin> fst ` set (sy_flight s)" "rw_stream w \<longrightarrow> rid \<in> sy_started s"
  note out = prepare_step_outcome [OF p]
  show ?thesis
  proof (cases resp)
    case None
    with t out have "t = s" by simp
    with assms(2) show ?thesis by simp
  next
    case (Some r)
    with out have "prepared rid (rw_stream w) (sy_rt s) rt r" by simp
    from streams_ok_prepare [OF assms(2) this g] t Some show ?thesis by simp
  qed
qed (use assms(2) in \<open>auto intro: streams_ok_send streams_ok_start streams_ok_cancel\<close>)

interpretation streaming: inductive_invariant system_start system_step streams_ok
proof unfold_locales
  show "system_start s \<Longrightarrow> streams_ok s" for s
    by (simp add: system_start_def streams_ok_def flight_ok_def stream_ok_def all_responses_def
        new_runtime_state_def newStreamStore_def)
qed (rule streams_ok_step)


text \<open>A run of one stream: it is started, one status is prepared and sent.\<close>

definition example_run :: "nat \<Rightarrow> system" where
  "example_run n =
    (let s0 = \<lparr>sy_rt = new_runtime_state, sy_flight = [], sy_started = {}, sy_cancels = {}\<rparr>;
         s1 = s0\<lparr>sy_rt := (sy_rt s0)\<lparr>rt_store := fst (stream_Start 5 (rt_store (sy_rt s0)))\<rparr>,
                 sy_started := {5}\<rparr>;
         r = PJobStatus ((NewJobStatusStreamResponse 0 ''7'' ''n'' StatusRunning '''' '''')
               \<lparr>jst_Sequences := Some [\<lparr>seq_RequestID = 5, seq_SequenceID = 1\<rparr>]\<rparr>);
         rt2 = (sy_rt s1)\<lparr>rt_counter := 1, rt_store := fst (SequenceID 5 (rt_store (sy_rt s1)))\<rparr>;
         s2 = s1\<lparr>sy_rt := rt2, sy_flight := [(5, r)]\<rparr>
     in if n = 0 then s0 else if n = 1 then s1 else if n = 2 then s2
        else s2\<lparr>sy_rt := sendResponse r rt2, sy_flight := []\<rparr>)"

lemma example_run_reachable: "reachable system_start system_step (example_run 3)"
proof -
  have "system_start (example_run 0)" by (simp add: system_start_def example_run_def)
  moreover have "system_step (example_run 0) (example_run 1)"
    using start_step [of 5 "example_run 0" "fst (stream_Start 5 newStreamStore)"
        "snd (stream_Start 5 newStreamStore)"]
    by (simp add: example_run_def new_runtime_state_def Let_def)
  moreover have "system_step (example_run 1) (example_run 2)"
    using prepare_step [of "newStreamWriter example_stream" 5 "example_run 1"
        "CJobStatus (JobID ''7'') ''n'' StatusRunning '''' ''''"]
    by (simp add: example_run_def Let_def newStreamWriter_def WriteJobStatus_def sequenced_outcome
        new_runtime_state_def newStreamStore_def stream_Start_def SequenceID_def)
  moreover have "system_step (example_run 2) (example_run 3)"
    using send_step [of "example_run 2" "[]"] by (simp add: example_run_def Let_def)
  ultimately show ?thesis by (blast intro: reachable.intros)
qed

theorem response_ids_unique_witness:
  "length (rt_out (sy_rt (example_run 3))) = 1 \<and> distinct (numbers (rt_out (sy_rt (example_run 3))))"
  using response_ids_unique [OF example_run_reachable]
  by (simp add: example_run_def Let_def all_responses_def sendResponse_def new_runtime_state_def numbers_def)


end
