(* ===== verification/Request_Handler.thy ===== *)
theory Request_Handler
  imports Response_Writer
begin

text \<open>
  The request handler of the runtime (\<^verbatim>\<open>createHandler\<close> in \<^verbatim>\<open>src/launcher/launcher.go\<close>). The plugin is
  the user's code and a parameter: a record with one function per method of the interfaces
  \<^verbatim>\<open>Plugin\<close>, \<^verbatim>\<open>BootstrappedPlugin\<close>, \<^verbatim>\<open>LoadBalancedPlugin\<close> and \<^verbatim>\<open>ConfigReloadablePlugin\<close>, giving the calls
  the method makes on its response writer (or, for a reload, the error it returns); \<^term>\<open>None\<close>
  stands for an optional interface the plugin does not implement.
\<close>

record plugin =
  pl_SubmitJob :: "string \<Rightarrow> Job \<Rightarrow> writer_call list"
  pl_GetJob :: "string \<Rightarrow> JobID \<Rightarrow> string list \<Rightarrow> writer_call list"
  pl_GetJobs :: "string \<Rightarrow> JobFilter \<Rightarrow> string list \<Rightarrow> writer_call list"
  pl_ControlJob :: "string \<Rightarrow> JobID \<Rightarrow> JobOperation \<Rightarrow> ControlJobOptions \<Rightarrow> writer_call list"
  pl_GetJobStatus :: "nat \<Rightarrow> string \<Rightarrow> JobID \<Rightarrow> writer_call list"
  pl_GetJobStatuses :: "nat \<Rightarrow> string \<Rightarrow> writer_call list"
  pl_GetJobOutput :: "nat \<Rightarrow> string \<Rightarrow> JobID \<Rightarrow> JobOutput \<Rightarrow> writer_call list"
  pl_GetJobResourceUtil :: "nat \<Rightarrow> string \<Rightarrow> JobID \<Rightarrow> writer_call list"
  pl_GetJobNetwork :: "string \<Rightarrow> JobID \<Rightarrow> writer_call list"
  pl_ClusterInfo :: "string \<Rightarrow> writer_call list"
  pl_Bootstrap :: "writer_call list option"
  pl_SyncNodes :: bool
  pl_ReloadConfig :: "goerror option option"

text \<open>
  The state the handler closes over, and what handling one request comes to: the state after
  the streams were started or cancelled, the writer (none for a cancel request) with the calls
  made on it in order, the nodes passed on, and whether the metrics loop is started.
\<close>

record handler_state =
  hs_rt :: runtime_state
  hs_once :: bool

record handled =
  hd_state :: handler_state
  hd_writer :: "defaultResponseWriter option"
  hd_calls :: "writer_call list"
  hd_nodes :: "Node list option"
  hd_metrics :: bool

definition respond :: "handler_state \<Rightarrow> defaultResponseWriter \<Rightarrow> writer_call list \<Rightarrow> handled" where
  "respond hs w cs = \<lparr>hd_state = hs, hd_writer = Some w, hd_calls = cs, hd_nodes = None,
     hd_metrics = False\<rparr>"

definition handle_Bootstrap :: "plugin \<Rightarrow> int \<Rightarrow> BootstrapRequest \<Rightarrow> handler_state \<Rightarrow> handled" where
  "handle_Bootstrap p metricsInterval r hs =
    (let w = newResponseWriter (RBootstrap r); v = bq_Version r in
     if ver_Major v \<noteq> ver_Major APIVersion then
       respond hs w [CErrorf CodeUnsupportedVersion
         (''The plugin supports API version '' @ int_dec (ver_Major APIVersion) @
          ''.X.XXXX. The Launcher's API version is '' @ int_dec (ver_Major v) @ ''.'' @
          int_dec (ver_Minor v) @ ''.'' @ int_dec (ver_Patch v))]
     else (let start = metricsInterval > 0 \<and> \<not> hs_once hs in
       (respond (hs\<lparr>hs_once := hs_once hs \<or> metricsInterval > 0\<rparr>) w
          ((case pl_Bootstrap p of None \<Rightarrow> [] | Some cs \<Rightarrow> cs) @ [CBootstrap]))\<lparr>hd_metrics := start\<rparr>))"

definition handle_SubmitJob :: "plugin \<Rightarrow> SubmitJobRequest \<Rightarrow> handler_state \<Rightarrow> handled go" where
  "handle_SubmitJob p r hs =
    (let w = newResponseWriter (RSubmitJob r) in
     andThen (deref (sj_Job r)) (\<lambda>job.
       let job1 = (if bu_Username r \<noteq> ''*'' \<and> job_User job = '''' then job\<lparr>job_User := bu_Username r\<rparr> else job)
       in if job_User job1 = '''' then
            Inr (respond hs w [CErrorf CodeInvalidRequest ''User must not be empty''])
          else (let job2 = (if job_Profile job1 = '''' then job1\<lparr>job_Profile := ''custom''\<rparr> else job1)
            in Inr (respond hs w (pl_SubmitJob p (bu_Username r) job2)))))"

definition handle_JobState :: "plugin \<Rightarrow> JobStateRequest \<Rightarrow> handler_state \<Rightarrow> handled" where
  "handle_JobState p r hs =
    (let w = newResponseWriter (RJobState r); flds = flt_Fields (js_Filter r) in
     if \<not> JobID_IsWildcard (bj_JobID r) then
       respond hs w (pl_GetJob p (bu_Username r) (bj_JobID r) flds)
     else respond hs w (pl_GetJobs p (bu_Username r) (js_Filter r) flds))"

text \<open>
  The common part of the stream requests: a cancel request ends the stream of its ID, any other
  starts it and runs the plugin with the stream's context.
\<close>

definition handle_stream ::
  "Request \<Rightarrow> bool \<Rightarrow> (nat \<Rightarrow> writer_call list) \<Rightarrow> handler_state \<Rightarrow> handled go" where
  "handle_stream req cancel method hs = andThen (Request_ID req) (\<lambda>rid.
     if cancel then
       Inr \<lparr>hd_state = hs\<lparr>hs_rt := (hs_rt hs)\<lparr>rt_store := stream_Cancel rid (rt_store (hs_rt hs))\<rparr>\<rparr>,
            hd_writer = None, hd_calls = [], hd_nodes = None, hd_metrics = False\<rparr>
     else (case stream_Start rid (rt_store (hs_rt hs)) of (store, ctx) \<Rightarrow>
       Inr (respond (hs\<lparr>hs_rt := (hs_rt hs)\<lparr>rt_store := store\<rparr>\<rparr>) (newStreamWriter req) (method ctx))))"

definition handle_JobStatusStream :: "plugin \<Rightarrow> BaseJobStreamRequest \<Rightarrow> handler_state \<Rightarrow> handled go" where
  "handle_JobStatusStream p r = handle_stream (RJobStatusStream r) (bs_Cancel r) (\<lambda>ctx.
     if \<not> JobID_IsWildcard (bj_JobID r) then pl_GetJobStatus p ctx (bu_Username r) (bj_JobID r)
     else pl_GetJobStatuses p ctx (bu_Username r))"

definition handle_ControlJob :: "plugin \<Rightarrow> ControlJobRequest \<Rightarrow> handler_state \<Rightarrow> handled" where
  "handle_ControlJob p r hs =
    (let w = newResponseWriter (RControlJob r) in
     if JobID_IsWildcard (bj_JobID r) then
       respond hs w [CErrorf CodeInvalidRequest
         ''Cannot control all jobs simultaneously. Please specify a single Job ID.'']
     else if cj_Operation r \<notin> {OperationSuspend, OperationResume, OperationStop, OperationKill,
         OperationCancel} then
       respond hs w [CErrorf CodeInvalidRequest
         (''Unknown control job operation ('' @ int_dec (cj_Operation r) @ '') for job '' @
          id_str (bj_JobID r))]
     else respond hs w (pl_ControlJob p (bu_Username r) (bj_JobID r) (cj_Operation r)
       \<lparr>cjo_StatusMessage = cj_StatusMessage r, cjo_StatusCode = cj_StatusCode r\<rparr>))"

definition handle_ConfigReload :: "plugin \<Rightarrow> BaseUserRequest \<Rightarrow> handler_state \<Rightarrow> handled" where
  "handle_ConfigReload p r hs =
    (let w = newResponseWriter (RConfigReload r) in
     respond hs w [case pl_ReloadConfig p of
        None \<Rightarrow> CConfigReload ReloadErrorNone ''''
      | Some None \<Rightarrow> CConfigReload ReloadErrorNone ''''
      | Some (Some err) \<Rightarrow>
          (case errors_As_reload err of
             Some crErr \<Rightarrow> CConfigReload (cre_Type crErr) (cre_Message crErr)
           | None \<Rightarrow> CConfigReload ReloadErrorUnknown (goerror_Error err))])"

fun createHandler :: "plugin \<Rightarrow> int \<Rightarrow> Request \<Rightarrow> handler_state \<Rightarrow> handled go" where
  "createHandler p mi (RHeartbeat r) hs =
     Inr (respond hs (newResponseWriter (RHeartbeat r)) [CHeartbeat])"
| "createHandler p mi (RBootstrap r) hs = Inr (handle_Bootstrap p mi r hs)"
| "createHandler p mi (RSubmitJob r) hs = handle_SubmitJob p r hs"
| "createHandler p mi (RJobState r) hs = Inr (handle_JobState p r hs)"
| "createHandler p mi (RJobStatusStream r) hs = handle_JobStatusStream p r hs"
| "createHandler p mi (RControlJob r) hs = Inr (handle_ControlJob p r hs)"
| "createHandler p mi (RJobOutput r) hs = handle_stream (RJobOutput r) (bs_Cancel r)
     (\<lambda>ctx. pl_GetJobOutput p ctx (bu_Username r) (bj_JobID r) (jo_Output r)) hs"
| "createHandler p mi (RJobResourceUtil r) hs = handle_stream (RJobResourceUtil r) (bs_Cancel r)
     (\<lambda>ctx. pl_GetJobResourceUtil p ctx (bu_Username r) (bj_JobID r)) hs"
| "createHandler p mi (RJobNetwork r) hs =
     Inr (respond hs (newResponseWriter (RJobNetwork r)) (pl_GetJobNetwork p (bu_Username r) (bj_JobID r)))"
| "createHandler p mi (RClusterInfo r) hs =
     Inr (respond hs (newResponseWriter (RClusterInfo r)) (pl_ClusterInfo p (bu_Username r)))"
| "createHandler p mi (RSetLoadBalancerNodes r) hs =
     Inr ((respond hs (newResponseWriter (RSetLoadBalancerNodes r)) [CSetNodes])
       \<lparr>hd_nodes := (if pl_SyncNodes p then Some (sn_Nodes r) else None)\<rparr>)"
| "createHandler p mi (RConfigReload r) hs = Inr (handle_ConfigReload p r hs)"

text \<open>Handling one request with nothing in between: dispatch, then the calls on the writer.\<close>

definition serve_request :: "plugin \<Rightarrow> int \<Rightarrow> Request \<Rightarrow> handler_state \<Rightarrow> handler_state go" where
  "serve_request p mi req hs = andThen (createHandler p mi req hs) (\<lambda>hd.
     case hd_writer hd of
       None \<Rightarrow> Inr (hd_state hd)
     | Some w \<Rightarrow> andThen (run_calls w (hd_calls hd) (hs_rt (hd_state hd)))
         (\<lambda>rt. Inr ((hd_state hd)\<lparr>hs_rt := rt\<rparr>)))"

lemmas handler_defs = handle_Bootstrap_def handle_SubmitJob_def handle_JobState_def
  handle_stream_def handle_JobStatusStream_def handle_ControlJob_def handle_ConfigReload_def
  respond_def

section \<open>Every request is answered\<close>

fun missing_job :: "Request \<Rightarrow> bool" where
  "missing_job (RSubmitJob r) \<longleftrightarrow> sj_Job r = None"
| "missing_job _ \<longleftrightarrow> False"

lemma createHandler_panics: "missing_job req \<Longrightarrow> createHandler p mi req hs = Inl NilDeref"
  by (cases req) (simp_all add: handle_SubmitJob_def)

lemma handle_stream_runs:
  assumes "Request_ID req = Inr rid"
  shows "\<exists>hd. handle_stream req cancel m hs = Inr hd \<and> rt_out (hs_rt (hd_state hd)) = rt_out (hs_rt hs) \<and>
    (\<forall>w. hd_writer hd = Some w \<longrightarrow> rw_req w = req)"
  using assms by (simp add: handle_stream_def respond_def newStreamWriter_def split: prod.splits)

lemma createHandler_runs:
  assumes "Request_ID req = Inr rid" "\<not> missing_job req"
  shows "\<exists>hd. createHandler p mi req hs = Inr hd \<and> rt_out (hs_rt (hd_state hd)) = rt_out (hs_rt hs) \<and>
    (\<forall>w. hd_writer hd = Some w \<longrightarrow> rw_req w = req)"
proof (cases req)
  case (RSubmitJob r)
  with assms(2) obtain job where "sj_Job r = Some job" by auto
  with RSubmitJob show ?thesis by (simp add: handler_defs newResponseWriter_def Let_def)
next
  case (RJobStatusStream r)
  with handle_stream_runs [OF assms(1)] show ?thesis by (simp add: handle_JobStatusStream_def)
next
  case (RJobOutput r)
  with handle_stream_runs [OF assms(1)] show ?thesis by simp
next
  case (RJobResourceUtil r)
  with handle_stream_runs [OF assms(1)] show ?thesis by simp
qed (simp_all add: handler_defs newResponseWriter_def Let_def)

lemma serve_request_runs:
  assumes "Request_ID req = Inr rid" "\<not> missing_job req"
  shows "\<exists>hs' rs. serve_request p mi req hs = Inr hs' \<and>
    rt_out (hs_rt hs') = rt_out (hs_rt hs) @ rs \<and> (\<forall>r\<in>set rs. answers rid r \<and> no_null_lists r)"
proof -
  obtain hd where hd: "createHandler p mi req hs = Inr hd"
    "rt_out (hs_rt (hd_state hd)) = rt_out (hs_rt hs)" "\<forall>w. hd_writer hd = Some w \<longrightarrow> rw_req w = req"
    using createHandler_runs [OF assms] by blast
  show ?thesis
  proof (cases "hd_writer hd")
    case None
    with hd show ?thesis by (simp add: serve_request_def)
  next
    case (Some w)
    with hd(3) assms(1) have "Request_ID (rw_req w) = Inr rid" by simp
    from run_calls_outcome [OF this, of "hd_calls hd" "hs_rt (hd_state hd)"] obtain rt rs where
      "run_calls w (hd_calls hd) (hs_rt (hd_state hd)) = Inr rt"
      "rt_out rt = rt_out (hs_rt (hd_state hd)) @ rs" "\<forall>r\<in>set rs. answers rid r \<and> no_null_lists r"
      by blast
    with hd Some show ?thesis by (simp add: serve_request_def)
  qed
qed


text \<open>A plugin that answers every call with an error, for the concrete runs.\<close>

definition quiet_plugin :: plugin where
  "quiet_plugin = (let e = [CErrorf CodeRequestNotSupported ''no''] in
    \<lparr>pl_SubmitJob = \<lambda>_ _. e, pl_GetJob = \<lambda>_ _ _. e, pl_GetJobs = \<lambda>_ _ _. e,
     pl_ControlJob = \<lambda>_ _ _ _. e, pl_GetJobStatus = \<lambda>_ _ _. e, pl_GetJobStatuses = \<lambda>_ _. e,
     pl_GetJobOutput = \<lambda>_ _ _ _. e, pl_GetJobResourceUtil = \<lambda>_ _ _. e, pl_GetJobNetwork = \<lambda>_ _. e,
     pl_ClusterInfo = \<lambda>_. e, pl_Bootstrap = None, pl_SyncNodes = False, pl_ReloadConfig = None\<rparr>)"

definition idle_handler :: handler_state where
  "idle_handler = \<lparr>hs_rt = new_runtime_state, hs_once = False\<rparr>"



section \<open>Submitting and controlling jobs\<close>

definition submit_user :: "string \<Rightarrow> Job \<Rightarrow> string" where
  "submit_user username job =
     (if job_User job \<noteq> '''' then job_User job else if username \<noteq> ''*'' then username else '''')"

text \<open>
  A submission reaches the plugin with the user and the profile filled in and every other
  field as it was decoded: the job's own user, or else the requesting user, and the profile
  \<^verbatim>\<open>custom\<close> where none was given. When no user results (none in the job, and the requesting user is
  empty or \<^verbatim>\<open>*\<close>) the plugin is not called and the single answer is an invalid-request error.
\<close>

theorem SubmitJob_normalised:
  assumes "sj_Job r = Some job"
  shows "createHandler p mi (RSubmitJob r) hs = Inr (respond hs (newResponseWriter (RSubmitJob r))
    (if submit_user (bu_Username r) job = '''' then
       [CErrorf CodeInvalidRequest ''User must not be empty'']
     else pl_SubmitJob p (bu_Username r)
       (job\<lparr>job_User := submit_user (bu_Username r) job,
            job_Profile := (if job_Profile job = '''' then ''custom'' else job_Profile job)\<rparr>)))"
  using assms by (auto simp: handle_SubmitJob_def submit_user_def Let_def)

theorem SubmitJob_normalised_witness:
  "createHandler quiet_plugin 0 (RSubmitJob (BaseUserRequest.extend
      (zero_BaseUserRequest\<lparr>bu_Username := ''*''\<rparr>) \<lparr>sj_Job = Some zero_Job\<rparr>)) idle_handler =
   Inr (respond idle_handler (newResponseWriter (RSubmitJob (BaseUserRequest.extend
      (zero_BaseUserRequest\<lparr>bu_Username := ''*''\<rparr>) \<lparr>sj_Job = Some zero_Job\<rparr>)))
     [CErrorf CodeInvalidRequest ''User must not be empty''])"
  by (subst SubmitJob_normalised [where job = zero_Job])
     (simp_all add: submit_user_def zero_BaseUserRequest_def zero_Job_def BaseUserRequest.defs)

text \<open>
  A control request reaches the plugin exactly when it names a single job and one of the five
  operations, and then with the operation and the status fields it carries; otherwise the plugin
  is not called and the single answer is an invalid-request error.
\<close>

theorem ControlJob_guarded:
  "(if bj_JobID r \<noteq> JobID ''*'' \<and> cj_Operation r \<in> {0..4}
    then createHandler p mi (RControlJob r) hs = Inr (respond hs (newResponseWriter (RControlJob r))
      (pl_ControlJob p (bu_Username r) (bj_JobID r) (cj_Operation r)
        \<lparr>cjo_StatusMessage = cj_StatusMessage r, cjo_StatusCode = cj_StatusCode r\<rparr>))
    else (\<exists>msg. createHandler p mi (RControlJob r) hs = Inr (respond hs (newResponseWriter (RControlJob r))
      [CErrorf CodeInvalidRequest msg])))"
proof -
  have ops: "{OperationSuspend, OperationResume, OperationStop, OperationKill, OperationCancel} = {0..4}"
    by (auto simp: api_defs)
  show ?thesis
    unfolding createHandler.simps handle_ControlJob_def ops JobID_IsWildcard_def JobIDWildcard_def Let_def
    by (cases "bj_JobID r = JobID ''*''"; cases "cj_Operation r \<in> {0..4}") auto
qed

section \<open>Starting and cancelling streams\<close>

text \<open>
  C32: A stream request gives the plugin the context of its stream; a later cancel request with the
  same ID cancels that context and no other, and forgets the stream, so that what the plugin
  still writes carries the sequence ID zero. A cancel request for which there is no stream (it
  may overtake the request it refers to, each being handled by its own goroutine) has no effect
  at all, and the stream started afterwards is not cancelled.
\<close>

theorem stream_cancelled:
  assumes "Request_ID req = Inr rid" "Request_ID cancel = Inr rid"
    and "ss_cancelled (rt_store (hs_rt hs)) \<subseteq> {..<ss_made (rt_store (hs_rt hs))}"
    and "fmlookup (ss_streams (rt_store (hs_rt hs))) rid = None"
  shows "(\<exists>started ended ctx. handle_stream req False m hs = Inr started \<and> hd_calls started = m ctx \<and>
      ctx \<notin> ss_cancelled (rt_store (hs_rt (hd_state started))) \<and>
      handle_stream cancel True m' (hd_state started) = Inr ended \<and>
      ss_cancelled (rt_store (hs_rt (hd_state ended))) = insert ctx (ss_cancelled (rt_store (hs_rt hs))) \<and>
      snd (SequenceID rid (rt_store (hs_rt (hd_state ended)))) = 0 \<and> hd_calls ended = []) \<and>
    (\<exists>ended. handle_stream cancel True m' hs = Inr ended \<and> hd_state ended = hs)"
proof -
  let ?ss = "rt_store (hs_rt hs)"
  have start: "stream_Start rid ?ss = (?ss\<lparr>ss_streams :=
      fmupd rid \<lparr>sr_Context = ss_made ?ss, sr_SeqID = 0\<rparr> (ss_streams ?ss),
      ss_made := Suc (ss_made ?ss)\<rparr>, ss_made ?ss)"
    using assms(4) by (simp add: stream_Start_def)
  have "ss_made ?ss \<notin> ss_cancelled ?ss" using assms(3) by auto
  moreover have "stream_Cancel rid ?ss = ?ss" using assms(4) by (simp add: stream_Cancel_def)
  ultimately show ?thesis
    using start assms(1,2)
    by (simp add: handle_stream_def respond_def) (auto simp: stream_Cancel_def SequenceID_def)
qed

theorem stream_cancelled_witness:
  "\<exists>ended. handle_stream example_stream True (\<lambda>_. []) idle_handler = Inr ended \<and>
     hd_state ended = idle_handler"
  using stream_cancelled [OF example_stream_id example_stream_id, of idle_handler "\<lambda>_. []" "\<lambda>_. []"]
  by (simp add: idle_handler_def new_runtime_state_def newStreamStore_def)

end
