(* ===== verification/Wire_Stream.thy ===== *)
theory Wire_Stream
  imports Wire_Requests
begin

text \<open>
  Message framing (\<^verbatim>\<open>src/internal/protocol/stream.go\<close>): every message is preceded by its length
  as four big-endian bytes. The encoder writes to an \<^verbatim>\<open>io.Writer\<close>, a parameter of the model; the
  decoder reads from an \<^verbatim>\<open>io.Reader\<close>, given by the bytes it will still deliver and the error it
  reports after them, which is all \<^verbatim>\<open>io.ReadFull\<close> depends on.
\<close>

datatype stream_error =
    IoEOF
  | IoUnexpectedEOF
  | IoError string
  | ErrMsgTooLarge
  | StreamRpc rpc_error

definition DefaultMaxMsgSize :: int where
  "DefaultMaxMsgSize = 5242880"


section \<open>The header\<close>

definition put_u32 :: "u32 \<Rightarrow> string" where
  "put_u32 w = (let n = unat w in
     [char_of (n div 16777216), char_of (n div 65536), char_of (n div 256), char_of n])"

fun get_u32 :: "string \<Rightarrow> u32" where
  "get_u32 [a, b, c, d] =
     of_nat (of_char a * 16777216 + of_char b * 65536 + of_char c * 256 + of_char d)"
| "get_u32 _ = 0"

lemma length_put_u32 [simp]: "length (put_u32 w) = 4"
  by (simp add: put_u32_def Let_def)

lemma put_u32_ne [simp]: "put_u32 w \<noteq> []"
  by (simp add: put_u32_def Let_def)

lemma base256:
  fixes n :: nat
  assumes "n < 2 ^ 32"
  shows "(n div 16777216) mod 256 * 16777216 + (n div 65536) mod 256 * 65536
    + (n div 256) mod 256 * 256 + n mod 256 = n"
proof -
  define a where "a = n div 256"
  define b where "b = a div 256"
  define c where "c = b div 256"
  have eqs: "n div 65536 = b" "n div 16777216 = c"
    by (simp_all add: a_def b_def c_def div_mult2_eq [symmetric])
  have "c < 256" using assms by (simp add: eqs(2) [symmetric] less_mult_imp_div_less)
  moreover have "n = a * 256 + n mod 256" "a = b * 256 + a mod 256" "b = c * 256 + b mod 256"
    by (simp_all add: a_def b_def c_def)
  ultimately show ?thesis unfolding eqs a_def [symmetric] by simp
qed

lemma get_put_u32 [simp]: "get_u32 (put_u32 w) = w"
proof -
  have "unat w < 2 ^ 32" using unsigned_less [of w, where ?'a = nat] by simp
  then show ?thesis using base256 [of "unat w"] by (simp add: put_u32_def Let_def)
qed


section \<open>Encoder\<close>

text \<open>A writer takes bytes and gives its next state and the error of the call, if any.\<close>

type_synonym 'w writer = "string \<Rightarrow> 'w \<Rightarrow> 'w \<times> stream_error option"

record 'w Encoder =
  enc_w :: 'w
  enc_maxSize :: int

definition NewEncoder :: "'w \<Rightarrow> int \<Rightarrow> 'w Encoder" where
  "NewEncoder w maxSize = \<lparr>enc_w = w, enc_maxSize = maxSize\<rparr>"

definition Encoder_write :: "'w writer \<Rightarrow> 'w Encoder \<Rightarrow> string \<Rightarrow> 'w Encoder \<times> stream_error option" where
  "Encoder_write wr e msg =
     (if int (length msg) > enc_maxSize e then (e, Some ErrMsgTooLarge)
      else if int (length msg) > 4294967295 then (e, Some ErrMsgTooLarge)
      else (case wr (put_u32 (of_nat (length msg))) (enc_w e) of
              (w, Some err) \<Rightarrow> (e\<lparr>enc_w := w\<rparr>, Some err)
            | (w, None) \<Rightarrow> (case wr msg w of (w', err) \<Rightarrow> (e\<lparr>enc_w := w'\<rparr>, err))))"

text \<open>\<^verbatim>\<open>json.Marshal\<close> and \<^verbatim>\<open>json.Valid\<close> are the parameters \<open>marshal\<close> and \<open>valid\<close>.\<close>

definition Encoder_Encode ::
  "('m \<Rightarrow> string option) \<Rightarrow> 'w writer \<Rightarrow> 'w Encoder \<Rightarrow> 'm \<Rightarrow> 'w Encoder \<times> stream_error option" where
  "Encoder_Encode marshal wr e msg =
     (case marshal msg of
        None \<Rightarrow> (e, Some (StreamRpc ErrMsgInvalid))
      | Some buf \<Rightarrow> Encoder_write wr e buf)"

definition Encoder_EncodeRaw ::
  "(string \<Rightarrow> bool) \<Rightarrow> 'w writer \<Rightarrow> 'w Encoder \<Rightarrow> string \<Rightarrow> 'w Encoder \<times> stream_error option" where
  "Encoder_EncodeRaw valid wr e msg =
     (if \<not> valid msg then (e, Some (StreamRpc ErrMsgInvalid)) else Encoder_write wr e msg)"


section \<open>Decoder\<close>

record reader =
  rd_data :: string
  rd_end :: stream_error

text \<open>
  \<^verbatim>\<open>io.ReadFull\<close> of \<open>n\<close> bytes: the bytes read, the reader afterwards and the error. Nothing is
  read for \<open>n = 0\<close>; an end of file in the middle becomes \<^verbatim>\<open>ErrUnexpectedEOF\<close>.
\<close>

definition ReadFull :: "reader \<Rightarrow> nat \<Rightarrow> string \<times> reader \<times> stream_error option" where
  "ReadFull r n =
     (if n \<le> length (rd_data r) then (take n (rd_data r), r\<lparr>rd_data := drop n (rd_data r)\<rparr>, None)
      else (rd_data r, r\<lparr>rd_data := []\<rparr>,
        Some (if rd_data r \<noteq> [] \<and> rd_end r = IoEOF then IoUnexpectedEOF else rd_end r)))"

text \<open>The bytes read land at the front of the destination.\<close>

definition fill :: "string \<Rightarrow> string \<Rightarrow> string" where
  "fill bs dst = bs @ drop (length bs) dst"

lemma length_fill [simp]: "length bs \<le> length dst \<Longrightarrow> length (fill bs dst) = length dst"
  by (simp add: fill_def)

record Decoder =
  dcd_r :: reader
  dcd_headerBuf :: string
  dcd_buf :: string
  dcd_msgLen :: u32
  dcd_err :: "stream_error option"

text \<open>\<^verbatim>\<open>make\<close> panics for a negative size.\<close>

definition NewDecoder :: "reader \<Rightarrow> int \<Rightarrow> Decoder go" where
  "NewDecoder r maxSize =
     (if maxSize < 0 then Inl (PanicMsg ''makeslice: len out of range'')
      else Inr \<lparr>dcd_r = r, dcd_headerBuf = replicate 4 (CHR 0x00),
        dcd_buf = replicate (nat maxSize) (CHR 0x00), dcd_msgLen = 0, dcd_err = None\<rparr>)"

definition More :: "Decoder \<Rightarrow> Decoder \<times> bool" where
  "More d =
     (if dcd_err d \<noteq> None then (d, False)
      else (case ReadFull (dcd_r d) 4 of
        (hs, r, Some err) \<Rightarrow>
          (d\<lparr>dcd_msgLen := 0, dcd_r := r, dcd_headerBuf := fill hs (dcd_headerBuf d),
             dcd_err := Some err\<rparr>, False)
      | (hs, r, None) \<Rightarrow>
          (let hdr = fill hs (dcd_headerBuf d); len = get_u32 hdr;
               d1 = d\<lparr>dcd_msgLen := len, dcd_r := r, dcd_headerBuf := hdr\<rparr>
           in if unat len > length (dcd_buf d) then (d1\<lparr>dcd_err := Some ErrMsgTooLarge\<rparr>, False)
              else (case ReadFull r (unat len) of (bs, r', err) \<Rightarrow>
                (d1\<lparr>dcd_r := r', dcd_buf := fill bs (dcd_buf d), dcd_err := err\<rparr>, err = None)))))"

text \<open>The slice \<^verbatim>\<open>d.buf[:d.msgLen]\<close>, which panics when it reaches past the buffer.\<close>

definition Decoder_msg :: "Decoder \<Rightarrow> string go" where
  "Decoder_msg d = (if unat (dcd_msgLen d) \<le> length (dcd_buf d)
     then Inr (take (unat (dcd_msgLen d)) (dcd_buf d)) else Inl IndexOutOfRange)"

definition Decoder_Request :: "json_env \<Rightarrow> Decoder \<Rightarrow> (Decoder \<times> Request option) go" where
  "Decoder_Request env d =
     (if dcd_err d \<noteq> None then Inr (d, None)
      else andThen (Decoder_msg d) (\<lambda>buf.
        case RequestFromJSON env buf of
          Inl err \<Rightarrow> Inr (d\<lparr>dcd_err := Some (StreamRpc err)\<rparr>, None)
        | Inr req \<Rightarrow> Inr (d, Some req)))"

text \<open>Decoding into a \<^verbatim>\<open>RawMessage\<close> keeps the bytes of the value and drops the space around it.\<close>

definition json_space :: "char \<Rightarrow> bool" where
  "json_space c \<longleftrightarrow> c \<in> {CHR '' '', CHR 0x09, CHR 0x0A, CHR 0x0D}"

definition json_trim :: "string \<Rightarrow> string" where
  "json_trim s = rev (dropWhile json_space (rev (dropWhile json_space s)))"

definition Decoder_Raw :: "(string \<Rightarrow> bool) \<Rightarrow> Decoder \<Rightarrow> (Decoder \<times> string option) go" where
  "Decoder_Raw valid d =
     (if dcd_err d \<noteq> None then Inr (d, None)
      else andThen (Decoder_msg d) (\<lambda>buf.
        let msg = (if valid buf then json_trim buf else []) in
        if \<not> valid msg then Inr (d\<lparr>dcd_err := Some (StreamRpc ErrMsgInvalid)\<rparr>, None)
        else Inr (d, Some msg)))"

definition Decoder_MsgSize :: "Decoder \<Rightarrow> u32" where
  "Decoder_MsgSize d = dcd_msgLen d"

text \<open>\<^verbatim>\<open>Err\<close> hides the end of file; it adds a fixed prefix to the text of any other error.\<close>

definition Decoder_Err :: "Decoder \<Rightarrow> stream_error option" where
  "Decoder_Err d =
     (if dcd_err d = None \<or> dcd_err d = Some IoEOF then None else dcd_err d)"

section \<open>The frame of a message\<close>

definition frame :: "string \<Rightarrow> string" where
  "frame m = put_u32 (of_nat (length m)) @ m"

definition fits :: "Decoder \<Rightarrow> string \<Rightarrow> bool" where
  "fits d m \<longleftrightarrow> length m \<le> length (dcd_buf d) \<and> length m < 2 ^ 32"

definition ready :: "Decoder \<Rightarrow> bool" where
  "ready d \<longleftrightarrow> dcd_err d = None \<and> length (dcd_headerBuf d) = 4"

definition pending :: "Decoder \<Rightarrow> string" where
  "pending d = rd_data (dcd_r d)"

text \<open>One turn of the loop \<^verbatim>\<open>for d.More() { ... }\<close>, with the message the body sees.\<close>

definition next_msg :: "Decoder \<Rightarrow> Decoder \<times> string option" where
  "next_msg d = (case More d of
     (d', b) \<Rightarrow> (d', if b then Some (take (unat (dcd_msgLen d')) (dcd_buf d')) else None))"

fun read_msgs :: "('d \<Rightarrow> 'd \<times> 'm option) \<Rightarrow> nat \<Rightarrow> 'd \<Rightarrow> 'm list \<times> 'd" where
  "read_msgs nxt 0 d = ([], d)"
| "read_msgs nxt (Suc n) d = (case nxt d of
     (d', None) \<Rightarrow> ([], d')
   | (d', Some m) \<Rightarrow> (case read_msgs nxt n d' of (ms, d'') \<Rightarrow> (m # ms, d'')))"

fun write_all :: "'w writer \<Rightarrow> 'w Encoder \<Rightarrow> string list \<Rightarrow> 'w Encoder \<times> stream_error option" where
  "write_all wr e [] = (e, None)"
| "write_all wr e (m # ms) = (case Encoder_write wr e m of
     (e', None) \<Rightarrow> write_all wr e' ms
   | (e', Some err) \<Rightarrow> (e', Some err))"

text \<open>
  A codec: a reader that finds the bytes of a message it can hold in front of its input takes
  exactly these bytes and returns the message. Whole sequences then come back in order.
\<close>

locale stream_codec =
  fixes put :: "'m \<Rightarrow> string"
    and nxt :: "'d \<Rightarrow> 'd \<times> 'm option"
    and ready :: "'d \<Rightarrow> bool"
    and pending :: "'d \<Rightarrow> string"
    and fits :: "'d \<Rightarrow> 'm \<Rightarrow> bool"
    and ending :: "'d \<Rightarrow> 'e"
  assumes nxt_put: "ready d \<Longrightarrow> fits d m \<Longrightarrow> pending d = put m @ rest \<Longrightarrow>
    \<exists>d'. nxt d = (d', Some m) \<and> ready d' \<and> pending d' = rest \<and> fits d' = fits d
      \<and> ending d' = ending d"
begin

lemma read_msgs_put:
  assumes "ready d" "\<forall>m\<in>set ms. fits d m" "pending d = concat (map put ms) @ rest"
  shows "\<exists>d'. ready d' \<and> pending d' = rest \<and> fits d' = fits d \<and> ending d' = ending d \<and>
    (\<forall>k. read_msgs nxt (length ms + k) d =
       (ms @ fst (read_msgs nxt k d'), snd (read_msgs nxt k d')))"
  using assms
proof (induction ms arbitrary: d)
  case (Cons m ms)
  then obtain d1 where d1: "nxt d = (d1, Some m)" "ready d1"
    "pending d1 = concat (map put ms) @ rest" "fits d1 = fits d" "ending d1 = ending d"
    using nxt_put [of d m "concat (map put ms) @ rest"] by auto
  with Cons.prems(2) have "\<forall>m\<in>set ms. fits d1 m" by simp
  from Cons.IH [OF d1(2) this d1(3)] obtain d' where
    "ready d'" "pending d' = rest" "fits d' = fits d1" "ending d' = ending d1"
    "\<forall>k. read_msgs nxt (length ms + k) d1 =
       (ms @ fst (read_msgs nxt k d'), snd (read_msgs nxt k d'))"
    by blast
  with d1 show ?case by (intro exI [of _ d']) simp
qed auto

end

lemma ReadFull_enough:
  "rd_data r = bs @ rest \<Longrightarrow> n = length bs \<Longrightarrow> ReadFull r n = (bs, r\<lparr>rd_data := rest\<rparr>, None)"
  by (simp add: ReadFull_def)

lemma fill_header: "length hs = 4 \<Longrightarrow> length old = 4 \<Longrightarrow> fill hs old = hs"
  by (simp add: fill_def)

lemma More_header:
  assumes "ready d" "pending d = put_u32 len @ rest"
  shows "More d = (let d1 = d\<lparr>dcd_msgLen := len, dcd_r := (dcd_r d)\<lparr>rd_data := rest\<rparr>,
             dcd_headerBuf := put_u32 len\<rparr> in
     if unat len > length (dcd_buf d) then (d1\<lparr>dcd_err := Some ErrMsgTooLarge\<rparr>, False)
     else (case ReadFull (dcd_r d1) (unat len) of (bs, r', err) \<Rightarrow>
       (d1\<lparr>dcd_r := r', dcd_buf := fill bs (dcd_buf d), dcd_err := err\<rparr>, err = None)))"
proof -
  have "ReadFull (dcd_r d) 4 = (put_u32 len, (dcd_r d)\<lparr>rd_data := rest\<rparr>, None)"
    using assms(2) by (intro ReadFull_enough) (simp_all add: pending_def)
  then show ?thesis using assms(1) by (simp add: More_def ready_def fill_header Let_def)
qed

lemma unat_of_length: "length m < 2 ^ 32 \<Longrightarrow> unat (of_nat (length m) :: u32) = length m"
  by (simp add: unsigned_of_nat take_bit_nat_eq_self)

lemma next_msg_frame:
  assumes "ready d" "fits d m" "pending d = frame m @ rest"
  shows "\<exists>d'. next_msg d = (d', Some m) \<and> ready d' \<and> pending d' = rest \<and> fits d' = fits d
      \<and> rd_end (dcd_r d') = rd_end (dcd_r d)"
proof -
  have len: "unat (of_nat (length m) :: u32) = length m" "length m \<le> length (dcd_buf d)"
    using assms(2) by (simp_all add: fits_def unat_of_length)
  have "ReadFull ((dcd_r d)\<lparr>rd_data := m @ rest\<rparr>) (length m) =
      (m, (dcd_r d)\<lparr>rd_data := rest\<rparr>, None)"
    by (subst ReadFull_enough) simp_all
  then show ?thesis
    using More_header [OF assms(1), of "of_nat (length m)" "m @ rest"] assms len
    by (auto simp: next_msg_def frame_def Let_def ready_def pending_def fits_def fun_eq_iff fill_def)
qed

interpretation framing: stream_codec frame next_msg ready pending fits "\<lambda>d. rd_end (dcd_r d)"
  by unfold_locales (rule next_msg_frame)

section \<open>Round trip and truncation\<close>

lemma More_empty:
  assumes "ready d" "pending d = []"
  shows "More d = (d\<lparr>dcd_msgLen := 0, dcd_err := Some (rd_end (dcd_r d))\<rparr>, False)"
proof -
  have "(dcd_r d)\<lparr>rd_data := []\<rparr> = dcd_r d" using assms(2) by (simp add: pending_def)
  then show ?thesis using assms by (simp add: More_def ready_def pending_def ReadFull_def fill_def)
qed

lemma read_msgs_empty:
  assumes "ready d" "pending d = []" "rd_end (dcd_r d) = IoEOF"
  shows "\<exists>d'. read_msgs next_msg (Suc k) d = ([], d') \<and> dcd_err d' = Some IoEOF"
  by (simp add: next_msg_def More_empty assms)

lemma Encoder_write_frame:
  assumes "\<forall>b w. snd (wr b w) = None \<longrightarrow> contents (fst (wr b w)) = contents w @ b"
    and "Encoder_write wr e m = (e', None)"
  shows "contents (enc_w e') = contents (enc_w e) @ frame m \<and> enc_maxSize e' = enc_maxSize e \<and>
    int (length m) \<le> enc_maxSize e \<and> length m < 2 ^ 32"
proof -
  from assms(2) obtain w w' where
    w: "wr (put_u32 (of_nat (length m))) (enc_w e) = (w, None)" "wr m w = (w', None)"
    and e': "e' = e\<lparr>enc_w := w'\<rparr>" "int (length m) \<le> enc_maxSize e" "int (length m) \<le> 4294967295"
    by (auto simp: Encoder_write_def split: if_splits prod.splits option.splits)
  have "contents w = contents (enc_w e) @ put_u32 (of_nat (length m))" "contents w' = contents w @ m"
    using assms(1)[rule_format, of "put_u32 (of_nat (length m))" "enc_w e"]
      assms(1)[rule_format, of m w] w by simp_all
  with e' show ?thesis by (simp add: frame_def)
qed

lemma write_all_frames:
  assumes "\<forall>b w. snd (wr b w) = None \<longrightarrow> contents (fst (wr b w)) = contents w @ b"
    and "write_all wr e ms = (e', None)"
  shows "contents (enc_w e') = contents (enc_w e) @ concat (map frame ms) \<and>
    (\<forall>m\<in>set ms. int (length m) \<le> enc_maxSize e \<and> length m < 2 ^ 32)"
  using assms(2)
proof (induction ms arbitrary: e)
  case (Cons m ms)
  then obtain e1 where e1: "Encoder_write wr e m = (e1, None)" "write_all wr e1 ms = (e', None)"
    by (auto split: prod.splits option.splits)
  from Encoder_write_frame [OF assms(1) e1(1)] Cons.IH [OF e1(2)] show ?case by simp
qed simp

lemma NewDecoder_ready:
  "NewDecoder r n = Inr d \<Longrightarrow>
     ready d \<and> pending d = rd_data r \<and> dcd_r d = r \<and> length (dcd_buf d) = nat n \<and> 0 \<le> n"
  by (auto simp: NewDecoder_def ready_def pending_def split: if_splits)

text \<open>
  C15: What an encoder wrote without an error, a decoder with at least the encoder's message size
  reads back: the same messages in the same order, then the end of the stream, which \<^verbatim>\<open>Err\<close> does
  not report as an error. The writer is any \<^verbatim>\<open>io.Writer\<close> that keeps its contract (a call that
  returns no error wrote all of its bytes).
\<close>

theorem stream_roundtrip:
  assumes "\<forall>b w. snd (wr b w) = None \<longrightarrow> contents (fst (wr b w)) = contents w @ b"
    and "contents w = []"
    and "write_all wr (NewEncoder w encSize) ms = (e, None)"
    and "NewDecoder \<lparr>rd_data = contents (enc_w e), rd_end = IoEOF\<rparr> decSize = Inr d"
    and "encSize \<le> decSize"
  shows "\<exists>d'. read_msgs next_msg (length ms + Suc k) d = (ms, d') \<and>
    dcd_err d' = Some IoEOF \<and> Decoder_Err d' = None"
proof -
  have fr: "contents (enc_w e) = concat (map frame ms)"
    "\<forall>m\<in>set ms. int (length m) \<le> encSize \<and> length m < 2 ^ 32"
    using write_all_frames [OF assms(1,3)] assms(2) by (simp_all add: NewEncoder_def)
  have d: "ready d" "pending d = concat (map frame ms) @ []" "rd_end (dcd_r d) = IoEOF"
    "length (dcd_buf d) = nat decSize"
    using NewDecoder_ready [OF assms(4)] fr(1) by auto
  have "\<forall>m\<in>set ms. fits d m" using fr(2) d(4) assms(5) by (force simp: fits_def)
  from framing.read_msgs_put [OF d(1) this d(2)] obtain d1 where
    d1: "ready d1" "pending d1 = []" "rd_end (dcd_r d1) = IoEOF" and
    rd: "\<forall>k. read_msgs next_msg (length ms + k) d =
       (ms @ fst (read_msgs next_msg k d1), snd (read_msgs next_msg k d1))"
    using d(3) by auto
  from read_msgs_empty [OF d1, of k] obtain d' where
    "read_msgs next_msg (Suc k) d1 = ([], d')" "dcd_err d' = Some IoEOF" by blast
  with rd [rule_format, of "Suc k"] show ?thesis by (simp add: Decoder_Err_def)
qed

text \<open>An in-memory writer, for the concrete run.\<close>

definition buffer_writer :: "string writer" where
  "buffer_writer b w = (w @ b, None)"

theorem stream_roundtrip_witness:
  "\<exists>d d'. NewDecoder \<lparr>rd_data = frame ''{}'' @ frame ''[1]'', rd_end = IoEOF\<rparr> 10 = Inr d \<and>
     read_msgs next_msg 3 d = ([''{}'', ''[1]''], d') \<and> Decoder_Err d' = None"
proof -
  have enc: "write_all buffer_writer (NewEncoder [] 10) [''{}'', ''[1]''] =
      (\<lparr>enc_w = frame ''{}'' @ frame ''[1]'', enc_maxSize = 10\<rparr>, None)"
    by (simp add: Encoder_write_def buffer_writer_def NewEncoder_def frame_def)
  obtain d where d: "NewDecoder \<lparr>rd_data = frame ''{}'' @ frame ''[1]'', rd_end = IoEOF\<rparr> 10 = Inr d"
    by (simp add: NewDecoder_def)
  show ?thesis
    using stream_roundtrip [where wr = buffer_writer and contents = "\<lambda>w. w" and w = "[]" and k = 0, OF _ _ enc, of 10 d] d
    by (auto simp: buffer_writer_def numeral_3_eq_3)
qed

lemma More_cut_header:
  assumes "ready d" "pending d = bs" "bs \<noteq> []" "length bs < 4" "rd_end (dcd_r d) = IoEOF"
  shows "\<exists>d'. More d = (d', False) \<and> dcd_err d' = Some IoUnexpectedEOF"
  using assms by (simp add: More_def ready_def pending_def ReadFull_def)

lemma More_cut_body:
  assumes "ready d" "fits d m" "pending d = put_u32 (of_nat (length m)) @ bs"
    "length bs < length m" "rd_end (dcd_r d) = IoEOF"
  shows "\<exists>d'. More d = (d', False) \<and>
    dcd_err d' = Some (if bs = [] then IoEOF else IoUnexpectedEOF)"
  using assms More_header [OF assms(1,3)]
  by (simp add: ReadFull_def fits_def unat_of_length)

text \<open>
  C31: A stream cut off inside its last message: the messages before the cut are delivered, then
  the loop ends. The cut is reported as an unexpected end of file, except when nothing of the
  last message is left or exactly its four header bytes are: in that last case the lost message
  goes unreported, as if the stream had ended cleanly.
\<close>

theorem stream_truncated:
  assumes "NewDecoder \<lparr>rd_data = concat (map frame ms) @ take k (frame m), rd_end = IoEOF\<rparr> maxSize = Inr d"
    and "\<forall>x\<in>set (ms @ [m]). int (length x) \<le> maxSize \<and> length x < 2 ^ 32"
    and "k < length (frame m)"
  shows "\<exists>d'. read_msgs next_msg (Suc (length ms)) d = (ms, d') \<and>
    Decoder_Err d' = (if k = 0 \<or> k = 4 then None else Some IoUnexpectedEOF)"
proof -
  have d: "ready d" "pending d = concat (map frame ms) @ take k (frame m)"
    "rd_end (dcd_r d) = IoEOF" "length (dcd_buf d) = nat maxSize"
    using NewDecoder_ready [OF assms(1)] by auto
  have fit: "\<forall>x\<in>set ms. fits d x" "fits d m" using assms(2) d(4) by (force simp: fits_def)+
  from framing.read_msgs_put [OF d(1) fit(1) d(2)] obtain d1 where
    d1: "ready d1" "pending d1 = take k (frame m)" "rd_end (dcd_r d1) = IoEOF" "fits d1 m" and
    rd: "read_msgs next_msg (Suc (length ms)) d =
       (ms @ fst (read_msgs next_msg 1 d1), snd (read_msgs next_msg 1 d1))"
    using d(3) fit(2) by (auto dest: spec [where x = 1])
  have "\<exists>d'. More d1 = (d', False) \<and>
    dcd_err d' = Some (if k = 0 \<or> k = 4 then IoEOF else IoUnexpectedEOF)"
  proof (cases "k < 4")
    case True
    with More_cut_header [OF d1(1,2)] More_empty [OF d1(1)] d1 show ?thesis
      by (auto simp: frame_def)
  next
    case False
    then have "pending d1 = put_u32 (of_nat (length m)) @ take (k - 4) m"
      using d1(2) by (simp add: frame_def)
    moreover have "length (take (k - 4) m) < length m" using False assms(3) by (simp add: frame_def)
    moreover have "take (k - 4) m = [] \<longleftrightarrow> k = 4" using False assms(3) by (auto simp: frame_def)
    ultimately show ?thesis using More_cut_body [OF d1(1,4)] False d1(3) by auto
  qed
  then show ?thesis unfolding rd by (auto simp: next_msg_def Decoder_Err_def split: if_splits)
qed

theorem stream_truncated_witness:
  "\<exists>d d'. NewDecoder \<lparr>rd_data = frame ''{}'' @ take 4 (frame ''[1]''), rd_end = IoEOF\<rparr> 10 = Inr d \<and>
     read_msgs next_msg 2 d = ([''{}''], d') \<and> Decoder_Err d' = None"
proof -
  obtain d where d: "NewDecoder \<lparr>rd_data = concat (map frame [''{}'']) @ take 4 (frame ''[1]''),
      rd_end = IoEOF\<rparr> 10 = Inr d"
    by (simp add: NewDecoder_def)
  have two: "2 = Suc (length [''{}''])" by simp
  show ?thesis
    unfolding two using stream_truncated [OF d] d by (auto simp: frame_def)
qed

section \<open>The decoder never slices past its buffer\<close>

inductive decoder_step :: "json_env \<Rightarrow> (string \<Rightarrow> bool) \<Rightarrow> Decoder \<Rightarrow> Decoder \<Rightarrow> bool"
  for env :: json_env and valid :: "string \<Rightarrow> bool" where
  step_More: "More d = (d', b) \<Longrightarrow> decoder_step env valid d d'"
| step_Request: "Decoder_Request env d = Inr (d', r) \<Longrightarrow> decoder_step env valid d d'"
| step_Raw: "Decoder_Raw valid d = Inr (d', r) \<Longrightarrow> decoder_step env valid d d'"

definition decoder_start :: "int \<Rightarrow> Decoder \<Rightarrow> bool" where
  "decoder_start n d \<longleftrightarrow> (\<exists>r. NewDecoder r n = Inr d)"

definition decoder_ok :: "int \<Rightarrow> Decoder \<Rightarrow> bool" where
  "decoder_ok n d \<longleftrightarrow> length (dcd_buf d) = nat n \<and> length (dcd_headerBuf d) = 4 \<and>
     (dcd_err d = None \<longrightarrow> unat (dcd_msgLen d) \<le> nat n)"

lemma ReadFull_length: "ReadFull r n = (bs, r', err) \<Longrightarrow> length bs \<le> n"
  by (auto simp: ReadFull_def split: if_splits)

lemma More_ok: "decoder_ok n d \<Longrightarrow> More d = (d', b) \<Longrightarrow> decoder_ok n d'"
  by (auto simp: More_def decoder_ok_def Let_def dest!: ReadFull_length
      split: if_splits prod.splits option.splits)

lemma Decoder_Request_ok:
  "decoder_ok n d \<Longrightarrow> Decoder_Request env d = Inr (d', r) \<Longrightarrow> decoder_ok n d'"
  by (auto simp: Decoder_Request_def decoder_ok_def case_sum_eq_iff split: if_splits)

lemma Decoder_Raw_ok:
  "decoder_ok n d \<Longrightarrow> Decoder_Raw valid d = Inr (d', r) \<Longrightarrow> decoder_ok n d'"
  by (auto simp: Decoder_Raw_def decoder_ok_def Let_def split: if_splits)

interpretation decoder: inductive_invariant "decoder_start n" "decoder_step env valid" "decoder_ok n"
proof unfold_locales
  fix d assume "decoder_start n d"
  then show "decoder_ok n d"
    by (auto simp: decoder_start_def NewDecoder_def decoder_ok_def split: if_splits)
next
  fix d d' assume "decoder_ok n d" "decoder_step env valid d d'"
  from this(2,1) show "decoder_ok n d'"
    by cases (auto intro: More_ok Decoder_Request_ok Decoder_Raw_ok)
qed

text \<open>
  C30: Whatever calls are made on a decoder and in whatever order, and whatever bytes arrive,
  \<^verbatim>\<open>Request\<close> and \<^verbatim>\<open>Raw\<close> never slice past the buffer (which would panic), and the buffer keeps the
  size it was made with, however large the lengths the headers announce.
\<close>

theorem decoder_never_panics:
  assumes "reachable (decoder_start n) (decoder_step env valid) d"
  shows "(\<exists>res. Decoder_Request env d = Inr res) \<and> (\<exists>res. Decoder_Raw valid d = Inr res) \<and>
    length (dcd_buf d) = nat n"
proof -
  have ok: "decoder_ok n d" by (rule decoder.reachable_invar [OF assms])
  show ?thesis
  proof (cases "dcd_err d")
    case None
    with ok have "\<exists>msg. Decoder_msg d = Inr msg" by (simp add: decoder_ok_def Decoder_msg_def)
    then obtain msg where "Decoder_msg d = Inr msg" ..
    with ok None show ?thesis
      by (cases "RequestFromJSON env msg")
         (simp_all add: Decoder_Request_def Decoder_Raw_def Let_def decoder_ok_def)
  next
    case (Some err)
    with ok show ?thesis by (simp add: Decoder_Request_def Decoder_Raw_def decoder_ok_def)
  qed
qed

definition hostile_decoder :: Decoder where
  "hostile_decoder = \<lparr>dcd_r = \<lparr>rd_data = put_u32 4000000000, rd_end = IoEOF\<rparr>,
     dcd_headerBuf = replicate 4 (CHR 0x00), dcd_buf = replicate 8 (CHR 0x00), dcd_msgLen = 0,
     dcd_err = None\<rparr>"

theorem decoder_never_panics_witness:
  "dcd_err (fst (More hostile_decoder)) = Some ErrMsgTooLarge \<and>
   (\<exists>res. Decoder_Request (example_env ''b'' JNull) (fst (More hostile_decoder)) = Inr res)"
proof -
  let ?d = "hostile_decoder" and ?env = "example_env ''b'' JNull" and ?v = "\<lambda>_. True"
  have "NewDecoder \<lparr>rd_data = put_u32 4000000000, rd_end = IoEOF\<rparr> 8 = Inr ?d"
    by (simp add: NewDecoder_def hostile_decoder_def)
  then have "reachable (decoder_start 8) (decoder_step ?env ?v) ?d"
    by (intro reachable.reach_start) (auto simp: decoder_start_def)
  moreover have "decoder_step ?env ?v ?d (fst (More ?d))"
    by (rule step_More [where b = "snd (More ?d)"]) simp
  ultimately have r: "reachable (decoder_start 8) (decoder_step ?env ?v) (fst (More ?d))"
    by (rule reachable.reach_step)
  have "dcd_err (fst (More ?d)) = Some ErrMsgTooLarge"
    using More_header [of ?d 4000000000 "[]"]
    by (simp add: hostile_decoder_def ready_def pending_def Let_def)
  then show ?thesis using decoder_never_panics [OF r] by blast
qed

end
