(* ===== verification/Wire_Serve.thy ===== *)
theory Wire_Serve
  imports Wire_Stream
begin

text \<open>
  The communicator (\<^verbatim>\<open>src/internal/protocol/communicator.go\<close>): \<^verbatim>\<open>Serve\<close> runs a reader goroutine, a
  writer goroutine, one goroutine per request and its own select loop, which meet only on
  channels and a wait group. Each goroutine is a program counter and a step function; a step is
  one channel operation (with the computation up to the next one), and the step relation
  interleaves them freely, together with the cancellation of the context.

  A step that panics records the panic and ends every goroutine. The result \<^term>\<open>None\<close> of a step
  function is a goroutine that is blocked or has ended. The handler is the argument of \<^verbatim>\<open>Serve\<close>
  and a parameter here: \<open>sends req ms\<close> holds when it may answer \<open>req\<close> with the responses \<open>ms\<close>.
\<close>

record 'w Communicator =
  co_enc :: "'w Encoder"
  co_dec :: Decoder

definition NewCommunicator :: "reader \<Rightarrow> 'w \<Rightarrow> int \<Rightarrow> 'w Communicator go" where
  "NewCommunicator r w maxSize = andThen (NewDecoder r maxSize)
     (\<lambda>d. Inr \<lparr>co_enc = NewEncoder w maxSize, co_dec = d\<rparr>)"


section \<open>The state of \<^verbatim>\<open>Serve\<close>\<close>

datatype reader_pc = RdLoop | RdPut Request | RdCheck | RdErr stream_error | RdClose | RdGone

datatype writer_pc = WrLoop | WrErr stream_error | WrStop | WrGone

datatype main_pc = Selecting | Waiting | Closing | AwaitDone | Finishing | Returned "stream_error option"

text \<open>
  A handler goroutine: its request, everything it will send, what is left of that, and whether it
  called \<^verbatim>\<open>wg.Done\<close>. Goroutines that ended stay in the list, so that a position names a goroutine.
\<close>

record 'm handler_run =
  hr_req :: Request
  hr_all :: "'m list"
  hr_left :: "'m list"
  hr_done :: bool

text \<open>
  The last four fields record the history: the requests decoded, the responses put on the channel
  with the goroutine each came from, the responses the writer took, and its encoding error.
\<close>

record ('m, 'w) serve_state =
  sv_dec :: Decoder
  sv_enc :: "'w Encoder"
  sv_reader :: reader_pc
  sv_writer :: writer_pc
  sv_main :: main_pc
  sv_err :: "stream_error option"
  sv_reqCh :: "Request chan"
  sv_respCh :: "'m chan"
  sv_errCh :: "stream_error chan"
  sv_cancelled :: bool
  sv_panic :: "go_panic option"
  sv_handlers :: "'m handler_run list"
  sv_read :: "Request list"
  sv_sent :: "(nat \<times> 'm) list"
  sv_taken :: "'m list"
  sv_encErr :: "stream_error option"

definition Serve_init :: "'w Communicator \<Rightarrow> ('m, 'w) serve_state" where
  "Serve_init c = \<lparr>sv_dec = co_dec c, sv_enc = co_enc c, sv_reader = RdLoop, sv_writer = WrLoop,
     sv_main = Selecting, sv_err = None, sv_reqCh = make_chan 100, sv_respCh = make_chan 100,
     sv_errCh = make_chan 1, sv_cancelled = False, sv_panic = None, sv_handlers = [], sv_read = [],
     sv_sent = [], sv_taken = [], sv_encErr = None\<rparr>"

text \<open>A blocking send: no step while the channel is full.\<close>

definition chan_send :: "'a \<Rightarrow> 'a chan \<Rightarrow> ('a chan \<Rightarrow> 's go) \<Rightarrow> 's go option" where
  "chan_send x c k = (case chan_try_send x c of
     Inl p \<Rightarrow> Some (Inl p)
   | Inr (c', sent) \<Rightarrow> if sent then Some (k c') else None)"


section \<open>The goroutines\<close>

definition reader_step :: "json_env \<Rightarrow> ('m, 'w) serve_state \<Rightarrow> ('m, 'w) serve_state go option" where
  "reader_step env s = (case sv_reader s of
     RdLoop \<Rightarrow> Some (case More (sv_dec s) of
         (d, False) \<Rightarrow> Inr (s\<lparr>sv_dec := d, sv_reader := RdCheck\<rparr>)
       | (d, True) \<Rightarrow> andThen (Decoder_Request env d) (\<lambda>(d', r). Inr (case r of
             None \<Rightarrow> s\<lparr>sv_dec := d', sv_reader := RdCheck\<rparr>
           | Some req \<Rightarrow> s\<lparr>sv_dec := d', sv_reader := RdPut req, sv_read := sv_read s @ [req]\<rparr>)))
   | RdPut req \<Rightarrow> chan_send req (sv_reqCh s) (\<lambda>c.
       andThen (Request_ID req) (\<lambda>_. andThen (Request_Type req) (\<lambda>_.
         Inr (s\<lparr>sv_reqCh := c, sv_reader := RdLoop\<rparr>))))
   | RdCheck \<Rightarrow> Some (Inr (s\<lparr>sv_reader := (case Decoder_Err (sv_dec s) of
         None \<Rightarrow> RdClose | Some e \<Rightarrow> RdErr e)\<rparr>))
   | RdErr e \<Rightarrow> chan_send e (sv_errCh s) (\<lambda>c. Inr (s\<lparr>sv_errCh := c, sv_reader := RdClose\<rparr>))
   | RdClose \<Rightarrow> Some (andThen (chan_close (sv_reqCh s)) (\<lambda>c.
       Inr (s\<lparr>sv_reqCh := c, sv_reader := RdGone\<rparr>)))
   | RdGone \<Rightarrow> None)"

definition writer_step ::
  "('m \<Rightarrow> string option) \<Rightarrow> 'w writer \<Rightarrow> ('m, 'w) serve_state \<Rightarrow> ('m, 'w) serve_state go option" where
  "writer_step marshal wr s = (case sv_writer s of
     WrLoop \<Rightarrow> (case chan_buf (sv_respCh s) of
         m # ms \<Rightarrow> Some (Inr (case Encoder_Encode marshal wr (sv_enc s) m of
           (e, err) \<Rightarrow> s\<lparr>sv_respCh := (sv_respCh s)\<lparr>chan_buf := ms\<rparr>, sv_enc := e,
             sv_writer := (case err of None \<Rightarrow> WrLoop | Some er \<Rightarrow> WrErr er),
             sv_taken := sv_taken s @ [m], sv_encErr := err\<rparr>))
       | [] \<Rightarrow> if chan_closed (sv_respCh s) then Some (Inr (s\<lparr>sv_writer := WrStop\<rparr>)) else None)
   | WrErr e \<Rightarrow> chan_send e (sv_errCh s) (\<lambda>c. Inr (s\<lparr>sv_errCh := c, sv_writer := WrStop\<rparr>))
   | WrStop \<Rightarrow> None
   | WrGone \<Rightarrow> None)"

text \<open>A handler goroutine: one send on the response channel, or \<^verbatim>\<open>wg.Done\<close> when it has returned.\<close>

definition handler_step :: "nat \<Rightarrow> ('m, 'w) serve_state \<Rightarrow> ('m, 'w) serve_state go option" where
  "handler_step i s = (if i < length (sv_handlers s) \<and> \<not> hr_done (sv_handlers s ! i) then
     (let h = sv_handlers s ! i in case hr_left h of
        [] \<Rightarrow> Some (Inr (s\<lparr>sv_handlers := (sv_handlers s)[i := h\<lparr>hr_done := True\<rparr>]\<rparr>))
      | m # ms \<Rightarrow> chan_send m (sv_respCh s) (\<lambda>c. Inr (s\<lparr>sv_respCh := c,
          sv_handlers := (sv_handlers s)[i := h\<lparr>hr_left := ms\<rparr>],
          sv_sent := sv_sent s @ [(i, m)]\<rparr>)))
     else None)"

text \<open>The branches of the select, each enabled when its channel is ready.\<close>

definition select_cancel :: "('m, 'w) serve_state \<Rightarrow> ('m, 'w) serve_state option" where
  "select_cancel s = (if sv_main s = Selecting \<and> sv_cancelled s
     then Some (s\<lparr>sv_main := Waiting\<rparr>) else None)"

definition select_err :: "('m, 'w) serve_state \<Rightarrow> ('m, 'w) serve_state option" where
  "select_err s = (if sv_main s = Selecting then (case chan_buf (sv_errCh s) of
       [] \<Rightarrow> None
     | e # es \<Rightarrow> Some (s\<lparr>sv_errCh := (sv_errCh s)\<lparr>chan_buf := es\<rparr>, sv_err := Some e, sv_main := Waiting\<rparr>))
   else None)"

definition start_handler :: "Request \<Rightarrow> 'm list \<Rightarrow> ('m, 'w) serve_state \<Rightarrow> ('m, 'w) serve_state" where
  "start_handler req ms s = s\<lparr>sv_handlers := sv_handlers s @
     [\<lparr>hr_req = req, hr_all = ms, hr_left = ms, hr_done = False\<rparr>]\<rparr>"

text \<open>The answer of the handler is picked when its goroutine is started.\<close>

definition select_req ::
  "(Request \<Rightarrow> 'm list) \<Rightarrow> ('m, 'w) serve_state \<Rightarrow> ('m, 'w) serve_state option" where
  "select_req answer s = (if sv_main s = Selecting then (case chan_buf (sv_reqCh s) of
       req # rs \<Rightarrow> Some (start_handler req (answer req) (s\<lparr>sv_reqCh := (sv_reqCh s)\<lparr>chan_buf := rs\<rparr>\<rparr>))
     | [] \<Rightarrow> if chan_closed (sv_reqCh s) then Some (s\<lparr>sv_main := Waiting\<rparr>) else None)
   else None)"

text \<open>After the loop: the wait group, closing the response channel, the writer's end and the result.\<close>

definition main_step :: "('m, 'w) serve_state \<Rightarrow> ('m, 'w) serve_state go option" where
  "main_step s = (case sv_main s of
     Selecting \<Rightarrow> None
   | Waiting \<Rightarrow> if list_all hr_done (sv_handlers s) then Some (Inr (s\<lparr>sv_main := Closing\<rparr>)) else None
   | Closing \<Rightarrow> Some (andThen (chan_close (sv_respCh s)) (\<lambda>c.
       Inr (s\<lparr>sv_respCh := c, sv_main := AwaitDone\<rparr>)))
   | AwaitDone \<Rightarrow> if sv_writer s = WrStop
       then Some (Inr (s\<lparr>sv_writer := WrGone, sv_main := Finishing\<rparr>)) else None
   | Finishing \<Rightarrow> Some (Inr (if sv_err s \<noteq> None then s\<lparr>sv_main := Returned (sv_err s)\<rparr>
       else (case chan_buf (sv_errCh s) of
          [] \<Rightarrow> s\<lparr>sv_main := Returned None\<rparr>
        | e # es \<Rightarrow> s\<lparr>sv_errCh := (sv_errCh s)\<lparr>chan_buf := es\<rparr>, sv_main := Returned (Some e)\<rparr>)))
   | Returned r \<Rightarrow> None)"

definition settle :: "('m, 'w) serve_state \<Rightarrow> ('m, 'w) serve_state go \<Rightarrow> ('m, 'w) serve_state" where
  "settle s r = (case r of Inl p \<Rightarrow> s\<lparr>sv_panic := Some p\<rparr> | Inr t \<Rightarrow> t)"

inductive serve_step ::
  "json_env \<Rightarrow> ('m \<Rightarrow> string option) \<Rightarrow> 'w writer \<Rightarrow> (Request \<Rightarrow> 'm list \<Rightarrow> bool) \<Rightarrow>
   ('m, 'w) serve_state \<Rightarrow> ('m, 'w) serve_state \<Rightarrow> bool"
  for env :: json_env and marshal :: "'m \<Rightarrow> string option" and wr :: "'w writer"
    and sends :: "Request \<Rightarrow> 'm list \<Rightarrow> bool" where
  step_reader: "sv_panic s = None \<Longrightarrow> reader_step env s = Some r \<Longrightarrow>
    serve_step env marshal wr sends s (settle s r)"
| step_writer: "sv_panic s = None \<Longrightarrow> writer_step marshal wr s = Some r \<Longrightarrow>
    serve_step env marshal wr sends s (settle s r)"
| step_handler: "sv_panic s = None \<Longrightarrow> handler_step i s = Some r \<Longrightarrow>
    serve_step env marshal wr sends s (settle s r)"
| step_main: "sv_panic s = None \<Longrightarrow> main_step s = Some r \<Longrightarrow>
    serve_step env marshal wr sends s (settle s r)"
| step_select_cancel: "sv_panic s = None \<Longrightarrow> select_cancel s = Some t \<Longrightarrow>
    serve_step env marshal wr sends s t"
| step_select_err: "sv_panic s = None \<Longrightarrow> select_err s = Some t \<Longrightarrow>
    serve_step env marshal wr sends s t"
| step_select_req: "sv_panic s = None \<Longrightarrow> select_req answer s = Some t \<Longrightarrow>
    (\<forall>req rs. chan_buf (sv_reqCh s) = req # rs \<longrightarrow> sends req (answer req)) \<Longrightarrow>
    serve_step env marshal wr sends s t"
| step_cancel: "sv_panic s = None \<Longrightarrow> \<not> sv_cancelled s \<Longrightarrow>
    serve_step env marshal wr sends s (s\<lparr>sv_cancelled := True\<rparr>)"

inductive_cases serve_stepE: "serve_step env marshal wr sends s t"

definition serve_start :: "reader \<Rightarrow> 'w \<Rightarrow> int \<Rightarrow> ('m, 'w) serve_state \<Rightarrow> bool" where
  "serve_start r w maxSize s \<longleftrightarrow> (\<exists>c. NewCommunicator r w maxSize = Inr c \<and> s = Serve_init c)"


section \<open>Channels and panics\<close>

fun after_close :: "main_pc \<Rightarrow> bool" where
  "after_close AwaitDone = True"
| "after_close Finishing = True"
| "after_close (Returned r) = True"
| "after_close m = False"

fun after_done :: "main_pc \<Rightarrow> bool" where
  "after_done Finishing = True"
| "after_done (Returned r) = True"
| "after_done m = False"

definition queues_ok :: "('m, 'w) serve_state \<Rightarrow> bool" where
  "queues_ok s \<longleftrightarrow>
     chan_cap (sv_reqCh s) = 100 \<and> chan_cap (sv_respCh s) = 100 \<and> chan_cap (sv_errCh s) = 1 \<and>
     chan_ok (sv_reqCh s) \<and> chan_ok (sv_respCh s) \<and> chan_ok (sv_errCh s)"

definition serve_ok :: "int \<Rightarrow> ('m, 'w) serve_state \<Rightarrow> bool" where
  "serve_ok n s \<longleftrightarrow> sv_panic s = None \<and> queues_ok s \<and> decoder_ok n (sv_dec s) \<and>
     (\<forall>req. sv_reader s = RdPut req \<longrightarrow> (\<exists>i. Request_ID req = Inr i) \<and> (\<exists>t. Request_Type req = Inr t)) \<and>
     (chan_closed (sv_reqCh s) \<longleftrightarrow> sv_reader s = RdGone) \<and>
     (chan_closed (sv_respCh s) \<longleftrightarrow> after_close (sv_main s)) \<and>
     \<not> chan_closed (sv_errCh s) \<and>
     (sv_main s \<notin> {Selecting, Waiting} \<longrightarrow> list_all hr_done (sv_handlers s)) \<and>
     (sv_writer s = WrGone \<longleftrightarrow> after_done (sv_main s)) \<and>
     (sv_encErr s = None \<longrightarrow> (\<forall>e. sv_writer s \<noteq> WrErr e) \<and>
        (sv_writer s = WrStop \<longrightarrow> chan_closed (sv_respCh s)))"

lemmas serve_ok_defs = serve_ok_def queues_ok_def

lemma make_chan_simps [simp]:
  "chan_cap (make_chan n) = n" "chan_buf (make_chan n) = []" "\<not> chan_closed (make_chan n)"
  by (simp_all add: make_chan_def)

lemma chan_ok_send: "\<not> chan_full c \<Longrightarrow> chan_ok (c\<lparr>chan_buf := chan_buf c @ [x]\<rparr>)"
  by (simp add: chan_ok_def chan_full_def)

lemma chan_ok_receive: "chan_ok c \<Longrightarrow> chan_buf c = x # xs \<Longrightarrow> chan_ok (c\<lparr>chan_buf := xs\<rparr>)"
  by (simp add: chan_ok_def)

lemma chan_ok_closed [simp]: "chan_ok (c\<lparr>chan_closed := b\<rparr>) = chan_ok c"
  by (simp add: chan_ok_def)

lemma chan_send_open:
  "\<not> chan_closed c \<Longrightarrow> chan_send x c k =
     (if chan_full c then None else Some (k (c\<lparr>chan_buf := chan_buf c @ [x]\<rparr>)))"
  by (simp add: chan_send_def chan_try_send_def)

lemma chan_send_Some:
  "\<not> chan_closed c \<Longrightarrow> chan_send x c k = Some r \<longleftrightarrow>
     \<not> chan_full c \<and> k (c\<lparr>chan_buf := chan_buf c @ [x]\<rparr>) = r"
  by (auto simp: chan_send_open)

lemma serve_ok_open:
  "serve_ok n s \<Longrightarrow> \<not> chan_closed (sv_errCh s)"
  "serve_ok n s \<Longrightarrow> sv_reader s \<noteq> RdGone \<Longrightarrow> \<not> chan_closed (sv_reqCh s)"
  by (auto simp: serve_ok_def)

lemma Decoder_Request_runs:
  assumes "decoder_ok n d"
  shows "\<exists>d' r. Decoder_Request env d = Inr (d', r)"
proof (cases "dcd_err d")
  case None
  with assms have "\<exists>msg. Decoder_msg d = Inr msg" by (simp add: decoder_ok_def Decoder_msg_def)
  then obtain msg where "Decoder_msg d = Inr msg" ..
  with None show ?thesis by (cases "RequestFromJSON env msg") (simp_all add: Decoder_Request_def)
qed (simp add: Decoder_Request_def)

lemma Decoder_Request_methods:
  assumes "Decoder_Request env d = Inr (d', Some req)"
  shows "(\<exists>i. Request_ID req = Inr i) \<and> (\<exists>t. Request_Type req = Inr t)"
proof -
  from assms obtain buf where "RequestFromJSON env buf = Inr req"
    by (auto simp: Decoder_Request_def case_sum_eq_iff split: if_splits)
  then show ?thesis
    by (rule RequestFromJSON_base) (auto simp: Request_Type_def Request_ID_def BaseRequest_Valid_def)
qed

lemma reader_ok:
  assumes "serve_ok n s" "reader_step env s = Some r"
  shows "\<exists>t. r = Inr t \<and> serve_ok n t"
proof (cases "sv_reader s")
  case RdLoop
  obtain d b where m: "More (sv_dec s) = (d, b)" by fastforce
  with assms(1) have d: "decoder_ok n d" by (auto simp: serve_ok_def intro: More_ok)
  obtain d' q where q: "Decoder_Request env d = Inr (d', q)" using Decoder_Request_runs [OF d] by blast
  note Decoder_Request_ok [OF d q]
  with assms RdLoop m q d show ?thesis
    by (auto simp: reader_step_def serve_ok_defs split: bool.splits option.splits
        dest!: Decoder_Request_methods)
next
  case (RdPut req)
  with assms show ?thesis
    by (auto simp: reader_step_def serve_ok_defs chan_send_open chan_ok_send split: if_splits)
next
  case RdCheck
  with assms show ?thesis by (auto simp: reader_step_def serve_ok_defs split: option.splits)
next
  case (RdErr e)
  with assms show ?thesis
    by (auto simp: reader_step_def serve_ok_defs chan_send_open chan_ok_send split: if_splits)
next
  case RdClose
  with assms show ?thesis by (auto simp: reader_step_def serve_ok_defs chan_close_def)
qed (use assms in \<open>simp add: reader_step_def\<close>)

lemma writer_ok:
  assumes "serve_ok n s" "writer_step marshal wr s = Some r"
  shows "\<exists>t. r = Inr t \<and> serve_ok n t"
proof (cases "sv_writer s")
  case WrLoop
  with assms show ?thesis
    by (cases "chan_buf (sv_respCh s)")
       (auto simp: writer_step_def serve_ok_defs chan_ok_receive split: if_splits prod.splits option.splits)
next
  case (WrErr e)
  with assms show ?thesis
    by (auto simp: writer_step_def serve_ok_defs chan_send_open chan_ok_send split: if_splits)
qed (use assms in \<open>simp_all add: writer_step_def\<close>)

lemma handler_open:
  assumes "serve_ok n s" "handler_step i s = Some r"
  shows "i < length (sv_handlers s) \<and> \<not> hr_done (sv_handlers s ! i) \<and>
    \<not> chan_closed (sv_respCh s) \<and> sv_main s \<in> {Selecting, Waiting}"
proof -
  from assms(2) have i: "i < length (sv_handlers s)" "\<not> hr_done (sv_handlers s ! i)"
    by (auto simp: handler_step_def split: if_splits)
  then have "\<not> list_all hr_done (sv_handlers s)" by (auto simp: list_all_length)
  with assms(1) i show ?thesis by (auto simp: serve_ok_def)
qed

lemma handler_ok:
  assumes "serve_ok n s" "handler_step i s = Some r"
  shows "\<exists>t. r = Inr t \<and> serve_ok n t"
  using assms handler_open [OF assms]
  by (cases "hr_left (sv_handlers s ! i)")
     (auto simp: handler_step_def serve_ok_defs Let_def chan_send_open chan_ok_send split: if_splits)

lemma main_ok:
  assumes "serve_ok n s" "main_step s = Some r"
  shows "\<exists>t. r = Inr t \<and> serve_ok n t"
  using assms by (cases "sv_main s")
    (auto simp: main_step_def serve_ok_defs chan_close_def chan_ok_receive split: if_splits list.splits)

lemma select_ok:
  assumes "serve_ok n s"
  shows "select_cancel s = Some t \<Longrightarrow> serve_ok n t" "select_err s = Some t \<Longrightarrow> serve_ok n t"
    "select_req answer s = Some t \<Longrightarrow> serve_ok n t"
  using assms
  by (auto simp: select_cancel_def select_err_def select_req_def start_handler_def serve_ok_defs
      chan_ok_receive split: if_splits list.splits)

lemma settle_Inr [simp]: "settle s (Inr t) = t"
  by (simp add: settle_def)

lemma serve_ok_start: "serve_start r w n s \<Longrightarrow> serve_ok n s"
  by (auto simp: serve_start_def NewCommunicator_def Serve_init_def serve_ok_defs
      NewDecoder_def decoder_ok_def split: if_splits)

lemma serve_ok_step:
  assumes s: "serve_ok n s" and "serve_step env marshal wr sends s t"
  shows "serve_ok n t"
  using assms(2)
proof cases
  case (step_reader r)
  with reader_ok [OF s] show ?thesis by fastforce
next
  case (step_writer r)
  with writer_ok [OF s] show ?thesis by fastforce
next
  case (step_handler i r)
  with handler_ok [OF s] show ?thesis by fastforce
next
  case (step_main r)
  with main_ok [OF s] show ?thesis by fastforce
next
  case step_select_cancel
  with select_ok(1) [OF s] show ?thesis by blast
next
  case step_select_err
  with select_ok(2) [OF s] show ?thesis by blast
next
  case (step_select_req answer)
  with select_ok(3) [OF s] show ?thesis by blast
next
  case step_cancel
  then have "serve_ok n t = serve_ok n s" by (simp add: serve_ok_defs)
  with s show ?thesis by simp
qed

interpretation serving: inductive_invariant "serve_start r w n" "serve_step env marshal wr sends" "serve_ok n"
  by unfold_locales (rule serve_ok_start, assumption, rule serve_ok_step)


section \<open>Every run ends\<close>

text \<open>
  A message costs at least its four header bytes of input, a request is dispatched once, and a
  response goes through the channel once: a lexicographic measure that every step decreases.
\<close>

fun reader_left :: "reader_pc \<Rightarrow> nat" where
  "reader_left RdLoop = 5"
| "reader_left (RdPut req) = 8"
| "reader_left RdCheck = 4"
| "reader_left (RdErr e) = 3"
| "reader_left RdClose = 2"
| "reader_left RdGone = 0"

definition input_left :: "('m, 'w) serve_state \<Rightarrow> nat" where
  "input_left s = length (rd_data (dcd_r (sv_dec s))) + reader_left (sv_reader s) +
     length (chan_buf (sv_reqCh s)) + (if sv_cancelled s then 0 else 1) +
     (if sv_main s = Selecting then 1 else 0) + (if sv_panic s = None then 1 else 0)"

fun writer_left :: "writer_pc \<Rightarrow> nat" where
  "writer_left WrLoop = 3"
| "writer_left (WrErr e) = 2"
| "writer_left WrStop = 1"
| "writer_left WrGone = 0"

fun main_left :: "main_pc \<Rightarrow> nat" where
  "main_left Selecting = 5"
| "main_left Waiting = 4"
| "main_left Closing = 3"
| "main_left AwaitDone = 2"
| "main_left Finishing = 1"
| "main_left (Returned r) = 0"

definition handler_left :: "'m handler_run \<Rightarrow> nat" where
  "handler_left h = (if hr_done h then 0 else Suc (3 * length (hr_left h)))"

definition output_left :: "('m, 'w) serve_state \<Rightarrow> nat" where
  "output_left s = sum_list (map handler_left (sv_handlers s)) + 2 * length (chan_buf (sv_respCh s)) +
     writer_left (sv_writer s) + main_left (sv_main s)"

definition serve_left :: "('m, 'w) serve_state \<Rightarrow> nat \<times> nat" where
  "serve_left s = (input_left s, output_left s)"

lemmas left_defs = serve_left_def input_left_def output_left_def

lemma ReadFull_data:
  "ReadFull r n = (bs, r', err) \<Longrightarrow> length (rd_data r') \<le> length (rd_data r) \<and>
     (err = None \<longrightarrow> length (rd_data r') + n = length (rd_data r))"
  by (auto simp: ReadFull_def split: if_splits)

lemma More_data:
  assumes "More d = (d', b)"
  shows "length (rd_data (dcd_r d')) + (if b then 4 else 0) \<le> length (rd_data (dcd_r d))"
  using assms
  by (auto simp: More_def Let_def dest!: ReadFull_data split: if_splits prod.splits option.splits)

lemma Decoder_Request_data:
  "Decoder_Request env d = Inr (d', r) \<Longrightarrow> dcd_r d' = dcd_r d"
  by (auto simp: Decoder_Request_def case_sum_eq_iff split: if_splits)

lemma sum_list_update:
  fixes f :: "'a \<Rightarrow> nat"
  assumes "i < length xs"
  shows "sum_list (map f (xs[i := y])) + f (xs ! i) = sum_list (map f xs) + f y"
  using assms
proof (induction xs arbitrary: i)
  case (Cons x xs)
  then show ?case by (cases i) auto
qed simp

lemma reader_decreases:
  assumes "serve_ok n s" "reader_step env s = Some (Inr t)"
  shows "input_left t < input_left s"
proof (cases "sv_reader s")
  case RdLoop
  obtain d b where m: "More (sv_dec s) = (d, b)" by fastforce
  with RdLoop assms(2) show ?thesis
    using More_data [OF m]
    by (auto simp: reader_step_def input_left_def dest!: Decoder_Request_data
        split: bool.splits option.splits)
next
  case (RdPut req)
  with assms(2) serve_ok_open [OF assms(1)] show ?thesis
    by (auto simp: reader_step_def input_left_def chan_send_Some)
next
  case RdCheck
  with assms(2) show ?thesis by (auto simp: reader_step_def input_left_def split: option.split)
next
  case (RdErr e)
  with assms(2) serve_ok_open [OF assms(1)] show ?thesis
    by (auto simp: reader_step_def input_left_def chan_send_Some)
next
  case RdClose
  with assms(2) serve_ok_open [OF assms(1)] show ?thesis
    by (auto simp: reader_step_def input_left_def chan_close_def)
qed (use assms in \<open>simp add: reader_step_def\<close>)

lemma handler_decreases:
  assumes "serve_ok n s" "handler_step i s = Some (Inr t)"
  shows "input_left t = input_left s \<and> output_left t < output_left s"
proof -
  note i = handler_open [OF assms]
  let ?h = "sv_handlers s ! i"
  show ?thesis
  proof (cases "hr_left ?h")
    case Nil
    with assms(2) i have "t = s\<lparr>sv_handlers := (sv_handlers s)[i := ?h\<lparr>hr_done := True\<rparr>]\<rparr>"
      by (simp add: handler_step_def Let_def)
    with Nil i sum_list_update [of i "sv_handlers s" handler_left "?h\<lparr>hr_done := True\<rparr>"]
    show ?thesis by (simp add: input_left_def output_left_def handler_left_def)
  next
    case (Cons m ms)
    with assms(2) i have "t = s\<lparr>sv_respCh := (sv_respCh s)\<lparr>chan_buf := chan_buf (sv_respCh s) @ [m]\<rparr>,
          sv_handlers := (sv_handlers s)[i := ?h\<lparr>hr_left := ms\<rparr>], sv_sent := sv_sent s @ [(i, m)]\<rparr>"
      by (simp add: handler_step_def Let_def chan_send_Some)
    with Cons i sum_list_update [of i "sv_handlers s" handler_left "?h\<lparr>hr_left := ms\<rparr>"]
    show ?thesis by (simp add: input_left_def output_left_def handler_left_def)
  qed
qed

lemma writer_decreases:
  assumes "serve_ok n s" "writer_step marshal wr s = Some (Inr t)"
  shows "input_left t = input_left s \<and> output_left t < output_left s"
proof (cases "sv_writer s")
  case WrLoop
  with assms(2) show ?thesis
    by (auto simp: writer_step_def input_left_def output_left_def
        split: list.split_asm if_split_asm prod.split_asm option.split)
next
  case (WrErr e)
  with assms(2) serve_ok_open [OF assms(1)] show ?thesis
    by (auto simp: writer_step_def input_left_def output_left_def chan_send_Some)
qed (use assms in \<open>simp_all add: writer_step_def\<close>)

lemma main_decreases:
  assumes "main_step s = Some (Inr t)"
  shows "input_left t = input_left s \<and> output_left t < output_left s"
  using assms
  by (cases "sv_main s")
     (auto simp: main_step_def input_left_def output_left_def chan_close_def
       split: if_split_asm list.split_asm)

lemma select_decreases:
  "select_cancel s = Some t \<Longrightarrow> input_left t < input_left s"
  "select_err s = Some t \<Longrightarrow> input_left t < input_left s"
  "select_req answer s = Some t \<Longrightarrow> input_left t < input_left s"
  by (auto simp: select_cancel_def select_err_def select_req_def start_handler_def input_left_def
      split: if_splits list.splits)

lemma serve_step_decreases:
  assumes "serve_ok n s" "serve_step env marshal wr sends s t"
  shows "(serve_left t, serve_left s) \<in> less_than <*lex*> less_than"
  using assms(2)
proof cases
  case (step_reader r)
  with reader_ok [OF assms(1)] reader_decreases [OF assms(1)] show ?thesis
    by (fastforce simp: serve_left_def)
next
  case (step_writer r)
  with writer_ok [OF assms(1)] writer_decreases [OF assms(1)] show ?thesis
    by (fastforce simp: serve_left_def)
next
  case (step_handler i r)
  with handler_ok [OF assms(1)] handler_decreases [OF assms(1)] show ?thesis
    by (fastforce simp: serve_left_def)
next
  case (step_main r)
  with main_ok [OF assms(1)] main_decreases show ?thesis
    by (fastforce simp: serve_left_def)
next
  case step_cancel
  then show ?thesis by (simp add: left_defs)
qed (auto simp: serve_left_def dest: select_decreases)

lemma chan_full_capacity: "chan_full c \<Longrightarrow> 0 < chan_cap c \<Longrightarrow> chan_buf c \<noteq> []"
  by (auto simp: chan_full_def)

lemma reader_moves:
  assumes "serve_ok n s" "sv_reader s \<noteq> RdGone" "\<not> chan_full (sv_reqCh s)" "\<not> chan_full (sv_errCh s)"
  shows "\<exists>r. reader_step env s = Some r"
  using assms
  by (cases "sv_reader s") (auto simp: reader_step_def chan_send_open serve_ok_def)

lemma select_moves:
  assumes "serve_ok n s" "sv_main s = Selecting"
  shows "(\<exists>t. select_err s = Some t) \<or> (\<exists>t. select_req answer s = Some t) \<or> (\<exists>r. reader_step env s = Some r)"
proof (cases "chan_buf (sv_errCh s) = [] \<and> chan_buf (sv_reqCh s) = [] \<and> \<not> chan_closed (sv_reqCh s)")
  case True
  with assms have "\<not> chan_full (sv_reqCh s)" "\<not> chan_full (sv_errCh s)" "sv_reader s \<noteq> RdGone"
    by (auto simp: serve_ok_defs chan_full_def)
  from reader_moves [OF assms(1) this(3,1,2)] show ?thesis by blast
next
  case False
  with assms(2) show ?thesis
    by (auto simp: select_err_def select_req_def split: list.splits)
qed

text \<open>Every branch but one moves on; the exception needs an encoding error.\<close>

lemma waiting_moves:
  assumes "serve_ok n s" "sv_main s = Waiting" "sv_encErr s = None"
  shows "(\<exists>r. main_step s = Some r) \<or> (\<exists>i r. handler_step i s = Some r) \<or>
    (\<exists>r. writer_step marshal wr s = Some r)"
proof (cases "list_all hr_done (sv_handlers s)")
  case False
  then obtain i where i: "i < length (sv_handlers s)" "\<not> hr_done (sv_handlers s ! i)"
    by (auto simp: list_all_length)
  have op: "\<not> chan_closed (sv_respCh s)" using assms by (auto simp: serve_ok_def)
  show ?thesis
  proof (cases "chan_full (sv_respCh s)")
    case True
    with assms have "chan_buf (sv_respCh s) \<noteq> []" by (simp add: serve_ok_defs chan_full_capacity)
    moreover have "sv_writer s = WrLoop" using assms op
      by (cases "sv_writer s") (auto simp: serve_ok_def)
    ultimately show ?thesis by (auto simp: writer_step_def neq_Nil_conv)
  next
    case False
    with i op have "\<exists>r. handler_step i s = Some r"
      by (auto simp: handler_step_def Let_def chan_send_open split: list.splits)
    then show ?thesis by blast
  qed
qed (use assms in \<open>simp add: main_step_def\<close>)

lemma await_moves:
  assumes "serve_ok n s" "sv_main s = AwaitDone" "sv_encErr s = None"
  shows "(\<exists>r. main_step s = Some r) \<or> (\<exists>r. writer_step marshal wr s = Some r)"
  using assms
  by (cases "sv_writer s") (auto simp: main_step_def writer_step_def serve_ok_def split: list.splits)

lemma serve_progress:
  assumes "serve_ok n s" "\<forall>req. \<exists>ms. sends req ms" "\<forall>t. \<not> serve_step env marshal wr sends s t"
  shows "(\<exists>res. sv_main s = Returned res) \<or> sv_encErr s \<noteq> None"
proof (rule ccontr)
  assume "\<not> ?thesis"
  then have no: "\<And>res. sv_main s \<noteq> Returned res" "sv_encErr s = None" by auto
  have p: "sv_panic s = None" using assms(1) by (simp add: serve_ok_def)
  from assms(2) obtain answer where a: "\<forall>r. sends r (answer r)" by metis
  from assms(3) p a have stuck: "reader_step env s = None" "writer_step marshal wr s = None"
    "\<And>i. handler_step i s = None" "main_step s = None" "select_err s = None" "select_req answer s = None"
    by (metis option.exhaust serve_step.intros)+
  show False
  proof (cases "sv_main s")
    case Selecting
    from select_moves [OF assms(1) this, of answer env] stuck show False by simp
  next
    case Waiting
    from waiting_moves [OF assms(1) this no(2), of marshal wr] stuck show False by simp
  next
    case AwaitDone
    from await_moves [OF assms(1) this no(2), of marshal wr] stuck show False by simp
  qed (use stuck no in \<open>auto simp: main_step_def\<close>)
qed


section \<open>What was read and what was written\<close>

text \<open>One turn of the reader's loop on the decoder, and the writer's loop on the encoder.\<close>

definition next_request :: "json_env \<Rightarrow> Decoder \<Rightarrow> Decoder \<times> Request option" where
  "next_request env d = (case More d of
     (d', False) \<Rightarrow> (d', None)
   | (d', True) \<Rightarrow> (case Decoder_Request env d' of Inl p \<Rightarrow> (d', None) | Inr res \<Rightarrow> res))"

fun encode_all ::
  "('m \<Rightarrow> string option) \<Rightarrow> 'w writer \<Rightarrow> 'w Encoder \<Rightarrow> 'm list \<Rightarrow> 'w Encoder \<times> stream_error option" where
  "encode_all marshal wr e [] = (e, None)"
| "encode_all marshal wr e (m # ms) = (case Encoder_Encode marshal wr e m of
     (e', None) \<Rightarrow> encode_all marshal wr e' ms
   | (e', Some err) \<Rightarrow> (e', Some err))"

lemma encode_all_snoc:
  "encode_all marshal wr e ms = (e', None) \<Longrightarrow>
     encode_all marshal wr e (ms @ [m]) = Encoder_Encode marshal wr e' m"
  by (induction ms arbitrary: e) (auto split: prod.splits option.splits)

lemma read_msgs_snoc:
  assumes "read_msgs nxt (length ms) d = (ms, d1)" "nxt d1 = (d2, r)"
  shows "read_msgs nxt (Suc (length ms)) d = (ms @ (case r of None \<Rightarrow> [] | Some m \<Rightarrow> [m]), d2)"
  using assms
proof (induction ms arbitrary: d)
  case (Cons x xs)
  then obtain d' where "nxt d = (d', Some x)" "read_msgs nxt (length xs) d' = (xs, d1)"
    by (auto split: prod.splits option.splits)
  with Cons.IH [OF this(2) Cons.prems(2)] show ?case by simp
qed (auto split: option.splits)

fun reading :: "reader_pc \<Rightarrow> bool" where
  "reading RdLoop = True"
| "reading (RdPut req) = True"
| "reading r = False"

fun held :: "reader_pc \<Rightarrow> Request list" where
  "held (RdPut req) = [req]"
| "held r = []"

definition from_handler :: "nat \<Rightarrow> (nat \<times> 'm) list \<Rightarrow> 'm list" where
  "from_handler i sent = map snd (filter (\<lambda>x. fst x = i) sent)"

definition log_ok :: "('m, 'w) serve_state \<Rightarrow> bool" where
  "log_ok s \<longleftrightarrow> map snd (sv_sent s) = sv_taken s @ chan_buf (sv_respCh s) \<and>
     list_all (\<lambda>x. fst x < length (sv_handlers s)) (sv_sent s) \<and>
     (\<forall>i<length (sv_handlers s).
        hr_all (sv_handlers s ! i) = from_handler i (sv_sent s) @ hr_left (sv_handlers s ! i) \<and>
        (hr_done (sv_handlers s ! i) \<longrightarrow> hr_left (sv_handlers s ! i) = []))"

definition queued_ok :: "('m, 'w) serve_state \<Rightarrow> bool" where
  "queued_ok s \<longleftrightarrow>
     sv_read s = map hr_req (sv_handlers s) @ chan_buf (sv_reqCh s) @ held (sv_reader s)"

definition decoded_ok :: "json_env \<Rightarrow> Decoder \<Rightarrow> ('m, 'w) serve_state \<Rightarrow> bool" where
  "decoded_ok env d0 s \<longleftrightarrow>
     read_msgs (next_request env) (length (sv_read s) + (if reading (sv_reader s) then 0 else 1)) d0 =
       (sv_read s, sv_dec s)"

definition output_ok ::
  "('m \<Rightarrow> string option) \<Rightarrow> 'w writer \<Rightarrow> 'w Encoder \<Rightarrow> ('m, 'w) serve_state \<Rightarrow> bool" where
  "output_ok marshal wr e0 s \<longleftrightarrow> encode_all marshal wr e0 (sv_taken s) = (sv_enc s, sv_encErr s) \<and>
     (sv_encErr s \<noteq> None \<longrightarrow> sv_writer s \<noteq> WrLoop) \<and>
     (sv_encErr s = None \<and> sv_writer s \<noteq> WrLoop \<longrightarrow>
        chan_closed (sv_respCh s) \<and> chan_buf (sv_respCh s) = [])"

lemma log_ok_handler:
  assumes "serve_ok n s" "log_ok s" "handler_step i s = Some (Inr t)"
  shows "log_ok t"
proof -
  note i = handler_open [OF assms(1,3)]
  let ?h = "sv_handlers s ! i"
  show ?thesis
  proof (cases "hr_left ?h")
    case Nil
    with assms(3) i have "t = s\<lparr>sv_handlers := (sv_handlers s)[i := ?h\<lparr>hr_done := True\<rparr>]\<rparr>"
      by (simp add: handler_step_def Let_def)
    with assms(2) i Nil show ?thesis by (simp add: log_ok_def nth_list_update)
  next
    case (Cons m ms)
    with assms(3) i have "t = s\<lparr>sv_respCh := (sv_respCh s)\<lparr>chan_buf := chan_buf (sv_respCh s) @ [m]\<rparr>,
          sv_handlers := (sv_handlers s)[i := ?h\<lparr>hr_left := ms\<rparr>], sv_sent := sv_sent s @ [(i, m)]\<rparr>"
      by (simp add: handler_step_def Let_def chan_send_Some)
    with assms(2) i Cons show ?thesis by (auto simp: log_ok_def from_handler_def nth_list_update)
  qed
qed

lemma from_handler_fresh: "list_all (\<lambda>x. fst x < k) sent \<Longrightarrow> from_handler k sent = []"
  by (auto simp: from_handler_def filter_empty_conv list_all_iff)

lemma list_all_Suc: "list_all (\<lambda>x. f x < k) xs \<Longrightarrow> list_all (\<lambda>x. f x < Suc k) xs"
  by (simp add: list_all_iff less_Suc_eq)

lemma log_ok_start:
  assumes "log_ok s"
  shows "log_ok (start_handler req ms s)"
  using assms
  by (auto simp: log_ok_def start_handler_def nth_append from_handler_fresh list_all_Suc elim!: less_SucE)

lemma log_ok_others:
  assumes "log_ok s"
  shows "reader_step env s = Some (Inr t) \<Longrightarrow> log_ok t" "writer_step marshal wr s = Some (Inr t) \<Longrightarrow> log_ok t"
    "main_step s = Some (Inr t) \<Longrightarrow> log_ok t" "select_cancel s = Some t \<Longrightarrow> log_ok t"
    "select_err s = Some t \<Longrightarrow> log_ok t" "select_req answer s = Some t \<Longrightarrow> log_ok t"
  subgoal using assms
    by (auto simp: reader_step_def log_ok_def chan_send_def chan_close_def
        split: reader_pc.splits prod.splits bool.splits option.splits sum.splits if_splits)
  subgoal using assms
    by (auto simp: writer_step_def log_ok_def chan_send_def
        split: writer_pc.splits prod.splits list.splits sum.splits if_splits)
  subgoal using assms
    by (auto simp: main_step_def log_ok_def chan_close_def split: main_pc.splits list.splits if_splits)
  subgoal using assms by (auto simp: select_cancel_def log_ok_def split: if_splits)
  subgoal using assms by (auto simp: select_err_def log_ok_def split: if_splits list.splits)
  subgoal using assms log_ok_start [of "s\<lparr>sv_reqCh := (sv_reqCh s)\<lparr>chan_buf := tl (chan_buf (sv_reqCh s))\<rparr>\<rparr>"]
    by (auto simp: select_req_def log_ok_def split: if_splits list.splits)
  done


lemma reader_loop:
  assumes "sv_reader s = RdLoop" "reader_step env s = Some (Inr t)" "next_request env (sv_dec s) = (d, r)"
  shows "t = (case r of None \<Rightarrow> s\<lparr>sv_dec := d, sv_reader := RdCheck\<rparr>
      | Some req \<Rightarrow> s\<lparr>sv_dec := d, sv_reader := RdPut req, sv_read := sv_read s @ [req]\<rparr>)"
  using assms
  by (auto simp: reader_step_def next_request_def split: prod.splits bool.splits option.splits)

lemma queued_ok_reader:
  assumes "serve_ok n s" "queued_ok s" "reader_step env s = Some (Inr t)"
  shows "queued_ok t"
proof (cases "sv_reader s")
  case RdLoop
  obtain d r where "next_request env (sv_dec s) = (d, r)" by fastforce
  from reader_loop [OF RdLoop assms(3) this] RdLoop assms(2) show ?thesis
    by (cases r) (simp_all add: queued_ok_def)
qed (use assms in \<open>auto simp: reader_step_def queued_ok_def chan_send_Some serve_ok_open chan_close_def
  split: option.split_asm if_split_asm\<close>)

lemma decoded_ok_reader:
  assumes "serve_ok n s" "decoded_ok env d0 s" "reader_step env s = Some (Inr t)"
  shows "decoded_ok env d0 t"
proof (cases "sv_reader s")
  case RdLoop
  obtain d r where nx: "next_request env (sv_dec s) = (d, r)" by fastforce
  have "read_msgs (next_request env) (length (sv_read s)) d0 = (sv_read s, sv_dec s)"
    using assms(2) RdLoop by (simp add: decoded_ok_def)
  from read_msgs_snoc [OF this nx] reader_loop [OF RdLoop assms(3) nx] RdLoop show ?thesis
    by (cases r) (simp_all add: decoded_ok_def)
qed (use assms in \<open>auto simp: reader_step_def decoded_ok_def chan_send_Some serve_ok_open chan_close_def
  split: option.split_asm if_split_asm\<close>)

text \<open>Only the reader touches the decoder, and a handler only its own entry and the channel.\<close>

lemma same_input:
  assumes "sv_read t = sv_read s" "sv_reader t = sv_reader s" "sv_dec t = sv_dec s"
  shows "decoded_ok env d0 t = decoded_ok env d0 s"
  using assms by (simp add: decoded_ok_def)

lemma handler_frame:
  assumes "serve_ok n s" "handler_step i s = Some (Inr t)"
  shows "\<exists>c hs xs. t = s\<lparr>sv_respCh := c, sv_handlers := hs, sv_sent := xs\<rparr> \<and>
    map hr_req hs = map hr_req (sv_handlers s)"
proof -
  have upd: "map hr_req ((sv_handlers s)[i := h]) = map hr_req (sv_handlers s)"
    if "hr_req h = hr_req (sv_handlers s ! i)" for h
    using that by (metis list_update_id map_update)
  show ?thesis
  proof (cases "hr_left (sv_handlers s ! i)")
    case Nil
    with assms(2) handler_open [OF assms] upd [of "(sv_handlers s ! i)\<lparr>hr_done := True\<rparr>"] show ?thesis
      by (intro exI [of _ "sv_respCh s"] exI [of _ "sv_handlers t"] exI [of _ "sv_sent s"])
         (auto simp: handler_step_def)
  next
    case (Cons m ms)
    with assms(2) handler_open [OF assms] upd [of "(sv_handlers s ! i)\<lparr>hr_left := ms\<rparr>"] show ?thesis
      by (intro exI [of _ "sv_respCh t"] exI [of _ "sv_handlers t"] exI [of _ "sv_sent t"])
         (auto simp: handler_step_def Let_def chan_send_Some)
  qed
qed

lemma writer_frame:
  "writer_step marshal wr s = Some (Inr t) \<Longrightarrow>
     \<exists>c e w er ms ee. t = s\<lparr>sv_respCh := c, sv_enc := e, sv_writer := w, sv_errCh := er, sv_taken := ms,
       sv_encErr := ee\<rparr>"
  by (rule exI [of _ "sv_respCh t"], rule exI [of _ "sv_enc t"], rule exI [of _ "sv_writer t"],
      rule exI [of _ "sv_errCh t"], rule exI [of _ "sv_taken t"], rule exI [of _ "sv_encErr t"])
     (auto simp: writer_step_def chan_send_def
       split: writer_pc.splits prod.splits list.splits sum.splits if_splits)

lemma main_frame:
  "main_step s = Some (Inr t) \<Longrightarrow>
     \<exists>c w m er. t = s\<lparr>sv_respCh := c, sv_writer := w, sv_main := m, sv_errCh := er\<rparr>"
  by (rule exI [of _ "sv_respCh t"], rule exI [of _ "sv_writer t"], rule exI [of _ "sv_main t"],
      rule exI [of _ "sv_errCh t"])
     (auto simp: main_step_def chan_close_def split: main_pc.splits list.splits if_splits)

lemma input_ok_frames:
  assumes "serve_ok n s" "queued_ok s" "decoded_ok env d0 s"
  shows "handler_step i s = Some (Inr t) \<Longrightarrow> queued_ok t \<and> decoded_ok env d0 t"
    "writer_step marshal wr s = Some (Inr t) \<Longrightarrow> queued_ok t \<and> decoded_ok env d0 t"
    "main_step s = Some (Inr t) \<Longrightarrow> queued_ok t \<and> decoded_ok env d0 t"
  using assms(2,3)
  by (auto simp: queued_ok_def decoded_ok_def dest!: handler_frame [OF assms(1)] writer_frame main_frame)

lemma input_ok_select:
  assumes "queued_ok s" "decoded_ok env d0 s"
  shows "select_cancel s = Some t \<Longrightarrow> queued_ok t \<and> decoded_ok env d0 t"
    "select_err s = Some t \<Longrightarrow> queued_ok t \<and> decoded_ok env d0 t"
    "select_req answer s = Some t \<Longrightarrow> queued_ok t \<and> decoded_ok env d0 t"
  using assms
  by (auto simp: select_cancel_def select_err_def select_req_def start_handler_def queued_ok_def
      decoded_ok_def split: if_split_asm list.split_asm)

lemma output_ok_writer:
  assumes "serve_ok n s" "output_ok marshal wr e0 s" "writer_step marshal wr s = Some (Inr t)"
  shows "output_ok marshal wr e0 t"
proof (cases "sv_writer s")
  case WrLoop
  then have "sv_encErr s = None" using assms(2) by (auto simp: output_ok_def)
  then have "encode_all marshal wr e0 (sv_taken s @ [m]) = Encoder_Encode marshal wr (sv_enc s) m" for m
    using assms(2) by (auto simp: output_ok_def intro: encode_all_snoc)
  with WrLoop assms show ?thesis
    by (auto simp: writer_step_def output_ok_def split: list.splits if_splits prod.splits option.splits)
next
  case (WrErr e)
  with assms have "sv_encErr s \<noteq> None" by (auto simp: serve_ok_def)
  with WrErr assms show ?thesis
    by (auto simp: writer_step_def output_ok_def chan_send_Some serve_ok_open)
qed (use assms in \<open>simp_all add: writer_step_def\<close>)

lemma output_ok_handler:
  assumes "serve_ok n s" "output_ok marshal wr e0 s" "handler_step i s = Some (Inr t)"
  shows "output_ok marshal wr e0 t"
proof -
  have "\<not> chan_closed (sv_respCh s)" using handler_open [OF assms(1,3)] by simp
  with assms(2) have "sv_encErr s = None \<longrightarrow> sv_writer s = WrLoop" by (auto simp: output_ok_def)
  with assms(2) handler_frame [OF assms(1,3)] show ?thesis by (auto simp: output_ok_def)
qed

lemma reader_frame:
  "reader_step env s = Some (Inr t) \<Longrightarrow>
     \<exists>d p c er rs. t = s\<lparr>sv_dec := d, sv_reader := p, sv_reqCh := c, sv_errCh := er, sv_read := rs\<rparr>"
  by (rule exI [of _ "sv_dec t"], rule exI [of _ "sv_reader t"], rule exI [of _ "sv_reqCh t"],
      rule exI [of _ "sv_errCh t"], rule exI [of _ "sv_read t"])
     (auto simp: reader_step_def chan_send_def chan_close_def
        split: reader_pc.splits prod.splits bool.splits option.splits sum.splits if_splits)

lemma output_ok_main:
  assumes "serve_ok n s" "output_ok marshal wr e0 s" "main_step s = Some (Inr t)"
  shows "output_ok marshal wr e0 t"
  using assms(2,3)
  by (cases "sv_main s")
     (auto simp: main_step_def output_ok_def chan_close_def split: list.split_asm if_split_asm)

lemma output_ok_others:
  assumes "output_ok marshal wr e0 s"
  shows "reader_step env s = Some (Inr t) \<Longrightarrow> output_ok marshal wr e0 t"
    "select_cancel s = Some t \<Longrightarrow> output_ok marshal wr e0 t"
    "select_err s = Some t \<Longrightarrow> output_ok marshal wr e0 t"
    "select_req answer s = Some t \<Longrightarrow> output_ok marshal wr e0 t"
  subgoal using assms by (auto simp: output_ok_def dest!: reader_frame)
  subgoal using assms by (auto simp: select_cancel_def output_ok_def split: if_split_asm)
  subgoal using assms by (auto simp: select_err_def output_ok_def split: if_split_asm list.split_asm)
  subgoal using assms
    by (auto simp: select_req_def start_handler_def output_ok_def split: if_split_asm list.split_asm)
  done



section \<open>Which errors are returned\<close>

definition reported :: "('m, 'w) serve_state \<Rightarrow> bool" where
  "reported s \<longleftrightarrow> (case sv_main s of
     Returned r \<Rightarrow> r \<noteq> None | _ \<Rightarrow> sv_err s \<noteq> None \<or> chan_buf (sv_errCh s) \<noteq> [])"

definition errors_ok :: "('m, 'w) serve_state \<Rightarrow> bool" where
  "errors_ok s \<longleftrightarrow> (sv_err s \<noteq> None \<longrightarrow> reported s) \<and>
     (sv_main s \<noteq> Selecting \<and> \<not> sv_cancelled s \<and> sv_err s = None \<longrightarrow>
        sv_reader s = RdGone \<and> chan_buf (sv_reqCh s) = []) \<and>
     (sv_encErr s \<noteq> None \<and> sv_writer s \<in> {WrStop, WrGone} \<longrightarrow> reported s) \<and>
     (Decoder_Err (sv_dec s) \<noteq> None \<and> sv_reader s \<in> {RdClose, RdGone} \<and> \<not> sv_cancelled s \<longrightarrow> reported s)"

lemma reported_simps:
  "sv_main s = Returned r \<Longrightarrow> reported s \<longleftrightarrow> r \<noteq> None"
  "\<forall>r. sv_main s \<noteq> Returned r \<Longrightarrow> reported s \<longleftrightarrow> sv_err s \<noteq> None \<or> chan_buf (sv_errCh s) \<noteq> []"
  by (auto simp: reported_def split: main_pc.split)

lemma reported_update [simp]:
  "reported (s\<lparr>sv_dec := d\<rparr>) = reported s" "reported (s\<lparr>sv_enc := e\<rparr>) = reported s"
  "reported (s\<lparr>sv_reader := rp\<rparr>) = reported s" "reported (s\<lparr>sv_writer := wp\<rparr>) = reported s"
  "reported (s\<lparr>sv_reqCh := qc\<rparr>) = reported s" "reported (s\<lparr>sv_respCh := pc\<rparr>) = reported s"
  "reported (s\<lparr>sv_cancelled := b\<rparr>) = reported s" "reported (s\<lparr>sv_handlers := hs\<rparr>) = reported s"
  "reported (s\<lparr>sv_read := rs\<rparr>) = reported s" "reported (s\<lparr>sv_sent := xs\<rparr>) = reported s"
  "reported (s\<lparr>sv_taken := ms\<rparr>) = reported s" "reported (s\<lparr>sv_encErr := ee\<rparr>) = reported s"
  by (simp_all add: reported_def cong: main_pc.case_cong)

lemma reported_send:
  "sv_main t = sv_main s \<Longrightarrow> sv_err t = sv_err s \<Longrightarrow>
     chan_buf (sv_errCh t) = chan_buf (sv_errCh s) @ [e] \<Longrightarrow>
     reported t \<longleftrightarrow> reported s \<or> (\<forall>r. sv_main s \<noteq> Returned r)"
  by (auto simp: reported_def split: main_pc.split)

lemma errors_ok_reader:
  assumes "serve_ok n s" "errors_ok s" "reader_step env s = Some (Inr t)"
  shows "errors_ok t"
proof (cases "sv_reader s")
  case RdLoop
  obtain d r where nx: "next_request env (sv_dec s) = (d, r)" by fastforce
  from reader_loop [OF RdLoop assms(3) nx] RdLoop assms(2) show ?thesis
    by (cases r) (simp_all add: errors_ok_def)
next
  case (RdErr e)
  with assms(1,3) have t: "t = s\<lparr>sv_errCh := (sv_errCh s)\<lparr>chan_buf := chan_buf (sv_errCh s) @ [e]\<rparr>,
      sv_reader := RdClose\<rparr>"
    by (simp add: reader_step_def chan_send_Some serve_ok_open)
  then have "reported t \<longleftrightarrow> reported s \<or> (\<forall>r. sv_main s \<noteq> Returned r)" by (intro reported_send) auto
  with t RdErr assms(2) show ?thesis by (auto simp: errors_ok_def)
next
  case (RdPut req)
  with assms show ?thesis
    by (auto simp: errors_ok_def reader_step_def chan_send_Some serve_ok_open)
next
  case RdCheck
  with assms(2,3) show ?thesis
    by (auto simp: errors_ok_def reader_step_def split: option.splits)
next
  case RdClose
  with assms(2,3) show ?thesis
    by (auto simp: errors_ok_def reader_step_def chan_close_def split: if_split_asm)
qed (use assms in \<open>simp add: reader_step_def\<close>)

lemma errors_ok_writer:
  assumes "serve_ok n s" "output_ok marshal wr e0 s" "errors_ok s" "writer_step marshal wr s = Some (Inr t)"
  shows "errors_ok t"
proof (cases "sv_writer s")
  case WrLoop
  then have "sv_encErr s = None" using assms(2) by (auto simp: output_ok_def)
  note enc = this
  show ?thesis
  proof (cases "chan_buf (sv_respCh s)")
    case Nil
    with WrLoop assms(4) have "t = s\<lparr>sv_writer := WrStop\<rparr>"
      by (simp add: writer_step_def split: if_split_asm)
    with enc assms(3) show ?thesis by (simp add: errors_ok_def)
  next
    case (Cons m ms)
    obtain e err where ee: "Encoder_Encode marshal wr (sv_enc s) m = (e, err)" by fastforce
    with WrLoop Cons assms(4) have "t = s\<lparr>sv_respCh := (sv_respCh s)\<lparr>chan_buf := ms\<rparr>, sv_enc := e,
       sv_writer := (case err of None \<Rightarrow> WrLoop | Some er \<Rightarrow> WrErr er), sv_taken := sv_taken s @ [m],
       sv_encErr := err\<rparr>" by (simp add: writer_step_def)
    with WrLoop assms(3) show ?thesis by (cases err) (simp_all add: errors_ok_def)
  qed
next
  case (WrErr e)
  with assms(1,4) have t: "t = s\<lparr>sv_errCh := (sv_errCh s)\<lparr>chan_buf := chan_buf (sv_errCh s) @ [e]\<rparr>,
      sv_writer := WrStop\<rparr>"
    by (simp add: writer_step_def chan_send_Some serve_ok_open)
  then have r: "reported t \<longleftrightarrow> reported s \<or> (\<forall>r. sv_main s \<noteq> Returned r)" by (intro reported_send) auto
  have "\<forall>r. sv_main s \<noteq> Returned r" using assms(1) WrErr by (auto simp: serve_ok_def)
  with t r assms(3) show ?thesis by (auto simp: errors_ok_def)
qed (use assms in \<open>simp_all add: writer_step_def\<close>)

lemma errors_ok_handler:
  assumes "serve_ok n s" "errors_ok s" "handler_step i s = Some (Inr t)"
  shows "errors_ok t"
proof -
  from handler_frame [OF assms(1,3)] obtain c hs xs where
    "t = s\<lparr>sv_respCh := c, sv_handlers := hs, sv_sent := xs\<rparr>" by blast
  with assms(2) show ?thesis by (simp add: errors_ok_def)
qed

lemma errors_ok_main:
  assumes "errors_ok s" "main_step s = Some (Inr t)"
  shows "errors_ok t"
proof (cases "sv_main s = Finishing")
  case True
  with assms(2) have t: "t = (if sv_err s \<noteq> None then s\<lparr>sv_main := Returned (sv_err s)\<rparr>
      else (case chan_buf (sv_errCh s) of [] \<Rightarrow> s\<lparr>sv_main := Returned None\<rparr>
        | e # es \<Rightarrow> s\<lparr>sv_errCh := (sv_errCh s)\<lparr>chan_buf := es\<rparr>, sv_main := Returned (Some e)\<rparr>))"
    by (simp add: main_step_def)
  have "reported t = reported s"
    unfolding t using True by (simp add: reported_def split: list.split)
  with True assms(1) t show ?thesis by (auto simp: errors_ok_def split: list.split_asm if_split_asm)
next
  case False
  with assms(2) have "reported t = reported s"
    by (cases "sv_main s")
       (auto simp: main_step_def chan_close_def reported_simps(2) split: if_split_asm)
  with False assms show ?thesis
    by (cases "sv_main s") (auto simp: main_step_def chan_close_def errors_ok_def split: if_split_asm)
qed

lemma errors_ok_select:
  assumes "serve_ok n s" "errors_ok s"
  shows "select_cancel s = Some t \<Longrightarrow> errors_ok t"
    "select_err s = Some t \<Longrightarrow> errors_ok t" "select_req answer s = Some t \<Longrightarrow> errors_ok t"
proof -
  have "chan_closed (sv_reqCh s) \<longrightarrow> sv_reader s = RdGone" using assms(1) by (simp add: serve_ok_def)
  with assms(2) show "select_req answer s = Some t \<Longrightarrow> errors_ok t"
    by (auto simp: select_req_def start_handler_def errors_ok_def reported_def
        split: if_split_asm list.split_asm)
qed (use assms(2) in \<open>auto simp: select_cancel_def select_err_def errors_ok_def reported_simps(2)
        split: if_split_asm list.split_asm\<close>)

definition serve_history ::
  "json_env \<Rightarrow> ('m \<Rightarrow> string option) \<Rightarrow> 'w writer \<Rightarrow> reader \<Rightarrow> 'w \<Rightarrow> int \<Rightarrow> ('m, 'w) serve_state \<Rightarrow> bool" where
  "serve_history env marshal wr r w n s \<longleftrightarrow> serve_ok n s \<and> log_ok s \<and> queued_ok s \<and> errors_ok s \<and>
     output_ok marshal wr (NewEncoder w n) s \<and>
     (\<exists>d0. NewDecoder r n = Inr d0 \<and> decoded_ok env d0 s)"

lemma serve_history_cancel:
  assumes "serve_history env marshal wr r w n s"
  shows "serve_history env marshal wr r w n (s\<lparr>sv_cancelled := True\<rparr>)"
proof -
  let ?t = "s\<lparr>sv_cancelled := True\<rparr>"
  have "serve_ok n ?t = serve_ok n s" "log_ok ?t = log_ok s" "queued_ok ?t = queued_ok s"
    "output_ok marshal wr e0 ?t = output_ok marshal wr e0 s" "decoded_ok env d0 ?t = decoded_ok env d0 s"
    for e0 d0
    by (simp_all add: serve_ok_defs log_ok_def queued_ok_def output_ok_def decoded_ok_def)
  moreover have "errors_ok s \<Longrightarrow> errors_ok ?t" by (simp add: errors_ok_def)
  ultimately show ?thesis using assms by (simp add: serve_history_def)
qed

lemma serve_history_step:
  assumes h: "serve_history env marshal wr r w n s" and "serve_step env marshal wr sends s t"
  shows "serve_history env marshal wr r w n t"
proof -
  from h obtain d0 where d0: "NewDecoder r n = Inr d0" "decoded_ok env d0 s"
    and ok: "serve_ok n s" "log_ok s" "queued_ok s" "errors_ok s" "output_ok marshal wr (NewEncoder w n) s"
    by (auto simp: serve_history_def)
  from assms(2) show ?thesis
  proof cases
    case (step_reader q)
    then obtain u where u: "reader_step env s = Some (Inr u)" "t = u" "serve_ok n u"
      using reader_ok [OF ok(1)] by fastforce
    with log_ok_others(1) [OF ok(2) u(1)] queued_ok_reader [OF ok(1,3) u(1)]
      decoded_ok_reader [OF ok(1) d0(2) u(1)] errors_ok_reader [OF ok(1,4) u(1)] output_ok_others(1) [OF ok(5) u(1)] d0(1) show ?thesis
      unfolding serve_history_def by blast
  next
    case (step_writer q)
    then obtain u where u: "writer_step marshal wr s = Some (Inr u)" "t = u" "serve_ok n u"
      using writer_ok [OF ok(1)] by fastforce
    with log_ok_others(2) [OF ok(2) u(1)] input_ok_frames(2) [OF ok(1,3) d0(2) u(1)]
      errors_ok_writer [OF ok(1,5,4) u(1)] output_ok_writer [OF ok(1,5) u(1)] d0(1) show ?thesis
      unfolding serve_history_def by blast
  next
    case (step_handler i q)
    then obtain u where u: "handler_step i s = Some (Inr u)" "t = u" "serve_ok n u"
      using handler_ok [OF ok(1)] by fastforce
    with log_ok_handler [OF ok(1,2) u(1)] input_ok_frames(1) [OF ok(1,3) d0(2) u(1)]
      errors_ok_handler [OF ok(1,4) u(1)] output_ok_handler [OF ok(1,5) u(1)] d0(1) show ?thesis
      unfolding serve_history_def by blast
  next
    case (step_main q)
    then obtain u where u: "main_step s = Some (Inr u)" "t = u" "serve_ok n u"
      using main_ok [OF ok(1)] by fastforce
    with log_ok_others(3) [OF ok(2) u(1)] input_ok_frames(3) [OF ok(1,3) d0(2) u(1)]
      errors_ok_main [OF ok(4) u(1)] output_ok_main [OF ok(1,5) u(1)] d0(1) show ?thesis
      unfolding serve_history_def by blast
  next
    case step_select_cancel
    with log_ok_others(4) [OF ok(2)] input_ok_select(1) [OF ok(3) d0(2)] errors_ok_select(1) [OF ok(1,4)]
      output_ok_others(2) [OF ok(5)] select_ok(1) [OF ok(1)] d0(1) show ?thesis
      unfolding serve_history_def by blast
  next
    case step_select_err
    with log_ok_others(5) [OF ok(2)] input_ok_select(2) [OF ok(3) d0(2)] errors_ok_select(2) [OF ok(1,4)]
      output_ok_others(3) [OF ok(5)] select_ok(2) [OF ok(1)] d0(1) show ?thesis
      unfolding serve_history_def by blast
  next
    case (step_select_req answer)
    with log_ok_others(6) [OF ok(2)] input_ok_select(3) [OF ok(3) d0(2)] errors_ok_select(3) [OF ok(1,4)]
      output_ok_others(4) [OF ok(5)] select_ok(3) [OF ok(1)] d0(1) show ?thesis
      unfolding serve_history_def by blast
  next
    case step_cancel
    with serve_history_cancel [OF h] show ?thesis by simp
  qed
qed

lemma serve_history_start:
  assumes "serve_start r w n s"
  shows "serve_history env marshal wr r w n s"
  using serving.invar_start [OF assms] assms
  by (auto simp: serve_start_def NewCommunicator_def Serve_init_def serve_history_def log_ok_def
      queued_ok_def errors_ok_def reported_def output_ok_def decoded_ok_def)

interpretation history: inductive_invariant "serve_start r w n" "serve_step env marshal wr sends"
  "serve_history env marshal wr r w n"
  by unfold_locales (rule serve_history_start, assumption, rule serve_history_step)


text \<open>Every goroutine answers its request the way the handler may.\<close>

definition answers_ok :: "(Request \<Rightarrow> 'm list \<Rightarrow> bool) \<Rightarrow> ('m, 'w) serve_state \<Rightarrow> bool" where
  "answers_ok sends s \<longleftrightarrow> list_all (\<lambda>h. sends (hr_req h) (hr_all h)) (sv_handlers s)"

lemma list_all_update: "list_all P xs \<Longrightarrow> (i < length xs \<Longrightarrow> P y) \<Longrightarrow> list_all P (xs[i := y])"
  by (cases "i < length xs") (auto simp: list_all_length nth_list_update)

lemma answers_ok_handler:
  assumes "serve_ok n s" "answers_ok sends s" "handler_step i s = Some (Inr t)"
  shows "answers_ok sends t"
proof -
  let ?h = "sv_handlers s ! i"
  have i: "i < length (sv_handlers s)" "\<not> hr_done ?h" "\<not> chan_closed (sv_respCh s)"
    using handler_open [OF assms(1,3)] by auto
  have "sends (hr_req ?h) (hr_all ?h)" using assms(2) i(1) by (simp add: answers_ok_def list_all_length)
  with assms i show ?thesis
    by (cases "hr_left ?h")
       (auto simp: handler_step_def Let_def chan_send_Some answers_ok_def intro!: list_all_update)
qed

lemma answers_ok_step:
  assumes "serve_ok n s" "answers_ok sends s" "serve_step env marshal wr sends s t"
  shows "answers_ok sends t"
  using assms(3)
proof cases
  case (step_reader q)
  then obtain u where "reader_step env s = Some (Inr u)" "t = u" using reader_ok [OF assms(1)] by fastforce
  with reader_frame [of env s u] assms(2) show ?thesis by (auto simp: answers_ok_def)
next
  case (step_writer q)
  then obtain u where "writer_step marshal wr s = Some (Inr u)" "t = u"
    using writer_ok [OF assms(1)] by fastforce
  with writer_frame [of marshal wr s u] assms(2) show ?thesis by (auto simp: answers_ok_def)
next
  case (step_handler i q)
  then obtain u where "handler_step i s = Some (Inr u)" "t = u"
    using handler_ok [OF assms(1)] by fastforce
  with answers_ok_handler [OF assms(1,2)] show ?thesis by simp
next
  case (step_main q)
  then obtain u where "main_step s = Some (Inr u)" "t = u" using main_ok [OF assms(1)] by fastforce
  with main_frame [of s u] assms(2) show ?thesis by (auto simp: answers_ok_def)
next
  case (step_select_req answer)
  with assms(2) show ?thesis
    by (auto simp: select_req_def start_handler_def answers_ok_def split: if_split_asm list.split_asm)
qed (use assms(2) in \<open>auto simp: select_cancel_def select_err_def answers_ok_def
      split: if_split_asm list.split_asm\<close>)

interpretation answering: inductive_invariant "serve_start r w n" "serve_step env marshal wr sends"
  "\<lambda>s. serve_ok n s \<and> answers_ok sends s"
proof (unfold_locales, goal_cases)
  case (1 s)
  then show ?case
    using serving.invar_start [OF 1] by (auto simp: serve_start_def Serve_init_def answers_ok_def)
next
  case (2 s t)
  then show ?case using serving.invar_step answers_ok_step by blast
qed


section \<open>Properties of \<^verbatim>\<open>Serve\<close>\<close>

lemma next_request_frame:
  assumes "decoder_ok n d" "ready d" "fits d m" "pending d = frame m @ rest"
  shows "\<exists>d'. decoder_ok n d' \<and> ready d' \<and> pending d' = rest \<and> fits d' = fits d \<and>
    rd_end (dcd_r d') = rd_end (dcd_r d) \<and>
    next_request env d = (case RequestFromJSON env m of
      Inl e \<Rightarrow> (d'\<lparr>dcd_err := Some (StreamRpc e)\<rparr>, None) | Inr req \<Rightarrow> (d', Some req))"
proof -
  obtain d' where nm: "next_msg d = (d', Some m)"
    and d': "ready d'" "pending d' = rest" "fits d' = fits d" "rd_end (dcd_r d') = rd_end (dcd_r d)"
    using next_msg_frame [OF assms(2-4)] by blast
  then have more: "More d = (d', True)" and m: "take (unat (dcd_msgLen d')) (dcd_buf d') = m"
    by (auto simp: next_msg_def split: prod.split_asm if_split_asm)
  have ok: "decoder_ok n d'" by (rule More_ok [OF assms(1) more])
  with d'(1) m have "Decoder_msg d' = Inr m" by (auto simp: Decoder_msg_def decoder_ok_def ready_def)
  with more d'(1) have "next_request env d = (case RequestFromJSON env m of
      Inl e \<Rightarrow> (d'\<lparr>dcd_err := Some (StreamRpc e)\<rparr>, None) | Inr req \<Rightarrow> (d', Some req))"
    by (auto simp: next_request_def Decoder_Request_def ready_def split: sum.split)
  with ok d' show ?thesis by blast
qed

text \<open>When the reader's loop ends without an error, it has decoded every message of its input.\<close>

lemma read_all_frames:
  assumes "decoder_ok n d0" "ready d0" "\<forall>m\<in>set ms. fits d0 m" "pending d0 = concat (map frame ms)"
    "read_msgs (next_request env) (Suc (length reqs)) d0 = (reqs, d)" "Decoder_Err d = None"
  shows "mapE (RequestFromJSON env) ms = Inr reqs"
  using assms
proof (induction ms arbitrary: d0 reqs)
  case Nil
  then have "next_request env d0 =
      (d0\<lparr>dcd_msgLen := 0, dcd_err := Some (rd_end (dcd_r d0))\<rparr>, None)"
    by (simp add: next_request_def More_empty)
  with Nil.prems(5) show ?case by simp
next
  case (Cons m ms)
  from Cons.prems(3,4) have f: "fits d0 m" "pending d0 = frame m @ concat (map frame ms)" by simp_all
  from next_request_frame [OF Cons.prems(1,2) f, of env] obtain d' where
    d': "decoder_ok n d'" "ready d'" "pending d' = concat (map frame ms)" "fits d' = fits d0"
    and nx: "next_request env d0 = (case RequestFromJSON env m of
      Inl e \<Rightarrow> (d'\<lparr>dcd_err := Some (StreamRpc e)\<rparr>, None) | Inr req \<Rightarrow> (d', Some req))" by blast
  show ?case
  proof (cases "RequestFromJSON env m")
    case (Inl e)
    with nx Cons.prems(5,6) show ?thesis by (auto simp: Decoder_Err_def)
  next
    case (Inr req)
    with nx Cons.prems(5) obtain qs where
      "reqs = req # qs" "read_msgs (next_request env) (Suc (length qs)) d' = (qs, d)"
      by (cases reqs) (auto split: prod.split_asm)
    with Cons.IH [OF d'(1,2) _ d'(3) this(2) Cons.prems(6)] Cons.prems(3) d'(4) Inr show ?thesis by simp
  qed
qed

lemma encode_all_frames:
  assumes "\<forall>b w. snd (wr b w) = None \<longrightarrow> contents (fst (wr b w)) = contents w @ b"
    and "encode_all marshal wr e ms = (e', None)"
  shows "contents (enc_w e') = contents (enc_w e) @ concat (map (\<lambda>m. frame (the (marshal m))) ms)"
  using assms(2)
proof (induction ms arbitrary: e)
  case (Cons m ms)
  then obtain e1 where e1: "Encoder_Encode marshal wr e m = (e1, None)" "encode_all marshal wr e1 ms = (e', None)"
    by (auto split: prod.split_asm option.split_asm)
  then obtain buf where "marshal m = Some buf" "Encoder_write wr e buf = (e1, None)"
    by (auto simp: Encoder_Encode_def split: option.split_asm)
  with Encoder_write_frame [OF assms(1) this(2)] Cons.IH [OF e1(2)] show ?case by simp
qed simp

text \<open>Runs with a fixed schedule, for concrete executions.\<close>

datatype action = Reader | Writer | Handler nat | Main | SelectCancel | SelectErr | SelectReq | Cancel

definition act ::
  "json_env \<Rightarrow> ('m \<Rightarrow> string option) \<Rightarrow> 'w writer \<Rightarrow> (Request \<Rightarrow> 'm list option) \<Rightarrow> action \<Rightarrow>
   ('m, 'w) serve_state \<Rightarrow> ('m, 'w) serve_state option" where
  "act env marshal wr answer a s = (if sv_panic s \<noteq> None then None else case a of
     Reader \<Rightarrow> map_option (settle s) (reader_step env s)
   | Writer \<Rightarrow> map_option (settle s) (writer_step marshal wr s)
   | Handler i \<Rightarrow> map_option (settle s) (handler_step i s)
   | Main \<Rightarrow> map_option (settle s) (main_step s)
   | SelectCancel \<Rightarrow> select_cancel s
   | SelectErr \<Rightarrow> select_err s
   | SelectReq \<Rightarrow> if list_all (\<lambda>r. answer r \<noteq> None) (take 1 (chan_buf (sv_reqCh s)))
       then select_req (\<lambda>r. the (answer r)) s else None
   | Cancel \<Rightarrow> if sv_cancelled s then None else Some (s\<lparr>sv_cancelled := True\<rparr>))"

fun acts where
  "acts env marshal wr answer [] s = Some s"
| "acts env marshal wr answer (a # as) s = Option.bind (act env marshal wr answer a s) (acts env marshal wr answer as)"

lemma act_step:
  assumes "act env marshal wr answer a s = Some t" "\<And>r ms. answer r = Some ms \<Longrightarrow> sends r ms"
  shows "serve_step env marshal wr sends s t"
  using assms
  by (cases a) (auto simp: act_def intro: serve_step.intros step_select_req [where answer = "\<lambda>r. the (answer r)"]
      split: if_split_asm)

lemma acts_reachable:
  assumes "acts env marshal wr answer as s = Some t"
    and "reachable start (serve_step env marshal wr sends) s" "\<And>r ms. answer r = Some ms \<Longrightarrow> sends r ms"
  shows "reachable start (serve_step env marshal wr sends) t"
  using assms(1,2)
proof (induction as arbitrary: s)
  case (Cons a as)
  then obtain u where u: "act env marshal wr answer a s = Some u" "acts env marshal wr answer as u = Some t"
    by (auto simp: Option.bind_eq_Some_conv)
  have "serve_step env marshal wr sends s u" by (rule act_step [OF u(1) assms(3)])
  with Cons.IH [OF u(2)] Cons.prems(2) show ?case by (blast intro: reachable.reach_step)
qed simp

definition one_env :: json_env where
  "one_env = example_env ''b'' (JObj [(''messageType'', JNum ''9''), (''requestId'', JNum ''7''),
     (''username'', JStr ''alice'')])"

definition one_request :: Request where
  "one_request = RClusterInfo \<lparr>br_MessageType = Some 9, br_RequestID = Some 7, bu_Username = ''alice'',
     bu_ReqUsername = ''''\<rparr>"

definition one_start :: "string \<Rightarrow> (string, string) serve_state" where
  "one_start input = Serve_init \<lparr>co_enc = NewEncoder [] 10, co_dec =
     \<lparr>dcd_r = \<lparr>rd_data = input, rd_end = IoEOF\<rparr>, dcd_headerBuf = replicate 4 (CHR 0x00),
      dcd_buf = replicate 10 (CHR 0x00), dcd_msgLen = 0, dcd_err = None\<rparr>\<rparr>"

lemma one_start_reachable:
  "reachable (serve_start \<lparr>rd_data = input, rd_end = IoEOF\<rparr> [] 10) step (one_start input)"
  by (rule reachable.reach_start)
     (simp add: serve_start_def one_start_def NewCommunicator_def NewDecoder_def)

definition one_schedule :: "action list" where
  "one_schedule = [Reader, Reader, SelectReq, Reader, Reader, Reader, Handler 0, Writer, SelectReq,
     Handler 0, Main, Main, Writer, Main, Main]"

lemma one_request_decoded [simp]: "RequestFromJSON one_env ''b'' = Inr one_request"
  using example_request by (simp add: one_env_def one_request_def)

lemma one_request_methods [simp]: "Request_ID one_request = Inr 7" "Request_Type one_request = Inr 9"
  by (simp_all add: one_request_def Request_ID_def Request_Type_def BaseRequest.defs)

lemmas act_simps = act_def reader_step_def writer_step_def handler_step_def main_step_def
  select_req_def select_cancel_def start_handler_def chan_send_def chan_try_send_def chan_full_def
  chan_close_def More_def ReadFull_def fill_def Decoder_Request_def Decoder_msg_def Decoder_Err_def
  Encoder_Encode_def Encoder_write_def NewEncoder_def Let_def

lemma one_run:
  "\<exists>s. acts one_env Some buffer_writer (\<lambda>_. Some [''ok'']) one_schedule (one_start (frame ''b'')) = Some s \<and>
     sv_main s = Returned None \<and> \<not> sv_cancelled s"
  by (simp add: one_schedule_def one_start_def Serve_init_def act_simps frame_def buffer_writer_def)

text \<open>
  C27: While \<^verbatim>\<open>Serve\<close> runs, under every interleaving of its goroutines and whenever the context is
  cancelled, nothing panics: no goroutine sends on a closed channel, no channel is closed twice,
  and no request makes the decoder or the log line panic. The response channel is closed only
  when every handler has returned, and the queues never hold more than their capacities.
\<close>

theorem serve_never_panics:
  assumes "reachable (serve_start r w maxSize) (serve_step env marshal wr sends) s"
  shows "sv_panic s = None \<and>
    (chan_closed (sv_respCh s) \<longrightarrow> list_all hr_done (sv_handlers s)) \<and>
    length (chan_buf (sv_reqCh s)) \<le> 100 \<and> length (chan_buf (sv_respCh s)) \<le> 100 \<and>
    length (chan_buf (sv_errCh s)) \<le> 1"
  using serving.reachable_invar [OF assms] by (cases "sv_main s") (auto simp: serve_ok_defs chan_ok_def)

theorem serve_never_panics_witness:
  "\<exists>s. acts one_env Some buffer_writer (\<lambda>_. Some [''ok'']) one_schedule (one_start (frame ''b'')) = Some s \<and>
     sv_panic s = None"
proof -
  obtain s where "acts one_env Some buffer_writer (\<lambda>_. Some [''ok'']) one_schedule (one_start (frame ''b'')) = Some s"
    using one_run by blast
  with serve_never_panics [OF acts_reachable [OF this one_start_reachable, of "\<lambda>_ _. True"]] show ?thesis by blast
qed



lemma serve_done:
  assumes "\<forall>b w. snd (wr b w) = None \<longrightarrow> contents (fst (wr b w)) = contents w @ b"
    and "\<forall>m\<in>set ms. int (length m) \<le> maxSize \<and> length m < 2 ^ 32"
    and "reachable (serve_start \<lparr>rd_data = concat (map frame ms), rd_end = IoEOF\<rparr> w maxSize)
      (serve_step env marshal wr sends) s"
    and "sv_main s = Returned None" "\<not> sv_cancelled s"
  shows "mapE (RequestFromJSON env) ms = Inr (map hr_req (sv_handlers s)) \<and>
    (\<forall>i<length (sv_handlers s). sends (hr_req (sv_handlers s ! i)) (from_handler i (sv_sent s))) \<and>
    contents (enc_w (sv_enc s)) =
      contents w @ concat (map (\<lambda>x. frame (the (marshal (snd x)))) (sv_sent s))"
proof -
  let ?r = "\<lparr>rd_data = concat (map frame ms), rd_end = IoEOF\<rparr>"
  note h = history.reachable_invar [OF assms(3)]
  have ok: "serve_ok maxSize s" "log_ok s" "queued_ok s" "errors_ok s"
    "output_ok marshal wr (NewEncoder w maxSize) s" using h by (simp_all add: serve_history_def)
  from h obtain d0 where d0: "NewDecoder ?r maxSize = Inr d0" "decoded_ok env d0 s"
    by (auto simp: serve_history_def)
  have nr: "\<not> reported s" using assms(4) by (simp add: reported_def)
  then have fin: "sv_reader s = RdGone" "chan_buf (sv_reqCh s) = []" "Decoder_Err (sv_dec s) = None"
    using ok(4) assms(4,5) by (auto simp: errors_ok_def)
  have wr: "sv_writer s = WrGone" "list_all hr_done (sv_handlers s)"
    using ok(1) assms(4) by (simp_all add: serve_ok_def)
  then have enc: "sv_encErr s = None" using nr ok(4) by (auto simp: errors_ok_def)
  with wr(1) ok(5) have "chan_buf (sv_respCh s) = []"
    "encode_all marshal wr (NewEncoder w maxSize) (sv_taken s) = (sv_enc s, None)"
    by (auto simp: output_ok_def)
  moreover from this(1) ok(2) have tk: "sv_taken s = map snd (sv_sent s)" by (simp add: log_ok_def)
  ultimately have out: "contents (enc_w (sv_enc s)) =
      contents w @ concat (map (\<lambda>x. frame (the (marshal (snd x)))) (sv_sent s))"
    using encode_all_frames [OF assms(1), of marshal "NewEncoder w maxSize" "sv_taken s" "sv_enc s"]
    by (simp add: tk NewEncoder_def o_def)
  have "from_handler i (sv_sent s) = hr_all (sv_handlers s ! i)" if "i < length (sv_handlers s)" for i
    using that ok(2) wr(2) by (auto simp: log_ok_def list_all_length)
  moreover have "answers_ok sends s" using answering.reachable_invar [OF assms(3)] by simp
  ultimately have ans: "\<forall>i<length (sv_handlers s). sends (hr_req (sv_handlers s ! i)) (from_handler i (sv_sent s))"
    by (simp add: answers_ok_def list_all_length)
  have d: "ready d0" "pending d0 = concat (map frame ms)" "decoder_ok maxSize d0" "\<forall>m\<in>set ms. fits d0 m"
    using NewDecoder_ready [OF d0(1)] assms(2) decoder.invar_start [of maxSize d0] d0(1)
    by (auto simp: decoder_start_def fits_def)
  have "sv_read s = map hr_req (sv_handlers s)" using ok(3) fin by (simp add: queued_ok_def)
  then have "read_msgs (next_request env) (Suc (length (map hr_req (sv_handlers s)))) d0 =
      (map hr_req (sv_handlers s), sv_dec s)"
    using d0(2) fin(1) by (simp add: decoded_ok_def del: read_msgs.simps)
  from read_all_frames [OF d(3,1,4,2) this fin(3)] ans out show ?thesis by blast
qed

text \<open>
  C2: When \<^verbatim>\<open>Serve\<close> returns without an error and was not cancelled, it has done everything: each
  message of the input was decoded and handed to one handler, in the order they came; every
  handler's responses were all sent, in its own order; and the bytes written are exactly the
  frames of these responses, one after the other. (The writer keeps the \<^verbatim>\<open>io.Writer\<close> contract.)
\<close>

theorem serve_complete:
  assumes "\<forall>b w. snd (wr b w) = None \<longrightarrow> contents (fst (wr b w)) = contents w @ b"
    and "\<forall>m\<in>set ms. int (length m) \<le> maxSize \<and> length m < 2 ^ 32"
    and "reachable (serve_start \<lparr>rd_data = concat (map frame ms), rd_end = IoEOF\<rparr> w maxSize)
      (serve_step env marshal wr sends) s"
    and "sv_main s = Returned None" "\<not> sv_cancelled s"
  shows "mapE (RequestFromJSON env) ms = Inr (map hr_req (sv_handlers s)) \<and>
    (\<forall>i<length (sv_handlers s). sends (hr_req (sv_handlers s ! i)) (from_handler i (sv_sent s))) \<and>
    contents (enc_w (sv_enc s)) =
      contents w @ concat (map (\<lambda>x. frame (the (marshal (snd x)))) (sv_sent s))"
  using assms by (rule serve_done)

theorem serve_complete_witness:
  "\<exists>s. acts one_env Some buffer_writer (\<lambda>_. Some [''ok'']) one_schedule (one_start (frame ''b'')) = Some s \<and>
     map hr_req (sv_handlers s) = [one_request] \<and> from_handler 0 (sv_sent s) = [''ok'']"
proof -
  obtain s where s: "acts one_env Some buffer_writer (\<lambda>_. Some [''ok'']) one_schedule (one_start (frame ''b'')) = Some s"
    "sv_main s = Returned None" "\<not> sv_cancelled s"
    using one_run by blast
  have "reachable (serve_start \<lparr>rd_data = concat (map frame [''b'']), rd_end = IoEOF\<rparr> [] 10)
      (serve_step one_env Some buffer_writer (\<lambda>r ms. ms = [''ok''])) s"
    using acts_reachable [OF s(1) one_start_reachable, of "\<lambda>r ms. ms = [''ok'']"] by simp
  from serve_complete [where contents = "\<lambda>w. w", OF _ _ this s(2,3)] s(1) show ?thesis
    by (auto simp: buffer_writer_def map_eq_Cons_conv)
qed

text \<open>
  C28: \<^verbatim>\<open>Serve\<close> returns an error whenever a response could not be written, and whenever the input
  ended with an error, the latter unless the context was cancelled.
\<close>

theorem serve_reports_errors:
  assumes "reachable (serve_start r w maxSize) (serve_step env marshal wr sends) s"
    and "sv_main s = Returned res"
    and "sv_encErr s \<noteq> None \<or> (Decoder_Err (sv_dec s) \<noteq> None \<and> \<not> sv_cancelled s)"
  shows "res \<noteq> None"
proof -
  have ok: "serve_ok maxSize s" "errors_ok s"
    using history.reachable_invar [OF assms(1)] by (simp_all add: serve_history_def)
  have "sv_writer s = WrGone" using ok(1) assms(2) by (simp add: serve_ok_def)
  with ok(2) assms(2,3) show ?thesis
    by (cases "sv_reader s = RdGone") (auto simp: errors_ok_def reported_def)
qed

lemma cut_run:
  "\<exists>s. acts one_env Some buffer_writer (\<lambda>_. Some [''ok''])
     [Reader, Reader, Reader, SelectErr, Main, Main, Writer, Main, Main] (one_start ''x'') = Some s \<and>
     sv_main s = Returned (Some IoUnexpectedEOF) \<and> Decoder_Err (sv_dec s) \<noteq> None \<and> \<not> sv_cancelled s"
  by (simp add: one_start_def Serve_init_def act_simps select_err_def)

theorem serve_reports_errors_witness:
  "\<exists>s res. acts one_env Some buffer_writer (\<lambda>_. Some [''ok''])
     [Reader, Reader, Reader, SelectErr, Main, Main, Writer, Main, Main] (one_start ''x'') = Some s \<and>
     sv_main s = Returned res \<and> res \<noteq> None"
proof -
  obtain s where s: "acts one_env Some buffer_writer (\<lambda>_. Some [''ok''])
     [Reader, Reader, Reader, SelectErr, Main, Main, Writer, Main, Main] (one_start ''x'') = Some s"
    "sv_main s = Returned (Some IoUnexpectedEOF)" "Decoder_Err (sv_dec s) \<noteq> None" "\<not> sv_cancelled s"
    using cut_run by blast
  from serve_reports_errors [OF acts_reachable [OF s(1) one_start_reachable, of "\<lambda>_ _. True"] s(2)] s show ?thesis by blast
qed

text \<open>
  The error channel has room for one error, and after the loop nobody receives from it until the
  writer is done. A run in which the context is cancelled, the input breaks off inside a message
  and a response then fails to encode: the writer waits for room in the error channel, \<^verbatim>\<open>Serve\<close>
  waits for the writer, and neither ever moves again.
\<close>

definition hang_schedule :: "action list" where
  "hang_schedule = [Reader, Reader, SelectReq, Handler 0, Cancel, SelectCancel, Reader, Reader, Reader,
     Reader, Handler 0, Main, Main, Writer]"

lemma hang_run:
  "\<exists>s. acts one_env (\<lambda>_. None) buffer_writer (\<lambda>_. Some [''nan'']) hang_schedule (one_start (frame ''b'' @ ''x'')) = Some s \<and>
     sv_main s = AwaitDone \<and> sv_writer s = WrErr (StreamRpc ErrMsgInvalid) \<and> sv_reader s = RdGone \<and>
     sv_cancelled s \<and> chan_full (sv_errCh s) \<and> \<not> chan_closed (sv_errCh s) \<and> list_all hr_done (sv_handlers s)"
  by (simp add: hang_schedule_def one_start_def Serve_init_def act_simps frame_def)

lemma hang_stuck:
  assumes "sv_main s = AwaitDone" "sv_writer s = WrErr e" "sv_reader s = RdGone" "sv_cancelled s"
    "chan_full (sv_errCh s)" "\<not> chan_closed (sv_errCh s)" "list_all hr_done (sv_handlers s)"
  shows "\<not> serve_step env marshal wr sends s t"
proof
  assume "serve_step env marshal wr sends s t"
  then show False
    by cases (use assms in \<open>auto simp: reader_step_def writer_step_def handler_step_def main_step_def
      select_cancel_def select_err_def select_req_def chan_send_open list_all_length split: if_splits\<close>)
qed

text \<open>
  C29: \<^verbatim>\<open>Serve\<close> can hang: there are an input, a handler that returns after one response and a run of
  the goroutines after which no step is possible and \<^verbatim>\<open>Serve\<close> has not returned, although the
  context was cancelled and every handler has returned.
\<close>

theorem serve_can_hang:
  "\<exists>s. reachable (serve_start \<lparr>rd_data = frame ''b'' @ ''x'', rd_end = IoEOF\<rparr> [] 10)
      (serve_step one_env (\<lambda>_. None) buffer_writer (\<lambda>r ms. ms = [''nan''])) s \<and>
     (\<forall>t. \<not> serve_step one_env (\<lambda>_. None) buffer_writer (\<lambda>r ms. ms = [''nan'']) s t) \<and>
     sv_main s = AwaitDone \<and> sv_cancelled s \<and> list_all hr_done (sv_handlers s)"
proof -
  obtain s where s: "acts one_env (\<lambda>_. None) buffer_writer (\<lambda>_. Some [''nan'']) hang_schedule
      (one_start (frame ''b'' @ ''x'')) = Some s" "sv_main s = AwaitDone"
    "sv_writer s = WrErr (StreamRpc ErrMsgInvalid)" "sv_reader s = RdGone" "sv_cancelled s"
    "chan_full (sv_errCh s)" "\<not> chan_closed (sv_errCh s)" "list_all hr_done (sv_handlers s)"
    using hang_run by blast
  from acts_reachable [OF s(1) one_start_reachable, of "\<lambda>r ms. ms = [''nan'']"] hang_stuck [OF s(2-8)] s(2,5,8) show ?thesis by auto
qed

end
