(* ===== verification/Runtime_Metrics.thy ===== *)
theory Runtime_Metrics
  imports Request_Handler Wire_Serve
begin

text \<open>
  Metrics of the runtime (\<^verbatim>\<open>src/launcher/metrics.go\<close>): the histogram that is drained into a portable
  sample, and the loop that reports metrics on the response channel. A \<^verbatim>\<open>float64\<close> is a finite
  value, an infinity or a NaN, its finite values being reals (so sums are exact). The Prometheus
  histogram is third-party code and a parameter: a record of the three calls made on it, with its
  documented behaviour as the hypothesis \<open>prometheus_contract\<close> below.
\<close>

datatype float64 = Fin real | PosInf | NegInf | NaN

fun flt_le :: "float64 \<Rightarrow> float64 \<Rightarrow> bool" where
  "flt_le NaN y = False"
| "flt_le x NaN = False"
| "flt_le NegInf y = True"
| "flt_le x PosInf = True"
| "flt_le (Fin a) (Fin b) = (a \<le> b)"
| "flt_le x y = False"

definition flt_lt :: "float64 \<Rightarrow> float64 \<Rightarrow> bool" where
  "flt_lt x y \<longleftrightarrow> flt_le x y \<and> \<not> flt_le y x"

definition IsNaN :: "float64 \<Rightarrow> bool" where
  "IsNaN x \<longleftrightarrow> x = NaN"

definition IsInf :: "float64 \<Rightarrow> bool" where
  "IsInf x \<longleftrightarrow> x = PosInf \<or> x = NegInf"

fun flt_val :: "float64 \<Rightarrow> real" where
  "flt_val (Fin a) = a"
| "flt_val _ = 0"

definition ClusterInteractionLatencyBuckets :: "float64 list" where
  "ClusterInteractionLatencyBuckets = map Fin [0.01, 0.025, 0.05, 0.1, 0.25, 0.5, 1, 5, 10, 30]"

record PluginMetrics =
  pm_ClusterInteractionLatency :: "HistogramSample option"
  pm_MemoryUsageBytes :: u64

definition zero_PluginMetrics :: PluginMetrics where
  "zero_PluginMetrics = \<lparr>pm_ClusterInteractionLatency = None, pm_MemoryUsageBytes = 0\<rparr>"


section \<open>The histogram\<close>

text \<open>The snapshot a Prometheus histogram writes, with cumulative bucket counts.\<close>

record dto_Histogram =
  dto_SampleCount :: u64
  dto_SampleSum :: real
  dto_Bucket :: "u64 list"

record 'h prometheus =
  pr_NewHistogram :: "float64 list \<Rightarrow> 'h"
  pr_Observe :: "float64 \<Rightarrow> 'h \<Rightarrow> 'h"
  pr_Write :: "'h \<Rightarrow> string + dto_Histogram option"

record 'h Histogram =
  hg_buckets :: "float64 list"
  hg_current :: 'h

text \<open>\<open>fmt\<close> is the verb \<^verbatim>\<open>%v\<close> on a float, which only the panic messages use.\<close>

fun check_buckets :: "(float64 \<Rightarrow> string) \<Rightarrow> nat \<Rightarrow> float64 option \<Rightarrow> float64 list \<Rightarrow> unit go" where
  "check_buckets fmt i prev [] = Inr ()"
| "check_buckets fmt i prev (b # bs) =
     (if flt_le b (Fin 0) \<or> IsNaN b \<or> IsInf b then
        Inl (PanicMsg (''NewHistogram: bucket['' @ nat_dec i @ ''] = '' @ fmt b @
          '', must be a finite positive number''))
      else (case prev of
          None \<Rightarrow> check_buckets fmt (Suc i) (Some b) bs
        | Some p \<Rightarrow>
            if flt_le b p then
              Inl (PanicMsg (''NewHistogram: buckets must be strictly increasing, but bucket['' @
                nat_dec (i - 1) @ ''] ('' @ fmt p @ '') >= bucket['' @ nat_dec i @ ''] ('' @ fmt b @ '')''))
            else check_buckets fmt (Suc i) (Some b) bs))"

definition newPrometheusHistogram :: "'h prometheus \<Rightarrow> float64 list \<Rightarrow> 'h" where
  "newPrometheusHistogram pr buckets = pr_NewHistogram pr buckets"

definition NewHistogram :: "(float64 \<Rightarrow> string) \<Rightarrow> 'h prometheus \<Rightarrow> float64 list \<Rightarrow> 'h Histogram go" where
  "NewHistogram fmt pr buckets =
     (if buckets = [] then Inl (PanicMsg ''NewHistogram: buckets must not be empty'')
      else andThen (check_buckets fmt 0 None buckets) (\<lambda>_.
        Inr \<lparr>hg_buckets = buckets, hg_current = newPrometheusHistogram pr buckets\<rparr>))"

definition Observe :: "'h prometheus \<Rightarrow> float64 \<Rightarrow> 'h Histogram \<Rightarrow> 'h Histogram" where
  "Observe pr v h = (if IsNaN v \<or> IsInf v \<or> flt_lt v (Fin 0) then h
     else h\<lparr>hg_current := pr_Observe pr v (hg_current h)\<rparr>)"

text \<open>Cumulative counts turned into counts per bucket; \<^verbatim>\<open>uint64\<close> subtraction wraps around.\<close>

fun per_bucket :: "u64 \<Rightarrow> u64 list \<Rightarrow> real list" where
  "per_bucket prev [] = []"
| "per_bucket prev (c # cs) = real (unat (c - prev)) # per_bucket c cs"

definition Drain :: "'h prometheus \<Rightarrow> 'h Histogram \<Rightarrow> 'h Histogram \<times> HistogramSample option" where
  "Drain pr h = (let old = hg_current h; h' = h\<lparr>hg_current := newPrometheusHistogram pr (hg_buckets h)\<rparr> in
     case pr_Write pr old of
       Inl err \<Rightarrow> (h', None)
     | Inr None \<Rightarrow> (h', None)
     | Inr (Some hist) \<Rightarrow>
         if dto_SampleCount hist = 0 then (h', None)
         else (h', Some \<lparr>hs_Buckets = per_bucket 0 (dto_Bucket hist), hs_Sum = dto_SampleSum hist\<rparr>))"


section \<open>The metrics loop\<close>

text \<open>
  What a plugin's \<^verbatim>\<open>Metrics\<close> does when it is called: it panics or returns. \<^term>\<open>None\<close> is a plugin
  without the interface. A recovered panic leaves the zero result.
\<close>

definition collectPluginMetrics :: "PluginMetrics go option \<Rightarrow> PluginMetrics" where
  "collectPluginMetrics mp = (case mp of
     None \<Rightarrow> zero_PluginMetrics
   | Some (Inl p) \<Rightarrow> zero_PluginMetrics
   | Some (Inr pm) \<Rightarrow> pm)"

definition metricsOnce :: "u64 \<Rightarrow> PluginMetrics go option \<Rightarrow> Response chan \<Rightarrow> Response chan go" where
  "metricsOnce uptime mp ch = (let pm = collectPluginMetrics mp;
       resp = NewMetricsResponse uptime (pm_MemoryUsageBytes pm) (pm_ClusterInteractionLatency pm) in
     andThen (chan_try_send (PMetrics resp) ch) (\<lambda>(ch', sent). Inr ch'))"

text \<open>The events the loop's select takes: a tick (with the uptime then and what \<^verbatim>\<open>Metrics\<close> does), or the
  end of the context.\<close>

datatype metrics_event = Tick u64 "PluginMetrics go option" | CtxDone

fun metricsLoop :: "metrics_event list \<Rightarrow> Response chan \<Rightarrow> Response chan go" where
  "metricsLoop [] ch = Inr ch"
| "metricsLoop (CtxDone # es) ch = Inr ch"
| "metricsLoop (Tick up mp # es) ch = andThen (metricsOnce up mp ch) (metricsLoop es)"


section \<open>Which boundaries are accepted\<close>

definition valid_bucket :: "float64 \<Rightarrow> bool" where
  "valid_bucket b \<longleftrightarrow> (\<exists>r>0. b = Fin r)"

definition valid_buckets :: "float64 list \<Rightarrow> bool" where
  "valid_buckets bs \<longleftrightarrow> list_all valid_bucket bs \<and> sorted_wrt (<) (map flt_val bs)"

lemma valid_bucket_checks:
  "flt_le b (Fin 0) \<or> IsNaN b \<or> IsInf b \<longleftrightarrow> \<not> valid_bucket b"
  by (cases b) (auto simp: IsNaN_def IsInf_def valid_bucket_def)

lemma valid_bucket_le: "valid_bucket a \<Longrightarrow> valid_bucket b \<Longrightarrow> flt_le a b \<longleftrightarrow> flt_val a \<le> flt_val b"
  by (auto simp: valid_bucket_def)

lemma check_buckets_from:
  "valid_bucket p \<Longrightarrow> check_buckets fmt i (Some p) bs = Inr () \<longleftrightarrow>
     valid_buckets bs \<and> (\<forall>b\<in>set bs. flt_val p < flt_val b)"
proof (induction bs arbitrary: i p)
  case (Cons b bs)
  show ?case
  proof (cases "valid_bucket b \<and> \<not> flt_le b p")
    case True
    with Cons.prems have "flt_val p < flt_val b" by (auto simp: valid_bucket_le)
    with True Cons.IH [of b "Suc i"] show ?thesis
      by (auto simp: valid_bucket_checks valid_buckets_def intro: less_trans)
  next
    case False
    with Cons.prems show ?thesis
      by (auto simp: valid_bucket_checks valid_buckets_def valid_bucket_le)
  qed
qed (simp add: valid_buckets_def)

lemma check_buckets_ok: "check_buckets fmt i None bs = Inr () \<longleftrightarrow> valid_buckets bs"
proof (cases bs)
  case (Cons b cs)
  then show ?thesis
    using check_buckets_from [of b fmt "Suc i" cs]
    by (auto simp: valid_bucket_checks valid_buckets_def)
qed (simp add: valid_buckets_def)

lemma valid_buckets_Fin: "valid_buckets bs \<Longrightarrow> bs = map Fin (map flt_val bs)"
  by (auto simp: valid_buckets_def list_all_iff valid_bucket_def intro!: nth_equalityI)
     (metis flt_val.simps(1) nth_mem)

lemma NewHistogram_ok:
  "(\<exists>h. NewHistogram fmt pr bs = Inr h) \<longleftrightarrow> bs \<noteq> [] \<and> valid_buckets bs"
  using check_buckets_ok [of fmt 0 bs]
  by (cases "check_buckets fmt 0 None bs") (auto simp: NewHistogram_def)


section \<open>Draining\<close>

definition bucket_has :: "real list \<Rightarrow> nat \<Rightarrow> real \<Rightarrow> bool" where
  "bucket_has bs i v \<longleftrightarrow> v \<le> bs ! i \<and> (\<forall>j<i. bs ! j < v)"

definition sample_of :: "real list \<Rightarrow> real list \<Rightarrow> HistogramSample option" where
  "sample_of bs vs = (if vs = [] then None else Some
     \<lparr>hs_Buckets = map (\<lambda>i. real (length (filter (bucket_has bs i) vs))) [0..<length bs], hs_Sum = sum_list vs\<rparr>)"

text \<open>
  Documented behaviour of the Prometheus client: after some observations, the snapshot has their
  number, their sum, and for each boundary the number of observations up to it.
\<close>

definition prometheus_contract :: "'h prometheus \<Rightarrow> bool" where
  "prometheus_contract pr \<longleftrightarrow> (\<forall>bs vs. sorted_wrt (<) bs \<longrightarrow> length vs < 2 ^ 64 \<longrightarrow>
     pr_Write pr (fold (pr_Observe pr) (map Fin vs) (pr_NewHistogram pr (map Fin bs))) =
       Inr (Some \<lparr>dto_SampleCount = of_nat (length vs), dto_SampleSum = sum_list vs,
         dto_Bucket = map (\<lambda>b. of_nat (length (filter (\<lambda>v. v \<le> b) vs))) bs\<rparr>))"

lemma per_bucket_nth:
  "i < length cs \<Longrightarrow> per_bucket prev cs ! i = real (unat (cs ! i - (if i = 0 then prev else cs ! (i - 1))))"
proof (induction cs arbitrary: prev i)
  case (Cons c cs)
  then show ?case by (cases i) (auto simp: nth_Cons')
qed simp

lemma length_per_bucket [simp]: "length (per_bucket prev cs) = length cs"
  by (induction cs arbitrary: prev) auto

lemma unat_of_nat64: "n < 2 ^ 64 \<Longrightarrow> unat (of_nat n :: u64) = n"
  by (simp add: unsigned_of_nat take_bit_nat_eq_self)

lemma unat_diff_of_nat:
  assumes "b \<le> a" "a < 2 ^ 64"
  shows "unat (of_nat a - of_nat b :: u64) = a - b"
proof -
  have "(of_nat a - of_nat b :: u64) = of_nat (a - b)" using assms(1) by (simp add: of_nat_diff)
  moreover have "unat (of_nat (a - b) :: u64) = a - b" using assms by (intro unat_of_nat64) simp
  ultimately show ?thesis by (simp only:)
qed

lemma count_split:
  fixes a b :: real
  assumes "a < b"
  shows "length (filter (\<lambda>v. v \<le> b) vs) =
    length (filter (\<lambda>v. v \<le> a) vs) + length (filter (\<lambda>v. a < v \<and> v \<le> b) vs)"
  using assms by (induction vs) auto

lemma bucket_has_sorted:
  assumes "sorted_wrt (<) bs" "i < length bs"
  shows "bucket_has bs i v \<longleftrightarrow> (if i = 0 then v \<le> bs ! 0 else bs ! (i - 1) < v \<and> v \<le> bs ! i)"
proof (cases i)
  case (Suc k)
  have "bs ! j \<le> bs ! k" if "j < i" for j
    using that Suc assms sorted_wrt_nth_less [OF assms(1), of j k] by (cases "j = k") auto
  with Suc show ?thesis by (auto simp: bucket_has_def intro: le_less_trans)
qed (simp add: bucket_has_def)

lemma per_bucket_counts:
  assumes "sorted_wrt (<) bs" "length vs < 2 ^ 64"
  shows "per_bucket 0 (map (\<lambda>b. of_nat (length (filter (\<lambda>v. v \<le> b) vs))) bs) =
    map (\<lambda>i. real (length (filter (bucket_has bs i) vs))) [0..<length bs]"
proof (rule nth_equalityI)
  fix i assume "i < length (per_bucket 0 (map (\<lambda>b. of_nat (length (filter (\<lambda>v. v \<le> b) vs))) bs))"
  then have i: "i < length bs" by simp
  let ?n = "\<lambda>b. length (filter (\<lambda>v. v \<le> b) vs)"
  have small: "?n b < 2 ^ 64" for b using assms(2) length_filter_le [of "\<lambda>v. v \<le> b" vs] by linarith
  have "unat (of_nat (?n (bs ! i)) - (if i = 0 then 0 else of_nat (?n (bs ! (i - 1)))) :: u64) =
      length (filter (bucket_has bs i) vs)"
  proof (cases i)
    case 0
    have "bucket_has bs 0 = (\<lambda>v. v \<le> bs ! 0)" by (simp add: bucket_has_def fun_eq_iff)
    with 0 show ?thesis using unat_of_nat64 [OF small] by simp
  next
    case (Suc k)
    with i have "bs ! k < bs ! i" using assms(1) by (simp add: sorted_wrt_nth_less)
    note split = count_split [OF this, of vs]
    have "bucket_has bs i = (\<lambda>v. bs ! k < v \<and> v \<le> bs ! i)"
      using bucket_has_sorted [OF assms(1) i] Suc by (simp add: fun_eq_iff)
    with split have n: "?n (bs ! k) \<le> ?n (bs ! i)" "?n (bs ! i) - ?n (bs ! k) = length (filter (bucket_has bs i) vs)"
      by simp_all
    with unat_diff_of_nat [OF n(1) small] Suc show ?thesis by (simp only: nat.simps diff_Suc_1 if_False)
  qed
  with i show "per_bucket 0 (map (\<lambda>b. of_nat (?n b)) bs) ! i =
      map (\<lambda>i. real (length (filter (bucket_has bs i) vs))) [0..<length bs] ! i"
    by (simp add: per_bucket_nth cong: if_cong del: of_nat_unat)
qed simp

lemma Drain_observed:
  assumes "prometheus_contract pr" "sorted_wrt (<) bs" "length vs < 2 ^ 64" "hg_buckets h = map Fin bs"
    "hg_current h = fold (pr_Observe pr) (map Fin vs) (pr_NewHistogram pr (map Fin bs))"
  shows "Drain pr h = (h\<lparr>hg_current := pr_NewHistogram pr (map Fin bs)\<rparr>, sample_of bs vs)"
proof -
  have "(of_nat (length vs) :: u64) = 0 \<longleftrightarrow> vs = []"
  proof
    assume "(of_nat (length vs) :: u64) = 0"
    then have "unat (of_nat (length vs) :: u64) = unat (0 :: u64)" by (rule arg_cong)
    then show "vs = []" unfolding unat_of_nat64 [OF assms(3)] by simp
  qed simp
  with assms show ?thesis
    by (simp add: Drain_def prometheus_contract_def newPrometheusHistogram_def per_bucket_counts sample_of_def)
qed

text \<open>Use of a histogram: observations and drains in any order, and what each drain returns.\<close>

datatype histogram_op = OpObserve float64 | OpDrain

fun histogram_run :: "'h prometheus \<Rightarrow> histogram_op list \<Rightarrow> 'h Histogram \<Rightarrow> HistogramSample option list" where
  "histogram_run pr [] h = []"
| "histogram_run pr (OpObserve v # ops) h = histogram_run pr ops (Observe pr v h)"
| "histogram_run pr (OpDrain # ops) h =
     (case Drain pr h of (h', sample) \<Rightarrow> sample # histogram_run pr ops h')"

text \<open>The abstract histogram is the list of the observations since the last drain.\<close>

fun accepted :: "float64 \<Rightarrow> real list" where
  "accepted (Fin a) = (if a < 0 then [] else [a])"
| "accepted _ = []"

fun histogram_spec :: "real list \<Rightarrow> histogram_op list \<Rightarrow> real list \<Rightarrow> HistogramSample option list" where
  "histogram_spec bs [] vs = []"
| "histogram_spec bs (OpObserve v # ops) vs = histogram_spec bs ops (vs @ accepted v)"
| "histogram_spec bs (OpDrain # ops) vs = sample_of bs vs # histogram_spec bs ops []"

lemma Observe_accepted:
  "Observe pr v h = h\<lparr>hg_current := fold (pr_Observe pr) (map Fin (accepted v)) (hg_current h)\<rparr>"
  by (cases v) (auto simp: Observe_def IsNaN_def IsInf_def flt_lt_def)

lemma length_accepted: "length (accepted v) \<le> 1"
  by (cases v) auto

lemma histogram_run_spec:
  assumes "prometheus_contract pr" "sorted_wrt (<) bs" "length vs + length ops < 2 ^ 64"
    "hg_buckets h = map Fin bs"
    "hg_current h = fold (pr_Observe pr) (map Fin vs) (pr_NewHistogram pr (map Fin bs))"
  shows "histogram_run pr ops h = histogram_spec bs ops vs"
  using assms(3-)
proof (induction ops arbitrary: h vs)
  case (Cons op ops)
  show ?case
  proof (cases op)
    case (OpObserve v)
    have "length (vs @ accepted v) + length ops < 2 ^ 64"
      using Cons.prems(1) length_accepted [of v] by simp
    with Cons.IH [of "vs @ accepted v" "Observe pr v h"] Cons.prems(2,3) OpObserve show ?thesis
      by (simp add: Observe_accepted)
  next
    case OpDrain
    with Drain_observed [OF assms(1,2) _ Cons.prems(2,3)] Cons.prems
      Cons.IH [of "[]" "h\<lparr>hg_current := pr_NewHistogram pr (map Fin bs)\<rparr>"] show ?thesis by simp
  qed
qed simp

text \<open>
  C19: A histogram implements a list of observations. For accepted boundaries, any sequence of
  \<^verbatim>\<open>Observe\<close> and \<^verbatim>\<open>Drain\<close> calls (fewer than \<open>2^64\<close>) returns at each drain what the list of the
  observations since the last drain gives: nothing when there were none, else the number of
  observations in each bucket (above the boundary before, up to its own) and their sum.
  Observations that are NaN, infinite or negative do not count.
\<close>

theorem histogram_refines:
  assumes "prometheus_contract pr" "NewHistogram fmt pr bs = Inr h" "length ops < 2 ^ 64"
  shows "histogram_run pr ops h = histogram_spec (map flt_val bs) ops []"
proof -
  from assms(2) have "valid_buckets bs" using NewHistogram_ok [of fmt pr bs] by blast
  then obtain rs where rs: "bs = map Fin rs" "sorted_wrt (<) rs"
    using valid_buckets_Fin [of bs] that [of "map flt_val bs"] by (simp add: valid_buckets_def)
  moreover have "h = \<lparr>hg_buckets = bs, hg_current = pr_NewHistogram pr bs\<rparr>"
    using assms(2) by (auto simp: NewHistogram_def newPrometheusHistogram_def split: if_splits)
  ultimately show ?thesis
    using histogram_run_spec [OF assms(1) rs(2), of "[]" ops h] assms(3) by (simp add: o_def)
qed

text \<open>A Prometheus histogram as the list of what it observed, which satisfies the contract.\<close>

definition list_prometheus :: "(float64 list \<times> float64 list) prometheus" where
  "list_prometheus = \<lparr>pr_NewHistogram = (\<lambda>bs. (bs, [])), pr_Observe = (\<lambda>v (bs, vs). (bs, vs @ [v])),
     pr_Write = (\<lambda>(bs, vs). Inr (Some \<lparr>dto_SampleCount = of_nat (length vs),
       dto_SampleSum = sum_list (map flt_val vs),
       dto_Bucket = map (\<lambda>b. of_nat (length (filter (\<lambda>v. flt_le v b) vs))) bs\<rparr>))\<rparr>"

lemma list_prometheus_fold:
  "fold (pr_Observe list_prometheus) xs (bs, vs) = (bs, vs @ xs)"
  by (induction xs arbitrary: vs) (auto simp: list_prometheus_def)

lemma list_prometheus_contract: "prometheus_contract list_prometheus"
proof -
  have "pr_NewHistogram list_prometheus bs = (bs, [])" for bs by (simp add: list_prometheus_def)
  then show ?thesis
    by (simp add: prometheus_contract_def list_prometheus_fold)
       (simp add: list_prometheus_def o_def filter_map)
qed

theorem histogram_refines_witness:
  "\<exists>h. NewHistogram (\<lambda>_. []) list_prometheus [Fin 1, Fin 2] = Inr h \<and>
     histogram_run list_prometheus
       [OpObserve (Fin 2), OpObserve NaN, OpObserve (Fin 7), OpDrain, OpDrain] h =
     [Some \<lparr>hs_Buckets = [0, 1], hs_Sum = 9\<rparr>, None]"
proof -
  have "\<exists>h. NewHistogram (\<lambda>_. []) list_prometheus [Fin 1, Fin 2] = Inr h"
    by (simp add: NewHistogram_def IsNaN_def IsInf_def)
  then obtain h where h: "NewHistogram (\<lambda>_. []) list_prometheus [Fin 1, Fin 2] = Inr h" ..
  with histogram_refines [OF list_prometheus_contract h, of "[OpObserve (Fin 2), OpObserve NaN,
      OpObserve (Fin 7), OpDrain, OpDrain]"] show ?thesis
    by (simp add: sample_of_def bucket_has_def)
qed

end
