(* ===== verification/Runtime_Options.thy ===== *)
theory Runtime_Options
  imports Runtime_Metrics
begin

text \<open>
  Options of a plugin (\<^verbatim>\<open>src/launcher/launcher.go\<close>, first part): the command-line flags with their
  defaults, their parsing by Go's \<^verbatim>\<open>flag\<close> package, the durations computed from them, the lookup of
  configuration paths, and the build information. The outside world is a parameter: environment
  variables and their expansion, the file system, the user ID, and the number syntax of \<^verbatim>\<open>strconv\<close>.
\<close>

record os_env =
  os_Getenv :: "string \<Rightarrow> string"
  os_ExpandEnv :: "string \<Rightarrow> string"
  os_Stat :: "string \<Rightarrow> bool"
  os_Getuid :: int
  parse_float :: "string \<Rightarrow> float64 option"
  parse_uint :: "string \<Rightarrow> u64 option"

text \<open>A duration is a 64-bit count of nanoseconds.\<close>

type_synonym Duration = "64 word"

definition Second :: Duration where "Second = 1000000000"

definition Hour :: real where "Hour = 3600000000000"

record DefaultOptions =
  do_Debug :: bool
  do_JobExpiry :: Duration
  do_HeartbeatInterval :: Duration
  do_LauncherConfig :: string
  do_PluginName :: string
  do_ScratchPath :: string
  do_ServerUser :: string
  do_Unprivileged :: bool
  do_LoggingDir :: string
  do_ConfigFile :: string
  do_MetricsInterval :: Duration
  do_jobExpiryHours :: float64
  do_heartbeatSeconds :: u64
  do_metricsIntervalSeconds :: u64
  do_threadPoolSize :: u64

definition zero_DefaultOptions :: DefaultOptions where
  "zero_DefaultOptions = \<lparr>do_Debug = False, do_JobExpiry = 0, do_HeartbeatInterval = 0, do_LauncherConfig = '''',
     do_PluginName = '''', do_ScratchPath = '''', do_ServerUser = '''', do_Unprivileged = False,
     do_LoggingDir = '''', do_ConfigFile = '''', do_MetricsInterval = 0, do_jobExpiryHours = Fin 0,
     do_heartbeatSeconds = 0, do_metricsIntervalSeconds = 0, do_threadPoolSize = 0\<rparr>"


section \<open>Paths\<close>

text \<open>\<^verbatim>\<open>path.Clean\<close>: the components, with empty ones and dots dropped and parents resolved.\<close>

fun clean_parts :: "bool \<Rightarrow> string list \<Rightarrow> string list \<Rightarrow> string list" where
  "clean_parts rooted out [] = rev out"
| "clean_parts rooted out (p # ps) =
     (if p = '''' \<or> p = ''.'' then clean_parts rooted out ps
      else if p = ''..'' then
        (case out of
           [] \<Rightarrow> if rooted then clean_parts rooted [] ps else clean_parts rooted [p] ps
         | q # qs \<Rightarrow> if q = ''..'' then clean_parts rooted (p # out) ps else clean_parts rooted qs ps)
      else clean_parts rooted (p # out) ps)"

definition path_Clean :: "string \<Rightarrow> string" where
  "path_Clean p =
     (let parts = clean_parts (path_IsAbs p) [] (split_on (CHR ''/'') p) in
      if path_IsAbs p then CHR ''/'' # join_with (CHR ''/'') parts
      else if parts = [] then ''.'' else join_with (CHR ''/'') parts)"

definition path_Join :: "string list \<Rightarrow> string" where
  "path_Join elems = (case filter (\<lambda>e. e \<noteq> '''') elems of
     [] \<Rightarrow> '''' | es \<Rightarrow> path_Clean (join_with (CHR ''/'') es))"

text \<open>The first of the given directories that holds an \<^verbatim>\<open>rstudio\<close> entry.\<close>

fun first_config_dir :: "(string \<Rightarrow> bool) \<Rightarrow> string list \<Rightarrow> string option" where
  "first_config_dir stat [] = None"
| "first_config_dir stat (d # ds) =
     (let dir = path_Join [d, ''rstudio''] in if stat dir then Some dir else first_config_dir stat ds)"

text \<open>\<^verbatim>\<open>ConfigPathf\<close>, on the formatted leaf.\<close>

definition ConfigPathf :: "os_env \<Rightarrow> string \<Rightarrow> string" where
  "ConfigPathf env leafPath =
     (let configDir = os_ExpandEnv env (os_Getenv env ''RSTUDIO_CONFIG_DIR'') in
      if configDir \<noteq> '''' then path_Join [configDir, leafPath]
      else (case first_config_dir (os_Stat env)
          (split_on (CHR '':'') (os_ExpandEnv env (os_Getenv env ''XDG_CONFIG_DIRS''))) of
          Some dir \<Rightarrow> path_Join [dir, leafPath]
        | None \<Rightarrow> path_Join [''/etc/rstudio'', leafPath]))"


section \<open>Flags\<close>

definition ParseBool :: "string \<Rightarrow> bool option" where
  "ParseBool s =
     (if s \<in> {''1'', ''t'', ''T'', ''true'', ''TRUE'', ''True''} then Some True
      else if s \<in> {''0'', ''f'', ''F'', ''false'', ''FALSE'', ''False''} then Some False
      else None)"

text \<open>
  A registered flag: whether it is a boolean flag (which takes no separate value) and the setter
  of its value, which fails on a malformed one.
\<close>

record opt_flag =
  fl_IsBoolFlag :: bool
  fl_Set :: "string \<Rightarrow> DefaultOptions \<Rightarrow> DefaultOptions option"

type_synonym FlagSet = "(string \<times> opt_flag) list"

definition parsed_flag :: "(string \<Rightarrow> 'v option) \<Rightarrow> ('v \<Rightarrow> DefaultOptions \<Rightarrow> DefaultOptions) \<Rightarrow> opt_flag" where
  "parsed_flag parse upd = \<lparr>fl_IsBoolFlag = False, fl_Set = (\<lambda>s opt. map_option (\<lambda>v. upd v opt) (parse s))\<rparr>"

definition bool_flag :: "(bool \<Rightarrow> DefaultOptions \<Rightarrow> DefaultOptions) \<Rightarrow> opt_flag" where
  "bool_flag upd = \<lparr>fl_IsBoolFlag = True, fl_Set = (\<lambda>s opt. map_option (\<lambda>v. upd v opt) (ParseBool s))\<rparr>"

definition option_flags :: "os_env \<Rightarrow> FlagSet" where
  "option_flags env = [
     (''enable-debug-logging'', parsed_flag ParseBool (\<lambda>b. do_Debug_update (\<lambda>_. b))),
     (''job-expiry-hours'', parsed_flag (parse_float env) (\<lambda>x. do_jobExpiryHours_update (\<lambda>_. x))),
     (''heartbeat-interval-seconds'', parsed_flag (parse_uint env) (\<lambda>n. do_heartbeatSeconds_update (\<lambda>_. n))),
     (''launcher-config-file'', parsed_flag Some (\<lambda>s. do_LauncherConfig_update (\<lambda>_. s))),
     (''plugin-name'', parsed_flag Some (\<lambda>s. do_PluginName_update (\<lambda>_. s))),
     (''scratch-path'', parsed_flag Some (\<lambda>s. do_ScratchPath_update (\<lambda>_. s))),
     (''server-user'', parsed_flag Some (\<lambda>s. do_ServerUser_update (\<lambda>_. s))),
     (''plugin-metrics-interval-seconds'',
        parsed_flag (parse_uint env) (\<lambda>n. do_metricsIntervalSeconds_update (\<lambda>_. n))),
     (''thread-pool-size'', parsed_flag (parse_uint env) (\<lambda>n. do_threadPoolSize_update (\<lambda>_. n))),
     (''unprivileged'', bool_flag (\<lambda>b. do_Unprivileged_update (\<lambda>_. b))),
     (''logging-dir'', parsed_flag Some (\<lambda>s. do_LoggingDir_update (\<lambda>_. s))),
     (''config-file'', parsed_flag Some (\<lambda>s. do_ConfigFile_update (\<lambda>_. s)))]"

text \<open>Registering the flags also stores the defaults.\<close>

definition AddFlags :: "os_env \<Rightarrow> string \<Rightarrow> DefaultOptions \<Rightarrow> FlagSet \<times> DefaultOptions" where
  "AddFlags env pluginName opt = (option_flags env, opt\<lparr>do_jobExpiryHours := Fin 24,
     do_heartbeatSeconds := 5, do_LauncherConfig := '''', do_PluginName := pluginName,
     do_ScratchPath := ''/var/lib/rstudio-launcher/'' @ pluginName, do_ServerUser := ''rstudio-server'',
     do_metricsIntervalSeconds := 60, do_threadPoolSize := 0, do_Unprivileged := (os_Getuid env \<noteq> 0),
     do_LoggingDir := ''/var/log/rstudio/launcher'',
     do_ConfigFile := ConfigPathf env (''launcher.'' @ pluginName @ ''.conf'')\<rparr>)"


section \<open>Parsing the command line\<close>

datatype flag_error = BadSyntax string | HelpRequested | NotDefined string | NeedsArgument string
  | InvalidValue string string

text \<open>The name and the joined value of a flag argument; the first character is never a separator.\<close>

fun flag_split :: "string \<Rightarrow> string \<times> string option" where
  "flag_split [] = ([], None)"
| "flag_split (c # cs) = (case splitN2 (CHR ''='') cs of
     [n, v] \<Rightarrow> (c # n, Some v) | _ \<Rightarrow> (c # cs, None))"

text \<open>\<^verbatim>\<open>FlagSet.Parse\<close>: the options and the remaining arguments.\<close>

function flag_Parse :: "FlagSet \<Rightarrow> string list \<Rightarrow> DefaultOptions \<Rightarrow> flag_error + (DefaultOptions \<times> string list)" where
  "flag_Parse fs [] opt = Inr (opt, [])"
| "flag_Parse fs (s # args) opt =
     (if length s < 2 \<or> hd s \<noteq> CHR ''-'' then Inr (opt, s # args)
      else if s = ''--'' then Inr (opt, args)
      else (let name = (if s ! 1 = CHR ''-'' then drop 2 s else drop 1 s) in
        if name = [] \<or> hd name = CHR ''-'' \<or> hd name = CHR ''='' then Inl (BadSyntax s)
        else (case flag_split name of (nm, joined) \<Rightarrow>
          (case map_of fs nm of
             None \<Rightarrow> if nm = ''help'' \<or> nm = ''h'' then Inl HelpRequested else Inl (NotDefined nm)
           | Some fl \<Rightarrow>
               if fl_IsBoolFlag fl then
                 (case fl_Set fl (case joined of None \<Rightarrow> ''true'' | Some v \<Rightarrow> v) opt of
                    None \<Rightarrow> Inl (InvalidValue nm (case joined of None \<Rightarrow> ''true'' | Some v \<Rightarrow> v))
                  | Some opt' \<Rightarrow> flag_Parse fs args opt')
               else (case joined of
                   Some v \<Rightarrow> (case fl_Set fl v opt of
                      None \<Rightarrow> Inl (InvalidValue nm v) | Some opt' \<Rightarrow> flag_Parse fs args opt')
                 | None \<Rightarrow> (case args of
                      [] \<Rightarrow> Inl (NeedsArgument nm)
                    | v # rest \<Rightarrow> (case fl_Set fl v opt of
                        None \<Rightarrow> Inl (InvalidValue nm v) | Some opt' \<Rightarrow> flag_Parse fs rest opt')))))))"
  by pat_completeness auto
termination by (relation "measure (\<lambda>(fs, args, opt). length args)") auto

text \<open>
  \<^verbatim>\<open>Validate\<close>: \<open>to_ns\<close> is the product of two floats converted to an integer; the other products are
  of 64-bit integers and wrap around.
\<close>

definition Validate :: "(real \<Rightarrow> float64 \<Rightarrow> Duration) \<Rightarrow> DefaultOptions \<Rightarrow> DefaultOptions" where
  "Validate to_ns opt = opt\<lparr>do_JobExpiry := to_ns Hour (do_jobExpiryHours opt),
     do_HeartbeatInterval := Second * do_heartbeatSeconds opt,
     do_MetricsInterval := Second * do_metricsIntervalSeconds opt\<rparr>"

definition LoadOptions ::
  "(real \<Rightarrow> float64 \<Rightarrow> Duration) \<Rightarrow> os_env \<Rightarrow> string list \<Rightarrow> string \<Rightarrow> DefaultOptions \<Rightarrow> flag_error + DefaultOptions" where
  "LoadOptions to_ns env args pluginName opt = (case AddFlags env (ToLower pluginName) opt of
     (fs, opt') \<Rightarrow> andThen (flag_Parse fs args opt') (\<lambda>(opt'', _). Inr (Validate to_ns opt'')))"


section \<open>Build information\<close>

text \<open>The settings the build recorded, when it recorded any; \<^verbatim>\<open>s.Value[:7]\<close> panics on a shorter value.\<close>

definition build_setting :: "string \<times> string \<Rightarrow> string \<times> string \<Rightarrow> (string \<times> string) go" where
  "build_setting s info = (case s of (key, value) \<Rightarrow>
     andThen (if key = ''vcs.revision'' then
         (if length value < 7 then Inl IndexOutOfRange else Inr (take 7 value, snd info))
       else Inr info)
     (\<lambda>info'. Inr (if key = ''vcs.time'' then (fst info', value) else info')))"

definition buildInfo :: "(string \<times> string) list option \<Rightarrow> (string \<times> string) go" where
  "buildInfo info = (case info of
     None \<Rightarrow> Inr (''unknown'', ''unknown'')
   | Some settings \<Rightarrow> foldE build_setting settings (''unknown'', ''unknown''))"



section \<open>Properties of the options\<close>

text \<open>Setting flags one after the other, which is what parsing comes to.\<close>

fun set_flags :: "FlagSet \<Rightarrow> (string \<times> string) list \<Rightarrow> DefaultOptions \<Rightarrow> flag_error + (DefaultOptions \<times> string list)" where
  "set_flags fs [] opt = Inr (opt, [])"
| "set_flags fs ((n, v) # kvs) opt = (case Option.bind (map_of fs n) (\<lambda>fl. fl_Set fl v opt) of
     None \<Rightarrow> Inl (InvalidValue n v) | Some opt' \<Rightarrow> set_flags fs kvs opt')"

definition flag_name :: "string \<Rightarrow> bool" where
  "flag_name n \<longleftrightarrow> n \<noteq> [] \<and> hd n \<noteq> CHR ''-'' \<and> CHR ''='' \<notin> set n"

lemma flag_split_name: "flag_name n \<Longrightarrow> flag_split n = (n, None)"
  by (cases n) (auto simp: flag_name_def splitN2_free)

lemma option_flag_names: "map_of (option_flags env) n = Some fl \<Longrightarrow> flag_name n"
  by (auto simp: option_flags_def flag_name_def split: if_splits)

lemma flag_Parse_pair:
  assumes "flag_name n" "map_of fs n = Some fl" "\<not> fl_IsBoolFlag fl"
  shows "flag_Parse fs ((''--'' @ n) # v # args) opt = (case fl_Set fl v opt of
    None \<Rightarrow> Inl (InvalidValue n v) | Some opt' \<Rightarrow> flag_Parse fs args opt')"
proof -
  have "hd n \<noteq> CHR ''=''" using assms(1) by (metis flag_name_def hd_in_set)
  with assms flag_split_name [OF assms(1)] show ?thesis
    by (auto simp: flag_name_def split: option.split)
qed


definition plain_env :: os_env where
  "plain_env = \<lparr>os_Getenv = \<lambda>_. '''', os_ExpandEnv = \<lambda>s. s, os_Stat = \<lambda>_. False, os_Getuid = 0,
     parse_float = \<lambda>_. None, parse_uint = \<lambda>s. map_option of_nat (unsigned_dec s)\<rparr>"


text \<open>
  C24: The intervals computed from whole seconds are exact, as signed nanoseconds, exactly up to
  9223372036 seconds; a larger number wraps around.
\<close>

theorem Validate_intervals:
  "(sint (do_HeartbeatInterval (Validate to_ns opt)) = 1000000000 * uint (do_heartbeatSeconds opt)
      \<longleftrightarrow> uint (do_heartbeatSeconds opt) \<le> 9223372036) \<and>
   (sint (do_MetricsInterval (Validate to_ns opt)) = 1000000000 * uint (do_metricsIntervalSeconds opt)
      \<longleftrightarrow> uint (do_metricsIntervalSeconds opt) \<le> 9223372036)"
proof -
  have "sint (Second * n) = 1000000000 * uint n \<longleftrightarrow> uint n \<le> 9223372036" for n :: u64
  proof
    assume "sint (Second * n) = 1000000000 * uint n"
    moreover have "sint (Second * n) < 2 ^ 63" using sint_lt [of "Second * n"] by simp
    ultimately show "uint n \<le> 9223372036" by simp
  next
    assume le: "uint n \<le> 9223372036"
    then have small: "1000000000 * uint n < 2 ^ 63" "0 \<le> uint n" by simp_all
    have "uint (Second * n) = 1000000000 * uint n mod 2 ^ 64"
      by (simp add: Second_def uint_word_ariths)
    with small have u: "uint (Second * n) = 1000000000 * uint n" by simp
    have "sint (Second * n) = signed_take_bit 63 (uint (Second * n))" by (simp add: signed_of_int sint_uint)
    also have "\<dots> = 1000000000 * uint n" unfolding u
      by (rule signed_take_bit_int_eq_self) (use small in linarith)+
    finally show "sint (Second * n) = 1000000000 * uint n" .
  qed
  then show ?thesis by (simp add: Validate_def)
qed

text \<open>
  Without the two environment variables the lookup still visits one directory: the list split
  from the empty string has one empty entry, and joining it gives a path relative to the
  directory the plugin was started in.
\<close>

lemma ConfigPathf_unset:
  assumes "os_ExpandEnv env (os_Getenv env ''RSTUDIO_CONFIG_DIR'') = ''''"
    "os_ExpandEnv env (os_Getenv env ''XDG_CONFIG_DIRS'') = ''''"
  shows "ConfigPathf env leaf =
    path_Join [if os_Stat env ''rstudio'' then ''rstudio'' else ''/etc/rstudio'', leaf]"
  using assms by (simp add: ConfigPathf_def path_Join_def path_Clean_def path_IsAbs_def)

lemma buildInfo_short: "buildInfo (Some [(''vcs.revision'', v)]) = Inl IndexOutOfRange \<longleftrightarrow> length v < 7"
  by (simp add: buildInfo_def build_setting_def)

end
