(* ===== verification/Plugin_Runtime.thy ===== *)
theory Plugin_Runtime
  imports Runtime_Options
begin

text \<open>
  The runtime put together (\<^verbatim>\<open>Runtime\<close> and \<^verbatim>\<open>Run\<close> in \<^verbatim>\<open>src/launcher/launcher.go\<close>): the communicator
  serving the request handler over a plugin, beside the metrics loop.
\<close>

record Runtime =
  rn_MaxMessageSize :: int
  rn_MetricsInterval :: Duration
  rn_p :: plugin

definition NewRuntime :: "plugin \<Rightarrow> Runtime" where
  "NewRuntime p = \<lparr>rn_MaxMessageSize = DefaultMaxMsgSize, rn_MetricsInterval = 0, rn_p = p\<rparr>"

text \<open>What \<^verbatim>\<open>Run\<close> does before it serves; the log lines it writes are left out.\<close>

definition Run :: "Runtime \<Rightarrow> (string \<times> string) list option \<Rightarrow> reader \<Rightarrow> 'w \<Rightarrow> (Response, 'w) serve_state go" where
  "Run rt info r w = andThen (NewCommunicator r w (rn_MaxMessageSize rt)) (\<lambda>comm.
     andThen (buildInfo info) (\<lambda>_. Inr (Serve_init comm)))"

text \<open>
  What a handler goroutine may send: the handler is run once, and each call the plugin makes on
  its writer meets the counter and the streams as other goroutines left them.
\<close>

inductive calls_send :: "defaultResponseWriter \<Rightarrow> writer_call list \<Rightarrow> Response list \<Rightarrow> bool"
  for w :: defaultResponseWriter where
  calls_end: "calls_send w [] []"
| calls_call: "run_call w c st = Inr (st', err) \<Longrightarrow> rt_out st' = rt_out st @ rs \<Longrightarrow>
    calls_send w cs ms \<Longrightarrow> calls_send w (c # cs) (rs @ ms)"

definition plugin_sends :: "plugin \<Rightarrow> int \<Rightarrow> Request \<Rightarrow> Response list \<Rightarrow> bool" where
  "plugin_sends p mi req ms \<longleftrightarrow> (\<exists>hs hd. createHandler p mi req hs = Inr hd \<and>
     (case hd_writer hd of None \<Rightarrow> ms = [] | Some w \<Rightarrow> calls_send w (hd_calls hd) ms))"

definition run_step ::
  "json_env \<Rightarrow> (Response \<Rightarrow> string option) \<Rightarrow> 'w writer \<Rightarrow> Runtime \<Rightarrow>
   (Response, 'w) serve_state \<Rightarrow> (Response, 'w) serve_state \<Rightarrow> bool" where
  "run_step env marshal wr rt =
     serve_step env marshal wr (plugin_sends (rn_p rt) (sint (rn_MetricsInterval rt)))"


section \<open>Answers\<close>

lemma calls_send_answers:
  assumes "Request_ID (rw_req w) = Inr rid" "calls_send w cs ms"
  shows "\<forall>r\<in>set ms. answers rid r \<and> no_null_lists r"
  using assms(2)
proof (induction rule: calls_send.induct)
  case (calls_call c st st' err rs cs ms)
  from run_call_outcome [OF assms(1), of c st] calls_call.hyps(1,2)
  have "\<forall>r\<in>set rs. answers rid r \<and> no_null_lists r" by auto
  with calls_call.IH show ?case by auto
qed simp

lemma plugin_sends_answers:
  assumes "Request_ID req = Inr rid" "plugin_sends p mi req ms"
  shows "\<forall>r\<in>set ms. answers rid r \<and> no_null_lists r"
proof -
  from assms(2) obtain hs hd where hd: "createHandler p mi req hs = Inr hd"
    "case hd_writer hd of None \<Rightarrow> ms = [] | Some w \<Rightarrow> calls_send w (hd_calls hd) ms"
    by (auto simp: plugin_sends_def)
  have "\<not> missing_job req" using hd(1) createHandler_panics [of req p mi hs] by auto
  from createHandler_runs [OF assms(1) this, of p mi hs] hd(1)
  have "\<forall>w. hd_writer hd = Some w \<longrightarrow> rw_req w = req" by auto
  with hd(2) assms(1) show ?thesis
    by (cases "hd_writer hd") (auto dest: calls_send_answers [rotated])
qed

lemma mapE_nth:
  "mapE f xs = Inr ys \<Longrightarrow> i < length xs \<Longrightarrow> f (xs ! i) = Inr (ys ! i)"
  by (induction xs arbitrary: ys i) (auto simp: nth_Cons split: nat.split)

lemma reachable_mono:
  assumes "reachable P step s" "\<And>s. P s \<Longrightarrow> Q s"
  shows "reachable Q step s"
  using assms(1) by (induction) (auto intro: reachable.intros assms(2))

lemma Run_serve_start: "Run rt info r w = Inr s \<Longrightarrow> serve_start r w (rn_MaxMessageSize rt) s"
  by (auto simp: Run_def serve_start_def)

lemma RequestFromJSON_ID: "RequestFromJSON env buf = Inr req \<Longrightarrow> \<exists>rid. Request_ID req = Inr rid"
  by (rule RequestFromJSON_base) (auto simp: Request_ID_def BaseRequest_Valid_def)


lemma quiet_plugin_sends:
  "plugin_sends quiet_plugin 0 one_request
     [PError (NewErrorResponse 7 CodeRequestNotSupported ''no'')]"
proof -
  let ?w = "newResponseWriter one_request" and ?r = "PError (NewErrorResponse 7 CodeRequestNotSupported ''no'')"
  have "calls_send ?w [CErrorf CodeRequestNotSupported ''no''] ([?r] @ [])"
    by (rule calls_call [where st = new_runtime_state and st' = "sendResponse ?r new_runtime_state" and err = None])
       (auto simp: run_call_def WriteErrorf_def newResponseWriter_def sendResponse_def
          Let_def intro: calls_end)
  moreover have "createHandler quiet_plugin 0 one_request idle_handler =
      Inr (respond idle_handler ?w [CErrorf CodeRequestNotSupported ''no''])"
    by (simp add: one_request_def quiet_plugin_def Let_def)
  ultimately show ?thesis by (auto simp: plugin_sends_def respond_def intro!: exI)
qed

definition run_answer :: "Request \<Rightarrow> Response list option" where
  "run_answer req = (if req = one_request
     then Some [PError (NewErrorResponse 7 CodeRequestNotSupported ''no'')] else None)"

definition run_start :: "(Response, string) serve_state" where
  "run_start = Serve_init \<lparr>co_enc = NewEncoder [] 10, co_dec =
     \<lparr>dcd_r = \<lparr>rd_data = frame ''b'', rd_end = IoEOF\<rparr>, dcd_headerBuf = replicate 4 (CHR 0x00),
      dcd_buf = replicate 10 (CHR 0x00), dcd_msgLen = 0, dcd_err = None\<rparr>\<rparr>"

lemma run_example:
  "\<exists>s. acts one_env (\<lambda>_. Some ''{}'') buffer_writer run_answer one_schedule run_start = Some s \<and>
     sv_main s = Returned None \<and> \<not> sv_cancelled s \<and>
     sv_sent s = [(0, PError (NewErrorResponse 7 CodeRequestNotSupported ''no''))]"
  by (simp add: one_schedule_def run_start_def Serve_init_def act_simps frame_def buffer_writer_def
      run_answer_def)



section \<open>Metrics at the end of the stream\<close>

text \<open>
  C22: The metrics loop runs beside \<^verbatim>\<open>Serve\<close> and is not in its wait group: a tick panics (sending on a
  closed channel) exactly when \<^verbatim>\<open>Serve\<close> has closed the response channel, and otherwise reports the
  metrics or, when the channel is full, drops them; it never blocks.
\<close>

theorem metrics_tick_outcome:
  assumes "reachable (serve_start r w maxSize) (serve_step env marshal wr sends) s"
  shows "metricsOnce uptime mp (sv_respCh s) =
    (if after_close (sv_main s) then Inl SendOnClosed
     else if length (chan_buf (sv_respCh s)) = 100 then Inr (sv_respCh s)
     else Inr ((sv_respCh s)\<lparr>chan_buf := chan_buf (sv_respCh s) @
       [PMetrics (NewMetricsResponse uptime
          (case mp of Some (Inr pm) \<Rightarrow> pm_MemoryUsageBytes pm | _ \<Rightarrow> 0)
          (case mp of Some (Inr pm) \<Rightarrow> pm_ClusterInteractionLatency pm | _ \<Rightarrow> None))]\<rparr>))"
proof -
  have "serve_ok maxSize s" by (rule serving.reachable_invar [OF assms])
  then have ch: "chan_closed (sv_respCh s) = after_close (sv_main s)"
    "chan_full (sv_respCh s) \<longleftrightarrow> length (chan_buf (sv_respCh s)) = 100"
    by (auto simp: serve_ok_defs chan_ok_def chan_full_def)
  show ?thesis
    by (simp add: metricsOnce_def collectPluginMetrics_def zero_PluginMetrics_def chan_try_send_def ch
        Let_def split: option.split sum.split)
qed

theorem metrics_tick_outcome_witness:
  "\<exists>s. acts one_env (\<lambda>_. Some ''{}'') buffer_writer run_answer one_schedule run_start = Some s \<and>
     metricsOnce 60 None (sv_respCh s) = Inl SendOnClosed"
proof -
  obtain s where s: "acts one_env (\<lambda>_. Some ''{}'') buffer_writer run_answer one_schedule run_start = Some s"
    "sv_main s = Returned None"
    using run_example by blast
  have "reachable (serve_start \<lparr>rd_data = frame ''b'', rd_end = IoEOF\<rparr> [] 10)
      (serve_step one_env (\<lambda>_. Some ''{}'') buffer_writer (\<lambda>_ _. True)) run_start"
    by (rule reachable.reach_start)
       (simp add: serve_start_def run_start_def NewCommunicator_def NewDecoder_def)
  from metrics_tick_outcome [OF acts_reachable [OF s(1) this], of 60 None] s show ?thesis by simp
qed

end
