(* ===== verification/Job_Store.thy ===== *)
theory Job_Store
  imports Api_Jobs "HOL-Library.Finite_Map"
begin

text \<open>
  The in-memory job store (\<^verbatim>\<open>src/cache/store.go\<close>). Its map from IDs to jobs is a finite map; every
  method holds the store's lock from beginning to end, so each is one atomic operation on it.
  The order in which \<^verbatim>\<open>range\<close> visits a Go map is unspecified: the methods that iterate take it as
  a parameter, any list that enumerates the map's keys. A callback that changes other state is a
  function that threads it. Jobs are values: the store hands out and keeps copies, and what the
  copies share (slices, and the targets of pointers) is never written by the SDK.
\<close>

record inMemoryStore =
  ims_jobs :: "(string, Job) fmap"

definition newInMemoryStore :: inMemoryStore where [store_defs]:
  "newInMemoryStore = \<lparr>ims_jobs = fmempty\<rparr>"

text \<open>Which key lists a \<^verbatim>\<open>range\<close> over the map may follow.\<close>

definition enumerates :: "string list \<Rightarrow> inMemoryStore \<Rightarrow> bool" where
  "enumerates ks s \<longleftrightarrow> distinct ks \<and> set ks = fset (fmdom (ims_jobs s))"

definition store_Count :: "inMemoryStore \<Rightarrow> nat" where [store_defs]:
  "store_Count s = fcard (fmdom (ims_jobs s))"

text \<open>The job \<^verbatim>\<open>View\<close> hands to its callback.\<close>

definition store_View :: "inMemoryStore \<Rightarrow> string \<Rightarrow> Job option" where [store_defs]:
  "store_View s jid = fmlookup (ims_jobs s) jid"

definition store_Delete :: "inMemoryStore \<Rightarrow> string \<Rightarrow> inMemoryStore" where [store_defs]:
  "store_Delete s jid = s\<lparr>ims_jobs := fmdrop jid (ims_jobs s)\<rparr>"


section \<open>Merging an update into a stored job\<close>

text \<open>A field assignment under a condition, recording that a change was made.\<close>

definition sync_field :: "bool \<Rightarrow> (Job \<Rightarrow> Job) \<Rightarrow> Job \<times> bool \<Rightarrow> Job \<times> bool" where
  "sync_field c asg ju = (if c then (asg (fst ju), True) else ju)"

definition syncJob2 :: "instant \<Rightarrow> Job \<Rightarrow> Job \<Rightarrow> Job \<times> bool" where
  "syncJob2 now job inp =
    (let ju = (job, False);
         ju = sync_field (job_Status inp \<noteq> job_Status job) (job_Status_update (\<lambda>_. job_Status inp)) ju;
         ju = sync_field (job_StatusMsg inp \<noteq> job_StatusMsg job)
                (job_StatusMsg_update (\<lambda>_. job_StatusMsg inp)) ju;
         ju = sync_field (job_StatusCode inp \<noteq> job_StatusCode job)
                (job_StatusCode_update (\<lambda>_. job_StatusCode inp)) ju;
         ju = sync_field (job_Pid inp \<noteq> None \<and> (job_Pid job = None \<or> the (job_Pid inp) \<noteq> the (job_Pid job)))
                (job_Pid_update (\<lambda>_. job_Pid inp)) ju;
         ju = sync_field (job_Host inp \<noteq> '''' \<and> job_Host inp \<noteq> job_Host job)
                (job_Host_update (\<lambda>_. job_Host inp)) ju;
         ju = sync_field (job_ExitCode inp \<noteq> None \<and>
                  (job_ExitCode job = None \<or> the (job_ExitCode inp) \<noteq> the (job_ExitCode job)))
                (job_ExitCode_update (\<lambda>_. job_ExitCode inp)) ju;
         ju = sync_field (job_Submitted inp \<noteq> None \<and>
                  (job_Submitted job = None \<or> the (job_Submitted inp) \<noteq> the (job_Submitted job)))
                (job_Submitted_update (\<lambda>_. job_Submitted inp)) ju
     in if job_LastUpdated inp \<noteq> None then (fst ju\<lparr>job_LastUpdated := job_LastUpdated inp\<rparr>, True)
        else if \<not> snd ju then (fst ju, False)
        else (fst ju\<lparr>job_LastUpdated := Some now\<rparr>, snd ju))"

text \<open>What the merge means, field by field.\<close>

definition or_else :: "'a option \<Rightarrow> 'a option \<Rightarrow> 'a option" where
  "or_else a b = (case a of None \<Rightarrow> b | Some _ \<Rightarrow> a)"

definition merged :: "Job \<Rightarrow> Job \<Rightarrow> Job" where
  "merged job inp = job\<lparr>
     job_Status := job_Status inp,
     job_StatusMsg := job_StatusMsg inp,
     job_StatusCode := job_StatusCode inp,
     job_Pid := or_else (job_Pid inp) (job_Pid job),
     job_Host := (if job_Host inp = '''' then job_Host job else job_Host inp),
     job_ExitCode := or_else (job_ExitCode inp) (job_ExitCode job),
     job_Submitted := or_else (job_Submitted inp) (job_Submitted job)\<rparr>"

lemma sync_fst:
  "fst (sync_field c asg ju) = (if c then asg (fst ju) else fst ju)"
  by (simp add: sync_field_def)

lemma sync_snd: "snd (sync_field c asg ju) \<longleftrightarrow> c \<or> snd ju"
  by (simp add: sync_field_def)

lemma or_else_cond:
  "or_else a b = (if a \<noteq> None \<and> (b = None \<or> the a \<noteq> the b) then a else b)"
  by (cases a; cases b) (auto simp: or_else_def)

lemma job_cond_update:
  "(if c then job_Status_update (\<lambda>_. a) j else j) = job_Status_update (\<lambda>s. if c then a else s) j"
  "(if c then job_StatusMsg_update (\<lambda>_. a) j else j) = job_StatusMsg_update (\<lambda>s. if c then a else s) j"
  "(if c then job_StatusCode_update (\<lambda>_. a) j else j) = job_StatusCode_update (\<lambda>s. if c then a else s) j"
  "(if c then job_Host_update (\<lambda>_. a) j else j) = job_Host_update (\<lambda>s. if c then a else s) j"
  "(if c then job_Pid_update (\<lambda>_. p) j else j) = job_Pid_update (\<lambda>s. if c then p else s) j"
  "(if c then job_ExitCode_update (\<lambda>_. p) j else j) = job_ExitCode_update (\<lambda>s. if c then p else s) j"
  "(if c then job_Submitted_update (\<lambda>_. p) j else j) = job_Submitted_update (\<lambda>s. if c then p else s) j"
  by simp_all

lemma merged_same:
  "merged job inp = job \<longleftrightarrow>
     job_Status inp = job_Status job \<and> job_StatusMsg inp = job_StatusMsg job \<and>
     job_StatusCode inp = job_StatusCode job \<and> or_else (job_Pid inp) (job_Pid job) = job_Pid job \<and>
     (job_Host inp = '''' \<or> job_Host inp = job_Host job) \<and>
     or_else (job_ExitCode inp) (job_ExitCode job) = job_ExitCode job \<and>
     or_else (job_Submitted inp) (job_Submitted job) = job_Submitted job" (is "?l \<longleftrightarrow> ?r")
proof
  assume ?l
  then have "job_Status (merged job inp) = job_Status job" "job_StatusMsg (merged job inp) = job_StatusMsg job"
    "job_StatusCode (merged job inp) = job_StatusCode job" "job_Pid (merged job inp) = job_Pid job"
    "job_Host (merged job inp) = job_Host job" "job_ExitCode (merged job inp) = job_ExitCode job"
    "job_Submitted (merged job inp) = job_Submitted job"
    by simp_all
  then show ?r by (simp add: merged_def split: if_splits)
next
  assume ?r then show ?l by (intro Job.equality) (auto simp: merged_def)
qed

lemma or_else_idem [simp]: "or_else a a = a"
  by (cases a) (simp_all add: or_else_def)

lemma merged_self: "merged job job = job"
  by (simp add: merged_def)

lemma or_else_same: "or_else a b = b \<longleftrightarrow> \<not> (a \<noteq> None \<and> (b = None \<or> the a \<noteq> the b))"
  by (cases a; cases b) (auto simp: or_else_def)

lemma syncJob2_merged:
  "syncJob2 now job inp =
     (if job_LastUpdated inp \<noteq> None then (merged job inp\<lparr>job_LastUpdated := job_LastUpdated inp\<rparr>, True)
      else if merged job inp = job then (job, False)
      else (merged job inp\<lparr>job_LastUpdated := Some now\<rparr>, True))"
proof -
  let ?all = "sync_field (job_Submitted inp \<noteq> None \<and>
       (job_Submitted job = None \<or> the (job_Submitted inp) \<noteq> the (job_Submitted job)))
       (job_Submitted_update (\<lambda>_. job_Submitted inp))
     (sync_field (job_ExitCode inp \<noteq> None \<and>
       (job_ExitCode job = None \<or> the (job_ExitCode inp) \<noteq> the (job_ExitCode job)))
       (job_ExitCode_update (\<lambda>_. job_ExitCode inp))
     (sync_field (job_Host inp \<noteq> '''' \<and> job_Host inp \<noteq> job_Host job) (job_Host_update (\<lambda>_. job_Host inp))
     (sync_field (job_Pid inp \<noteq> None \<and> (job_Pid job = None \<or> the (job_Pid inp) \<noteq> the (job_Pid job)))
       (job_Pid_update (\<lambda>_. job_Pid inp))
     (sync_field (job_StatusCode inp \<noteq> job_StatusCode job) (job_StatusCode_update (\<lambda>_. job_StatusCode inp))
     (sync_field (job_StatusMsg inp \<noteq> job_StatusMsg job) (job_StatusMsg_update (\<lambda>_. job_StatusMsg inp))
     (sync_field (job_Status inp \<noteq> job_Status job) (job_Status_update (\<lambda>_. job_Status inp))
       (job, False)))))))"
  have fst: "fst ?all = merged job inp"
    unfolding sync_fst fst_conv job_cond_update merged_def or_else_cond
    by (rule Job.equality) simp_all
  have snd: "snd ?all \<longleftrightarrow> merged job inp \<noteq> job"
    unfolding sync_snd snd_conv merged_same or_else_same by blast
  show ?thesis
    unfolding syncJob2_def Let_def fst snd by simp
qed

text \<open>
  C11: \<^verbatim>\<open>syncJob2\<close> merges an update into a stored job: status, status message and status code are
  taken over, PID, host, exit code and submission time are taken over where the update has them,
  and every other field of the stored job (ID, user, command, tags, ...) is out of reach. The
  change flag is set exactly when one of these fields changed or the update carries its own
  time stamp; a change without one is stamped with the current time, and no change leaves the
  job as it was.
\<close>

theorem syncJob2_correct:
  "syncJob2 now job inp =
     (if job_LastUpdated inp \<noteq> None then (merged job inp\<lparr>job_LastUpdated := job_LastUpdated inp\<rparr>, True)
      else if merged job inp = job then (job, False)
      else (merged job inp\<lparr>job_LastUpdated := Some now\<rparr>, True))"
  by (rule syncJob2_merged)

lemma syncJob2_self: "fst (syncJob2 now job job) = job"
  by (simp add: syncJob2_merged merged_self)


section \<open>Operations of the store\<close>

text \<open>
  \<^verbatim>\<open>Update\<close>: the callback gets a snapshot of the job, or nil, and may return nil to write nothing;
  a new job is stored as it is, an existing one is merged.
\<close>

definition store_Update ::
  "instant \<Rightarrow> inMemoryStore \<Rightarrow> string \<Rightarrow> (Job option \<Rightarrow> 'c \<Rightarrow> (Job option \<times> 'c) go) \<Rightarrow> 'c \<Rightarrow>
     (inMemoryStore \<times> bool \<times> 'c) go" where
  "store_Update now s jid fn c =
     andThen (fn (fmlookup (ims_jobs s) jid) c) (\<lambda>(inp, c').
       case inp of
         None \<Rightarrow> Inr (s, False, c')
       | Some j \<Rightarrow>
           (case fmlookup (ims_jobs s) jid of
              None \<Rightarrow> Inr (s\<lparr>ims_jobs := fmupd jid j (ims_jobs s)\<rparr>, False, c')
            | Some cur \<Rightarrow>
                (case syncJob2 now cur j of (result, updated) \<Rightarrow>
                   Inr (s\<lparr>ims_jobs := fmupd jid result (ims_jobs s)\<rparr>, updated, c'))))"

text \<open>The checks both iterations make of a job before they use it.\<close>

definition skip_user :: "string \<Rightarrow> Job \<Rightarrow> bool" where
  "skip_user user job \<longleftrightarrow> user \<noteq> ''*'' \<and> job_User job \<noteq> user"

definition filter_check :: "JobFilter option \<Rightarrow> Job \<Rightarrow> bool go" where
  "filter_check flt job = (case flt of None \<Rightarrow> Inr True | Some f \<Rightarrow> Includes f job)"

text \<open>The iterator \<^verbatim>\<open>Jobs\<close>: \<open>yield\<close> threads the state of the loop body and says whether to go on.\<close>

fun store_Jobs ::
  "string list \<Rightarrow> inMemoryStore \<Rightarrow> string \<Rightarrow> JobFilter option \<Rightarrow> (Job \<Rightarrow> 'c \<Rightarrow> 'c \<times> bool) \<Rightarrow> 'c \<Rightarrow> 'c go" where
  "store_Jobs [] s user flt yield c = Inr c"
| "store_Jobs (k # ks) s user flt yield c =
     (case fmlookup (ims_jobs s) k of
        None \<Rightarrow> store_Jobs ks s user flt yield c
      | Some job \<Rightarrow>
          if skip_user user job then store_Jobs ks s user flt yield c
          else andThen (filter_check flt job) (\<lambda>ok.
            if \<not> ok then store_Jobs ks s user flt yield c
            else (case yield job c of (c', go_on) \<Rightarrow>
              if go_on then store_Jobs ks s user flt yield c' else Inr c')))"

fun ids_loop ::
  "string list \<Rightarrow> inMemoryStore \<Rightarrow> string \<Rightarrow> JobFilter option \<Rightarrow> JobID list \<Rightarrow> JobID list go" where
  "ids_loop [] s user flt ids = Inr ids"
| "ids_loop (k # ks) s user flt ids =
     (case fmlookup (ims_jobs s) k of
        None \<Rightarrow> ids_loop ks s user flt ids
      | Some job \<Rightarrow>
          if skip_user user job then ids_loop ks s user flt ids
          else andThen (filter_check flt job) (\<lambda>ok.
            ids_loop ks s user flt (if ok then ids @ [job_ID job] else ids)))"

definition project_snapshot :: "JobFilter option \<Rightarrow> Job \<Rightarrow> Job" where
  "project_snapshot flt snapshot =
     (case flt of None \<Rightarrow> snapshot | Some f \<Rightarrow> WithFields snapshot (flt_Fields f))"

text \<open>\<^verbatim>\<open>JobsForUser\<close>: the list handed to the callback.\<close>

definition JobsForUser ::
  "string list \<Rightarrow> inMemoryStore \<Rightarrow> string \<Rightarrow> JobFilter option \<Rightarrow> Job list go" where
  "JobsForUser ks s user flt =
     andThen (ids_loop ks s user flt []) (\<lambda>ids.
       mapE (\<lambda>jid. andThen (deref (fmlookup (ims_jobs s) (id_str jid)))
         (\<lambda>snapshot. Inr (project_snapshot flt snapshot))) (sort ids))"

text \<open>The invariant: every job is stored under its own ID.\<close>

definition store_ok :: "inMemoryStore \<Rightarrow> bool" where
  "store_ok s \<longleftrightarrow> (\<forall>k j. fmlookup (ims_jobs s) k = Some j \<longrightarrow> id_str (job_ID j) = k)"


section \<open>What JobsForUser returns\<close>

definition visible :: "string \<Rightarrow> JobFilter option \<Rightarrow> Job \<Rightarrow> bool" where
  "visible user flt job \<longleftrightarrow> (user = ''*'' \<or> job_User job = user) \<and>
     (case flt of None \<Rightarrow> True | Some f \<Rightarrow> filter_matches f job)"

text \<open>A time filter that meets a job of the user without a submission time.\<close>

definition query_safe :: "inMemoryStore \<Rightarrow> string \<Rightarrow> JobFilter option \<Rightarrow> bool" where
  "query_safe s user flt \<longleftrightarrow> (\<forall>k j f. fmlookup (ims_jobs s) k = Some j \<longrightarrow> \<not> skip_user user j \<longrightarrow>
     flt = Some f \<longrightarrow> filter_safe f j)"

definition visible_keys :: "inMemoryStore \<Rightarrow> string \<Rightarrow> JobFilter option \<Rightarrow> string set" where
  "visible_keys s user flt = {k. \<exists>j. fmlookup (ims_jobs s) k = Some j \<and> visible user flt j}"

lemma filter_check_safe:
  "(\<And>f. flt = Some f \<Longrightarrow> filter_safe f job) \<Longrightarrow> \<not> skip_user user job \<Longrightarrow>
     filter_check flt job = Inr (visible user flt job)"
  by (cases flt) (auto simp: filter_check_def visible_def skip_user_def Includes_safe)

lemma ids_loop_safe:
  assumes "query_safe s user flt" "store_ok s"
  shows "ids_loop ks s user flt ids =
    Inr (ids @ map JobID (filter (\<lambda>k. k \<in> visible_keys s user flt) ks))"
proof (induction ks arbitrary: ids)
  case (Cons k ks)
  show ?case
  proof (cases "fmlookup (ims_jobs s) k")
    case None
    with Cons show ?thesis by (simp add: visible_keys_def)
  next
    case (Some j)
    have k: "job_ID j = JobID k" using assms(2) Some by (auto simp: store_ok_def JobID.expand)
    show ?thesis
    proof (cases "skip_user user j")
      case True
      then have "k \<notin> visible_keys s user flt"
        using Some by (auto simp: visible_keys_def visible_def skip_user_def)
      with Cons Some True show ?thesis by simp
    next
      case False
      then have "filter_check flt j = Inr (visible user flt j)"
        using assms(1) Some by (intro filter_check_safe) (auto simp: query_safe_def)
      with Cons Some False k show ?thesis by (simp add: visible_keys_def)
    qed
  qed
qed simp

lemma filter_check_Inl: "filter_check flt job = Inl e \<Longrightarrow> e = NilDeref"
  using Includes_safe [of _ job] Includes_unsafe [of _ job]
  by (cases flt) (auto simp: filter_check_def, metis Inl_Inr_False Inl_inject)

lemma ids_loop_unsafe:
  assumes "k \<in> set ks" "fmlookup (ims_jobs s) k = Some j" "\<not> skip_user user j"
    "flt = Some f" "\<not> filter_safe f j"
  shows "ids_loop ks s user flt ids = Inl NilDeref"
  using assms(1)
proof (induction ks arbitrary: ids)
  case (Cons k' ks)
  show ?case
  proof (cases "k' = k")
    case True
    then show ?thesis using assms by (simp add: filter_check_def Includes_unsafe)
  next
    case False
    with Cons have "ids_loop ks s user flt ids' = Inl NilDeref" for ids' by simp
    then show ?thesis
      by (auto split: option.splits simp: andThen_eq_Inl dest: filter_check_Inl)
         (metis filter_check_Inl sumE)
  qed
qed simp

lemma sort_map_JobID: "distinct ks \<Longrightarrow> sort (map JobID ks) = map JobID (sorted_list_of_set (set ks))"
  by (rule sorted_distinct_set_unique)
     (auto simp: distinct_map inj_on_def sorted_map less_eq_JobID_def
       intro: sorted_wrt_mono_rel [OF _ sorted_sorted_list_of_set])

lemma JobsForUser_result:
  assumes "store_ok s" and "enumerates ks s"
  shows "JobsForUser ks s user flt =
    (if query_safe s user flt
     then Inr (map (\<lambda>k. project_snapshot flt (the (fmlookup (ims_jobs s) k)))
       (sorted_list_of_set (visible_keys s user flt)))
     else Inl NilDeref)"
proof (cases "query_safe s user flt")
  case True
  let ?vis = "filter (\<lambda>k. k \<in> visible_keys s user flt) ks"
  have set: "set ?vis = visible_keys s user flt" "distinct ?vis"
    using assms(2) by (auto simp: enumerates_def visible_keys_def intro: fmdomI)
  have *: "JobsForUser ks s user flt =
    mapE (\<lambda>jid. andThen (deref (fmlookup (ims_jobs s) (id_str jid)))
         (\<lambda>snapshot. Inr (project_snapshot flt snapshot)))
      (map JobID (sorted_list_of_set (visible_keys s user flt)))"
    using ids_loop_safe [OF True assms(1), of ks "[]"] sort_map_JobID [OF set(2)] set(1)
    by (simp add: JobsForUser_def)
  have fin: "finite (visible_keys s user flt)" using set(1) by (metis finite_set)
  then have "\<exists>j. fmlookup (ims_jobs s) k = Some j"
    if "k \<in> set (sorted_list_of_set (visible_keys s user flt))" for k
    using that by (simp only: set_sorted_list_of_set) (auto simp: visible_keys_def)
  then show ?thesis unfolding *
    by (subst mapE_total [where g = "\<lambda>jid. project_snapshot flt (the (fmlookup (ims_jobs s) (id_str jid)))"])
       (force simp: True)+
next
  case False
  then obtain k j f where k: "fmlookup (ims_jobs s) k = Some j" "\<not> skip_user user j"
    "flt = Some f" "\<not> filter_safe f j" by (auto simp: query_safe_def)
  moreover have "k \<in> set ks" using assms(2) k(1) by (auto simp: enumerates_def intro: fmdomI)
  ultimately show ?thesis using False by (simp add: JobsForUser_def ids_loop_unsafe)
qed

text \<open>
  C10: \<^verbatim>\<open>JobsForUser\<close> returns, whatever order the map is visited in, exactly the user's jobs (every
  user's for \<^verbatim>\<open>*\<close>) that the filter admits, each once, in the order of their IDs and reduced to the
  fields the filter asks for. It panics exactly when the filter has a time bound and meets one
  of the user's jobs without a submission time.
\<close>

theorem JobsForUser_correct:
  assumes "store_ok s" and "enumerates ks s"
  shows "JobsForUser ks s user flt =
    (if query_safe s user flt
     then Inr (map (\<lambda>k. project_snapshot flt (the (fmlookup (ims_jobs s) k)))
       (sorted_list_of_set (visible_keys s user flt)))
     else Inl NilDeref)"
  using assms by (rule JobsForUser_result)

text \<open>A store of two jobs, for the concrete runs.\<close>

definition example_job :: "string \<Rightarrow> string \<Rightarrow> string \<Rightarrow> Job" where
  "example_job jid user status =
     zero_Job\<lparr>job_ID := JobID jid, job_User := user, job_Status := status\<rparr>"

definition example_store :: inMemoryStore where
  "example_store = \<lparr>ims_jobs = fmupd ''b'' (example_job ''b'' ''ann'' StatusRunning)
     (fmupd ''a'' (example_job ''a'' ''ann'' StatusFinished) fmempty)\<rparr>"

lemma example_store_ok [simp]: "store_ok example_store"
  by (simp add: store_ok_def example_store_def example_job_def)

lemma example_store_enum [simp]: "enumerates [''b'', ''a''] example_store"
  by (auto simp: enumerates_def example_store_def)

theorem JobsForUser_correct_witness:
  "JobsForUser [''b'', ''a''] example_store ''ann'' None =
     Inr [example_job ''a'' ''ann'' StatusFinished, example_job ''b'' ''ann'' StatusRunning]"
proof -
  have vis: "visible_keys example_store ''ann'' None = {''a'', ''b''}"
    by (auto simp: visible_keys_def visible_def example_store_def example_job_def split: if_splits)
  have "sorted_list_of_set {''a'', ''b''} = [''a'', ''b'']"
    by (rule sorted_distinct_set_unique) simp_all
  then show ?thesis
    using JobsForUser_correct [OF example_store_ok example_store_enum, of "''ann''" None]
    by (simp add: vis query_safe_def project_snapshot_def) (simp add: example_store_def)
qed


section \<open>The contract of a job store\<close>

lemma syncJob2_identity:
  "job_ID (fst (syncJob2 now job j)) = job_ID job" "job_User (fst (syncJob2 now job j)) = job_User job"
  by (simp_all add: syncJob2_def Let_def sync_field_def)

text \<open>What an update leaves under its key.\<close>

definition stored :: "instant \<Rightarrow> Job option \<Rightarrow> Job \<Rightarrow> Job" where
  "stored now cur j = (case cur of None \<Rightarrow> j | Some job \<Rightarrow> fst (syncJob2 now job j))"

text \<open>
  The interface \<^verbatim>\<open>jobStore\<close>: \<open>view\<close> reads, \<open>update\<close> writes what its callback returns and
  nothing else, a callback that creates a job has to give it the ID it is stored under.
\<close>

locale job_store =
  fixes ok :: "'s \<Rightarrow> bool"
    and view :: "'s \<Rightarrow> string \<Rightarrow> Job option"
    and update :: "instant \<Rightarrow> 's \<Rightarrow> string \<Rightarrow> (Job option \<Rightarrow> 'c \<Rightarrow> (Job option \<times> 'c) go) \<Rightarrow> 'c \<Rightarrow>
      ('s \<times> bool \<times> 'c) go"
    and delete :: "'s \<Rightarrow> string \<Rightarrow> 's"
  assumes view_ID: "ok s \<Longrightarrow> view s k = Some j \<Longrightarrow> id_str (job_ID j) = k"
    and update_runs: "fn (view s k) c = Inr (r, c') \<Longrightarrow>
      \<exists>s' u. update now s k fn c = Inr (s', u, c') \<and>
        view s' = (case r of None \<Rightarrow> view s | Some j \<Rightarrow> (view s)(k \<mapsto> stored now (view s k) j))"
    and update_panics: "fn (view s k) c = Inl e \<Longrightarrow> update now s k fn c = Inl e"
    and update_ok: "ok s \<Longrightarrow> update now s k fn c = Inr (s', u, c') \<Longrightarrow>
      (\<And>j d. view s k = None \<Longrightarrow> fn None c = Inr (Some j, d) \<Longrightarrow> id_str (job_ID j) = k) \<Longrightarrow> ok s'"
    and delete_view: "view (delete s k) = (view s)(k := None)"
    and delete_ok: "ok s \<Longrightarrow> ok (delete s k)"
begin

lemma update_result:
  assumes "update now s k fn c = Inr (s', u, c')"
  obtains r where "fn (view s k) c = Inr (r, c')"
    "view s' = (case r of None \<Rightarrow> view s | Some j \<Rightarrow> (view s)(k \<mapsto> stored now (view s k) j))"
proof (cases "fn (view s k) c")
  case (Inl e)
  with assms show thesis using update_panics [of fn s k c e now] by simp
next
  case (Inr rd)
  then obtain r d where r: "fn (view s k) c = Inr (r, d)" by (cases rd) auto
  with assms show thesis using update_runs [of fn s k c r d now] that [of r] by auto
qed

lemma update_other: "update now s k fn c = Inr (s', u, c') \<Longrightarrow> k' \<noteq> k \<Longrightarrow> view s' k' = view s k'"
  by (erule update_result) (simp split: option.splits)

lemma delete_all_view: "view (foldl delete s ks) k = (if k \<in> set ks then None else view s k)"
  by (induction ks arbitrary: s) (auto simp: delete_view)

lemma delete_all_ok: "ok s \<Longrightarrow> ok (foldl delete s ks)"
  by (induction ks arbitrary: s) (auto intro: delete_ok)

text \<open>An update never moves a job to another user or another ID.\<close>

lemma update_identity:
  assumes "view s k = Some j" "update now s k fn c = Inr (s', u, c')"
  shows "\<exists>j'. view s' k = Some j' \<and> job_ID j' = job_ID j \<and> job_User j' = job_User j"
proof -
  from assms(2) obtain r where
    "view s' = (case r of None \<Rightarrow> view s | Some i \<Rightarrow> (view s)(k \<mapsto> stored now (view s k) i))"
    by (rule update_result)
  then show ?thesis using assms(1) by (cases r) (simp_all add: stored_def syncJob2_identity)
qed

end

lemma store_Update_runs:
  assumes "fn (store_View s k) c = Inr (r, c')"
  shows "\<exists>s' u. store_Update now s k fn c = Inr (s', u, c') \<and>
    store_View s' = (case r of None \<Rightarrow> store_View s
       | Some j \<Rightarrow> (store_View s)(k \<mapsto> stored now (store_View s k) j))"
  using assms
  by (cases r; cases "fmlookup (ims_jobs s) k")
     (auto simp: store_Update_def store_View_def stored_def fun_eq_iff split: prod.splits)

lemma store_Update_ok:
  assumes "store_ok s" "store_Update now s k fn c = Inr (s', u, c')"
    and new: "\<And>j d. store_View s k = None \<Longrightarrow> fn None c = Inr (Some j, d) \<Longrightarrow> id_str (job_ID j) = k"
  shows "store_ok s'"
proof -
  from assms(2) obtain r d where "fn (store_View s k) c = Inr (r, d)"
    by (cases "fn (store_View s k) c") (auto simp: store_Update_def store_View_def)
  moreover from store_Update_runs [of fn, OF this, of now] assms(2) have "d = c'" by auto
  ultimately have r: "fn (store_View s k) c = Inr (r, c')" by simp
  have "store_View s' = (case r of None \<Rightarrow> store_View s
       | Some j \<Rightarrow> (store_View s)(k \<mapsto> stored now (store_View s k) j))"
    using store_Update_runs [of fn, OF r, of now] assms(2) by auto
  moreover have "id_str (job_ID (stored now (store_View s k) j)) = k" if "r = Some j" for j
  proof (cases "store_View s k")
    case None
    with new r that show ?thesis by (simp add: stored_def)
  next
    case (Some cur)
    with assms(1) show ?thesis by (simp add: stored_def syncJob2_identity store_ok_def store_View_def)
  qed
  ultimately show ?thesis using assms(1)
    by (cases r) (auto simp: store_ok_def store_View_def fun_eq_iff split: if_splits)
qed

interpretation mem: job_store store_ok store_View store_Update store_Delete
proof (unfold_locales, goal_cases)
  case 1 then show ?case by (simp add: store_ok_def store_View_def)
next
  case (2 fn s k c r c' now) then show ?case by (rule store_Update_runs)
next
  case 3 then show ?case by (simp add: store_Update_def store_View_def)
next
  case (4 s now k fn c s' u c') then show ?case by (rule store_Update_ok)
next
  case 5 show ?case by (simp add: store_View_def store_Delete_def fun_eq_iff)
next
  case 6 then show ?case by (simp add: store_ok_def store_Delete_def)
qed

end
