(* ===== verification/Sub_Manager.thy ===== *)
theory Sub_Manager
  imports Api_Types
begin

text \<open>
  Subscriptions to job status updates (\<^verbatim>\<open>subManager\<close>, \<^verbatim>\<open>subscriber\<close> and \<^verbatim>\<open>statusUpdate\<close> of
  \<^verbatim>\<open>src/cache/cache.go\<close>). A subscriber refers to its context and its channel by number; the channels
  are cells of a heap, so that a channel closed or filled through one reference is closed or
  full for every other. A \<^verbatim>\<open>Notify\<close> reads each context once: \<open>cancelled\<close> tells what it finds.
\<close>

record statusUpdate =
  su_ID :: JobID
  su_User :: string
  su_Name :: string
  su_Status :: string
  su_StatusCode :: string
  su_StatusMsg :: string

definition newStatusUpdateFromJob :: "Job \<Rightarrow> statusUpdate" where
  "newStatusUpdateFromJob job = \<lparr>su_ID = job_ID job, su_User = job_User job, su_Name = job_Name job,
     su_Status = job_Status job, su_StatusCode = job_StatusCode job, su_StatusMsg = job_StatusMsg job\<rparr>"

record subscriber =
  sub_Context :: nat
  sub_Channel :: nat
  sub_closed :: bool

record subManager =
  sm_subs :: "subscriber list"

type_synonym chan_heap = "nat \<Rightarrow> statusUpdate chan"

definition new_subManager :: subManager where
  "new_subManager = \<lparr>sm_subs = []\<rparr>"

definition sub_Count :: "subManager \<Rightarrow> nat" where
  "sub_Count m = length (sm_subs m)"

definition Subscribe :: "nat \<Rightarrow> nat \<Rightarrow> subManager \<Rightarrow> subManager" where
  "Subscribe ctx ch m =
     m\<lparr>sm_subs := sm_subs m @ [\<lparr>sub_Context = ctx, sub_Channel = ch, sub_closed = False\<rparr>]\<rparr>"

text \<open>
  The loop of \<^verbatim>\<open>Notify\<close>: a subscriber whose context has ended is dropped and its channel closed,
  any other gets the update unless its channel is full. The result is the list that remains,
  the heap and the two counts.
\<close>

fun notify_loop :: "(nat \<Rightarrow> bool) \<Rightarrow> statusUpdate \<Rightarrow> subscriber list \<Rightarrow> chan_heap \<Rightarrow>
    (subscriber list \<times> chan_heap \<times> nat \<times> nat) go" where
  "notify_loop cancelled u [] H = Inr ([], H, 0, 0)"
| "notify_loop cancelled u (sub # subs) H =
     (if cancelled (sub_Context sub) then
        andThen (chan_close (H (sub_Channel sub))) (\<lambda>ch.
          notify_loop cancelled u subs (H(sub_Channel sub := ch)))
      else
        andThen (chan_try_send u (H (sub_Channel sub))) (\<lambda>(ch, sent).
        andThen (notify_loop cancelled u subs (H(sub_Channel sub := ch))) (\<lambda>(rest, H', n, d).
          Inr (sub # rest, H', if sent then n + 1 else n, if sent then d else d + 1))))"

definition Notify :: "(nat \<Rightarrow> bool) \<Rightarrow> statusUpdate \<Rightarrow> subManager \<Rightarrow> chan_heap \<Rightarrow>
    (subManager \<times> chan_heap \<times> nat \<times> nat) go" where
  "Notify cancelled u m H = andThen (notify_loop cancelled u (sm_subs m) H) (\<lambda>(subs, H', n, d).
     Inr (m\<lparr>sm_subs := subs\<rparr>, H', n, d))"

text \<open>The loop of \<^verbatim>\<open>Close\<close>, which empties the list from the front.\<close>

fun close_loop :: "subscriber list \<Rightarrow> chan_heap \<Rightarrow> (chan_heap \<times> nat) go" where
  "close_loop [] H = Inr (H, 0)"
| "close_loop (sub # subs) H =
     (if \<not> sub_closed sub then
        andThen (chan_close (H (sub_Channel sub))) (\<lambda>ch.
        andThen (close_loop subs (H(sub_Channel sub := ch))) (\<lambda>(H', n). Inr (H', n + 1)))
      else close_loop subs H)"

definition sub_Close :: "subManager \<Rightarrow> chan_heap \<Rightarrow> (subManager \<times> chan_heap \<times> nat) go" where
  "sub_Close m H = andThen (close_loop (sm_subs m) H) (\<lambda>(H', n). Inr (m\<lparr>sm_subs := []\<rparr>, H', n))"


section \<open>What the loops do\<close>

definition sub_chans :: "subManager \<Rightarrow> nat set" where
  "sub_chans m = sub_Channel ` set (sm_subs m)"

text \<open>Every subscriber has an open channel of its own.\<close>

definition list_ok :: "chan_heap \<Rightarrow> subscriber list \<Rightarrow> bool" where
  "list_ok H subs \<longleftrightarrow> distinct (map sub_Channel subs) \<and>
     (\<forall>s\<in>set subs. \<not> chan_closed (H (sub_Channel s)) \<and> \<not> sub_closed s)"

definition subs_ok :: "chan_heap \<Rightarrow> subManager \<Rightarrow> bool" where
  "subs_ok H m \<longleftrightarrow> list_ok H (sm_subs m)"

text \<open>A channel after an update was offered to it.\<close>

definition offered :: "statusUpdate \<Rightarrow> statusUpdate chan \<Rightarrow> statusUpdate chan" where
  "offered u ch = (if chan_full ch then ch else ch\<lparr>chan_buf := chan_buf ch @ [u]\<rparr>)"

definition notified_heap :: "(nat \<Rightarrow> bool) \<Rightarrow> statusUpdate \<Rightarrow> subscriber list \<Rightarrow> chan_heap \<Rightarrow> chan_heap" where
  "notified_heap cancelled u subs H = (\<lambda>c.
     if \<exists>s\<in>set subs. sub_Channel s = c \<and> cancelled (sub_Context s) then (H c)\<lparr>chan_closed := True\<rparr>
     else if \<exists>s\<in>set subs. sub_Channel s = c then offered u (H c)
     else H c)"

lemma list_ok_Cons:
  "list_ok H (s # subs) \<longleftrightarrow> sub_Channel s \<notin> sub_Channel ` set subs \<and>
     \<not> chan_closed (H (sub_Channel s)) \<and> \<not> sub_closed s \<and> list_ok H subs"
  by (auto simp: list_ok_def)

lemma list_ok_upd: "c \<notin> sub_Channel ` set subs \<Longrightarrow> list_ok (H(c := ch)) subs = list_ok H subs"
  by (auto simp: list_ok_def)

lemma notify_loop_ok:
  assumes "list_ok H subs"
  shows "\<exists>n d. notify_loop cancelled u subs H =
      Inr (filter (\<lambda>s. \<not> cancelled (sub_Context s)) subs, notified_heap cancelled u subs H, n, d) \<and>
    n + d = length (filter (\<lambda>s. \<not> cancelled (sub_Context s)) subs) \<and>
    n = length (filter (\<lambda>s. \<not> cancelled (sub_Context s) \<and> \<not> chan_full (H (sub_Channel s))) subs)"
  using assms
proof (induction subs arbitrary: H)
  case Nil
  then show ?case by (simp add: notified_heap_def)
next
  case (Cons s subs)
  let ?c = "sub_Channel s"
  have c: "?c \<notin> sub_Channel ` set subs" "\<not> chan_closed (H ?c)" "list_ok H subs"
    using Cons.prems by (simp_all add: list_ok_Cons)
  have ok: "list_ok (H(?c := ch)) subs" for ch using c by (simp add: list_ok_upd)
  have full: "filter (\<lambda>s. \<not> cancelled (sub_Context s) \<and> \<not> chan_full ((H(?c := ch)) (sub_Channel s))) subs =
      filter (\<lambda>s. \<not> cancelled (sub_Context s) \<and> \<not> chan_full (H (sub_Channel s))) subs" for ch
    using c(1) by (intro filter_cong) (force simp: image_iff)+
  have heap: "notified_heap cancelled u subs (H(?c := ch)) = notified_heap cancelled u (s # subs) H"
    if "ch = (if cancelled (sub_Context s) then (H ?c)\<lparr>chan_closed := True\<rparr> else offered u (H ?c))" for ch
    using c(1) that by (auto simp: notified_heap_def fun_eq_iff image_iff)
  show ?case
  proof (cases "cancelled (sub_Context s)")
    case True
    let ?ch = "(H ?c)\<lparr>chan_closed := True\<rparr>"
    have "chan_close (H ?c) = Inr ?ch" using c(2) by (simp add: chan_close_def)
    with Cons.IH [OF ok [of ?ch]] True heap [of ?ch] full [of ?ch] show ?thesis
      by (simp del: fun_upd_apply)
  next
    case False
    let ?ch = "offered u (H ?c)"
    have "chan_try_send u (H ?c) = Inr (?ch, \<not> chan_full (H ?c))"
      using c(2) by (simp add: chan_try_send_def offered_def)
    with Cons.IH [OF ok [of ?ch]] False heap [of ?ch] full [of ?ch] show ?thesis
      by (auto simp del: fun_upd_apply)
  qed
qed

definition closed_heap :: "nat set \<Rightarrow> chan_heap \<Rightarrow> chan_heap" where
  "closed_heap C H = (\<lambda>c. if c \<in> C then (H c)\<lparr>chan_closed := True\<rparr> else H c)"

lemma close_loop_ok:
  assumes "list_ok H subs"
  shows "close_loop subs H = Inr (closed_heap (sub_Channel ` set subs) H, length subs)"
  using assms
proof (induction subs arbitrary: H)
  case (Cons s subs)
  let ?c = "sub_Channel s" and ?ch = "(H (sub_Channel s))\<lparr>chan_closed := True\<rparr>"
  have c: "?c \<notin> sub_Channel ` set subs" "\<not> chan_closed (H ?c)" "\<not> sub_closed s" "list_ok H subs"
    using Cons.prems by (simp_all add: list_ok_Cons)
  have "list_ok (H(?c := ?ch)) subs" using c by (simp add: list_ok_upd)
  then have "close_loop subs (H(?c := ?ch)) =
      Inr (closed_heap (sub_Channel ` set subs) (H(?c := ?ch)), length subs)" by (rule Cons.IH)
  moreover have "closed_heap (sub_Channel ` set subs) (H(?c := ?ch)) =
      closed_heap (sub_Channel ` set (s # subs)) H"
    using c(1) by (auto simp: closed_heap_def fun_eq_iff)
  ultimately show ?case using c(2,3) by (simp add: chan_close_def del: fun_upd_apply)
qed (simp add: closed_heap_def)

text \<open>
  C33: \<^verbatim>\<open>Notify\<close> on subscribers that have open channels of their own (the state every operation of
  the cache keeps) never panics: it drops exactly the subscribers whose context has ended and
  closes their channels, offers the update once to each remaining channel, where it is lost
  if the channel is full, leaves all other channels alone and counts deliveries and losses.
\<close>

theorem Notify_correct:
  assumes "subs_ok H m"
  shows "\<exists>n d. Notify cancelled u m H =
      Inr (m\<lparr>sm_subs := filter (\<lambda>s. \<not> cancelled (sub_Context s)) (sm_subs m)\<rparr>,
        notified_heap cancelled u (sm_subs m) H, n, d) \<and>
    n + d = length (filter (\<lambda>s. \<not> cancelled (sub_Context s)) (sm_subs m)) \<and>
    n = length (filter (\<lambda>s. \<not> cancelled (sub_Context s) \<and> \<not> chan_full (H (sub_Channel s))) (sm_subs m))"
  using notify_loop_ok [of H "sm_subs m" cancelled u] assms by (auto simp: Notify_def subs_ok_def)

definition two_subs :: subManager where
  "two_subs = Subscribe 1 11 (Subscribe 0 10 new_subManager)"

theorem Notify_correct_witness:
  "\<exists>H' n d. Notify (\<lambda>ctx. ctx = 0) (newStatusUpdateFromJob zero_Job) two_subs (\<lambda>_. make_chan 1) =
     Inr (Subscribe 1 11 new_subManager, H', n, d) \<and> chan_closed (H' 10) \<and>
     chan_buf (H' 11) = [newStatusUpdateFromJob zero_Job] \<and> n = 1"
proof -
  have "subs_ok (\<lambda>_. make_chan 1) two_subs"
    by (simp add: subs_ok_def list_ok_def two_subs_def Subscribe_def new_subManager_def make_chan_def)
  from Notify_correct [OF this, of "\<lambda>ctx. ctx = 0" "newStatusUpdateFromJob zero_Job"] show ?thesis
    by (auto simp: two_subs_def Subscribe_def new_subManager_def notified_heap_def offered_def
        make_chan_def chan_full_def)
qed


section \<open>Operations on a manager's channels\<close>

text \<open>
  The contract the cache relies on: an operation on one manager succeeds whenever its subscribers
  have open channels of their own, keeps that so, subscribes nobody new and touches no channel
  but those of its subscribers. A series of such operations on managers that share no channel
  then succeeds, too.
\<close>

locale manager_op =
  fixes run :: "subManager \<Rightarrow> chan_heap \<Rightarrow> (subManager \<times> chan_heap \<times> 'r) go"
  assumes run_ok: "subs_ok H m \<Longrightarrow> \<exists>m' H' r. run m H = Inr (m', H', r) \<and> subs_ok H' m' \<and>
      sub_chans m' \<subseteq> sub_chans m \<and> (\<forall>c. c \<notin> sub_chans m \<longrightarrow> H' c = H c) \<and>
      (\<forall>c\<in>sub_chans m - sub_chans m'. chan_closed (H' c))"
begin

lemma subs_ok_frame: "(\<forall>c\<in>sub_chans m. H' c = H c) \<Longrightarrow> subs_ok H' m = subs_ok H m"
  by (auto simp: subs_ok_def list_ok_def sub_chans_def)

lemma run_keeps:
  assumes "subs_ok H m" "subs_ok H other" "sub_chans m \<inter> sub_chans other = {}" "run m H = Inr (m', H', r)"
  shows "subs_ok H' m' \<and> subs_ok H' other \<and> sub_chans m' \<inter> sub_chans other = {} \<and>
    (\<forall>c\<in>sub_chans other. H' c = H c)"
proof -
  from run_ok [OF assms(1)] assms(4) have
    "subs_ok H' m'" "sub_chans m' \<subseteq> sub_chans m" "\<forall>c. c \<notin> sub_chans m \<longrightarrow> H' c = H c" by auto
  moreover from this(3) assms(3) have "\<forall>c\<in>sub_chans other. H' c = H c" by blast
  ultimately show ?thesis using assms(2,3) subs_ok_frame by blast
qed

end

lemma Notify_op:
  assumes "subs_ok H m"
  shows "\<exists>m' H' r. Notify cancelled u m H = Inr (m', H', r) \<and> subs_ok H' m' \<and>
      sub_chans m' \<subseteq> sub_chans m \<and> (\<forall>c. c \<notin> sub_chans m \<longrightarrow> H' c = H c) \<and>
      (\<forall>c\<in>sub_chans m - sub_chans m'. chan_closed (H' c))"
proof -
  obtain n d where N: "Notify cancelled u m H =
      Inr (m\<lparr>sm_subs := filter (\<lambda>s. \<not> cancelled (sub_Context s)) (sm_subs m)\<rparr>,
        notified_heap cancelled u (sm_subs m) H, n, d)"
    using notify_loop_ok [of H "sm_subs m" cancelled u] assms by (auto simp: Notify_def subs_ok_def)
  have inj: "s = s'" if "s \<in> set (sm_subs m)" "s' \<in> set (sm_subs m)" "sub_Channel s = sub_Channel s'" for s s'
    using assms that by (auto simp: subs_ok_def list_ok_def distinct_map dest: inj_onD)
  have "subs_ok (notified_heap cancelled u (sm_subs m) H)
      (m\<lparr>sm_subs := filter (\<lambda>s. \<not> cancelled (sub_Context s)) (sm_subs m)\<rparr>)"
    using assms inj
    by (auto simp: subs_ok_def list_ok_def notified_heap_def offered_def distinct_map_filter)
  then show ?thesis using N by (auto simp: sub_chans_def notified_heap_def)
qed

interpretation notify_op: manager_op "Notify cancelled u"
  by unfold_locales (rule Notify_op)

interpretation close_op: manager_op sub_Close
proof unfold_locales
  fix H m assume "subs_ok H m"
  then have "sub_Close m H = Inr (m\<lparr>sm_subs := []\<rparr>, closed_heap (sub_chans m) H, length (sm_subs m))"
    by (simp add: sub_Close_def close_loop_ok subs_ok_def sub_chans_def)
  then show "\<exists>m' H' r. sub_Close m H = Inr (m', H', r) \<and> subs_ok H' m' \<and>
      sub_chans m' \<subseteq> sub_chans m \<and> (\<forall>c. c \<notin> sub_chans m \<longrightarrow> H' c = H c) \<and>
      (\<forall>c\<in>sub_chans m - sub_chans m'. chan_closed (H' c))"
    by (simp add: subs_ok_def list_ok_def sub_chans_def closed_heap_def)
qed

end
