(* ===== verification/Job_Cache.thy ===== *)
theory Job_Cache
  imports Job_Store Sub_Manager Response_Writer
begin

text \<open>
  The job cache (\<^verbatim>\<open>src/cache/cache.go\<close>): the operations of \<^verbatim>\<open>JobCache\<close> on its store, its internal
  update channel and its subscription managers. Each definition is one atomic section of the
  code, made under the store's or the cache's lock; the channels of the subscribers are the heap
  of the subscription theory. \<open>pick\<close> is the choice Go's \<^verbatim>\<open>select\<close> makes between two ready cases, \<open>now\<close>
  the clock. A method that writes to a response writer gives the calls it makes.
\<close>

record JobCache =
  ca_store :: inMemoryStore
  ca_ch :: "statusUpdate chan"
  ca_updates :: subManager
  ca_updatesByID :: "(JobID, subManager) fmap"
  ca_updatesByUser :: "(string, subManager) fmap"
  ca_done :: bool
  ca_stop :: bool

definition NewJobCache :: JobCache where
  "NewJobCache = \<lparr>ca_store = newInMemoryStore, ca_ch = make_chan 64, ca_updates = new_subManager,
     ca_updatesByID = fmempty, ca_updatesByUser = fmempty, ca_done = False, ca_stop = False\<rparr>"


section \<open>Subscription managers of the cache\<close>

datatype topic = TAll | TID JobID | TUser string

fun mgr_at :: "JobCache \<Rightarrow> topic \<Rightarrow> subManager option" where
  "mgr_at c TAll = Some (ca_updates c)"
| "mgr_at c (TID jid) = fmlookup (ca_updatesByID c) jid"
| "mgr_at c (TUser user) = fmlookup (ca_updatesByUser c) user"

fun set_mgr :: "topic \<Rightarrow> subManager \<Rightarrow> JobCache \<Rightarrow> JobCache" where
  "set_mgr TAll m c = c\<lparr>ca_updates := m\<rparr>"
| "set_mgr (TID jid) m c = c\<lparr>ca_updatesByID := fmupd jid m (ca_updatesByID c)\<rparr>"
| "set_mgr (TUser user) m c = c\<lparr>ca_updatesByUser := fmupd user m (ca_updatesByUser c)\<rparr>"

definition notify_topic ::
  "(nat \<Rightarrow> bool) \<Rightarrow> statusUpdate \<Rightarrow> topic \<Rightarrow> JobCache \<Rightarrow> chan_heap \<Rightarrow> (JobCache \<times> chan_heap) go" where
  "notify_topic cancelled u t c H =
     (case mgr_at c t of
        None \<Rightarrow> Inr (c, H)
      | Some m \<Rightarrow> andThen (Notify cancelled u m H) (\<lambda>(m', H', _). Inr (set_mgr t m' c, H')))"

text \<open>\<^verbatim>\<open>processUpdate\<close> notifies the general manager, then the job's, then the user's.\<close>

definition processUpdate ::
  "(nat \<Rightarrow> bool) \<Rightarrow> statusUpdate \<Rightarrow> JobCache \<Rightarrow> chan_heap \<Rightarrow> (JobCache \<times> chan_heap) go" where
  "processUpdate cancelled u c H =
     andThen (notify_topic cancelled u TAll c H) (\<lambda>(c, H).
     andThen (notify_topic cancelled u (TID (su_ID u)) c H) (\<lambda>(c, H).
       notify_topic cancelled u (TUser (su_User u)) c H))"

fun close_topics :: "topic list \<Rightarrow> JobCache \<Rightarrow> chan_heap \<Rightarrow> (JobCache \<times> chan_heap \<times> nat) go" where
  "close_topics [] c H = Inr (c, H, 0)"
| "close_topics (t # ts) c H =
     (case mgr_at c t of
        None \<Rightarrow> close_topics ts c H
      | Some m \<Rightarrow> andThen (sub_Close m H) (\<lambda>(m', H', n).
          andThen (close_topics ts (set_mgr t m' c) H') (\<lambda>(c', H'', k). Inr (c', H'', n + k))))"

text \<open>\<^verbatim>\<open>closeSubscribers\<close>; the lists are the orders in which the two maps are visited.\<close>

definition closeSubscribers ::
  "JobID list \<Rightarrow> string list \<Rightarrow> JobCache \<Rightarrow> chan_heap \<Rightarrow> (JobCache \<times> chan_heap \<times> nat) go" where
  "closeSubscribers ids users c H = close_topics (TAll # map TID ids @ map TUser users) c H"

definition subscribe_topic :: "topic \<Rightarrow> nat \<Rightarrow> nat \<Rightarrow> JobCache \<Rightarrow> chan_heap \<Rightarrow> (JobCache \<times> chan_heap) go" where
  "subscribe_topic t ctx ch c H =
     (if ca_stop c then andThen (chan_close (H ch)) (\<lambda>ch'. Inr (c, H(ch := ch')))
      else (let m = (case mgr_at c t of None \<Rightarrow> new_subManager | Some m \<Rightarrow> m)
            in Inr (set_mgr t (Subscribe ctx ch m) c, H)))"

definition subscribeToID :: "nat \<Rightarrow> JobID \<Rightarrow> nat \<Rightarrow> JobCache \<Rightarrow> chan_heap \<Rightarrow> (JobCache \<times> chan_heap) go" where
  "subscribeToID ctx jid = subscribe_topic (TID jid) ctx"

definition subscribeToUser :: "nat \<Rightarrow> string \<Rightarrow> nat \<Rightarrow> JobCache \<Rightarrow> chan_heap \<Rightarrow> (JobCache \<times> chan_heap) go" where
  "subscribeToUser ctx user =
     (if user = ''*'' then subscribe_topic TAll ctx else subscribe_topic (TUser user) ctx)"


section \<open>Reading and writing jobs\<close>

text \<open>
  \<^verbatim>\<open>notify\<close>: a send without blocking; with the cache stopping, the closed stop channel is ready,
  too, and \<open>pick\<close> tells whether the send is chosen.
\<close>

definition cache_notify :: "bool \<Rightarrow> bool \<Rightarrow> Job \<Rightarrow> statusUpdate chan \<Rightarrow> statusUpdate chan go" where
  "cache_notify pick stop job ch =
     (if stop \<and> \<not> pick then Inr ch
      else andThen (chan_try_send (newStatusUpdateFromJob job) ch) (\<lambda>(ch', _). Inr ch'))"

definition Lookup :: "string \<Rightarrow> JobID \<Rightarrow> JobCache \<Rightarrow> Error + Job" where
  "Lookup user jid c =
     (case store_View (ca_store c) (id_str jid) of
        Some job \<Rightarrow>
          if user \<noteq> ''*'' \<and> job_User job \<noteq> user
          then Inl (Errorf CodeJobNotFound (''Job '' @ id_str jid @ '' not found for user '' @ user))
          else Inr job
      | None \<Rightarrow>
          if user = ''*'' then Inl (Errorf CodeJobNotFound (''Job '' @ id_str jid @ '' not found''))
          else Inl (Errorf CodeJobNotFound (''Job '' @ id_str jid @ '' not found for user '' @ user)))"

definition status_changed :: "Job \<Rightarrow> string \<Rightarrow> string \<Rightarrow> bool" where
  "status_changed job oldStatus oldMsg \<longleftrightarrow> job_Status job \<noteq> oldStatus \<or> job_StatusMsg job \<noteq> oldMsg"

text \<open>The callback \<^verbatim>\<open>AddOrUpdate\<close> passes to the store, and the method.\<close>

definition add_callback ::
  "bool \<Rightarrow> bool \<Rightarrow> Job \<Rightarrow> Job option \<Rightarrow> statusUpdate chan \<Rightarrow> (Job option \<times> statusUpdate chan) go" where
  "add_callback pick stop job cur ch =
     (case cur of
        None \<Rightarrow> andThen (cache_notify pick stop job ch) (\<lambda>ch'. Inr (Some job, ch'))
      | Some old \<Rightarrow>
          if status_changed job (job_Status old) (job_StatusMsg old)
          then andThen (cache_notify pick stop job ch) (\<lambda>ch'. Inr (Some job, ch'))
          else Inr (Some job, ch))"

definition AddOrUpdate :: "instant \<Rightarrow> bool \<Rightarrow> Job \<Rightarrow> JobCache \<Rightarrow> JobCache go" where
  "AddOrUpdate now pick job c =
     andThen (store_Update now (ca_store c) (id_str (job_ID job))
       (add_callback pick (ca_stop c) job) (ca_ch c))
     (\<lambda>(s, _, ch). Inr (c\<lparr>ca_store := s, ca_ch := ch\<rparr>))"

text \<open>
  The callback of \<^verbatim>\<open>Update\<close>, with the flag \<^verbatim>\<open>notfound\<close>, and the method: what the given function returns
  is used without a nil check, so a nil result panics.
\<close>

definition update_callback ::
  "bool \<Rightarrow> bool \<Rightarrow> string \<Rightarrow> (Job \<Rightarrow> Job option) \<Rightarrow> Job option \<Rightarrow> bool \<times> statusUpdate chan \<Rightarrow>
     (Job option \<times> bool \<times> statusUpdate chan) go" where
  "update_callback pick stop user fn cur st = (case st of (notfound, ch) \<Rightarrow>
     case cur of
       None \<Rightarrow> Inr (None, True, ch)
     | Some old \<Rightarrow>
         if user \<noteq> ''*'' \<and> job_User old \<noteq> user then Inr (Some old, True, ch)
         else andThen (deref (fn old)) (\<lambda>job.
           if status_changed job (job_Status old) (job_StatusMsg old)
           then andThen (cache_notify pick stop job ch) (\<lambda>ch'. Inr (Some job, notfound, ch'))
           else Inr (Some job, notfound, ch)))"

definition cache_Update ::
  "instant \<Rightarrow> bool \<Rightarrow> string \<Rightarrow> JobID \<Rightarrow> (Job \<Rightarrow> Job option) \<Rightarrow> JobCache \<Rightarrow> (JobCache \<times> Error option) go" where
  "cache_Update now pick user jid fn c =
     andThen (store_Update now (ca_store c) (id_str jid)
       (update_callback pick (ca_stop c) user fn) (False, ca_ch c))
     (\<lambda>(s, _, notfound, ch). Inr (c\<lparr>ca_store := s, ca_ch := ch\<rparr>,
        if notfound then Some (Errorf CodeJobNotFound
          (''Job '' @ id_str jid @ '' not found for user '' @ user)) else None))"

definition cache_WriteJob :: "string \<Rightarrow> JobID \<Rightarrow> JobCache \<Rightarrow> writer_call list" where
  "cache_WriteJob user jid c =
     (case Lookup user jid c of Inr job \<Rightarrow> [CJobs (Some [job])] | Inl err \<Rightarrow> [CError (EApi err)])"

definition cache_WriteJobs ::
  "string list \<Rightarrow> string \<Rightarrow> JobFilter option \<Rightarrow> JobCache \<Rightarrow> writer_call list go" where
  "cache_WriteJobs ks user flt c =
     andThen (JobsForUser ks (ca_store c) user flt) (\<lambda>jobs. Inr [CJobs (Some jobs)])"

definition cache_All :: "string list \<Rightarrow> (Job \<Rightarrow> 'y \<Rightarrow> 'y \<times> bool) \<Rightarrow> JobCache \<Rightarrow> 'y \<Rightarrow> 'y go" where
  "cache_All ks yield c y = store_Jobs ks (ca_store c) ''*'' None yield y"


section \<open>Streams and contexts\<close>

definition status_call :: "statusUpdate \<Rightarrow> writer_call" where
  "status_call u = CJobStatus (su_ID u) (su_Name u) (su_Status u) (su_StatusCode u) (su_StatusMsg u)"

text \<open>
  \<^verbatim>\<open>StreamJobStatus\<close> up to its subscription: the calls made, and whether it goes on to subscribe.
  Its loop writes each update it receives and ends when the context or the channel does; the same
  loop ends \<^verbatim>\<open>StreamJobStatuses\<close>.
\<close>

definition StreamJobStatus_init :: "string \<Rightarrow> JobID \<Rightarrow> JobCache \<Rightarrow> writer_call list \<times> bool" where
  "StreamJobStatus_init user jid c =
     (case Lookup user jid c of
        Inl err \<Rightarrow> ([CError (EApi err)], False)
      | Inr job \<Rightarrow> ([status_call (newStatusUpdateFromJob job)], \<not> TerminalStatus (job_Status job)))"

definition StreamJobStatuses_init :: "string list \<Rightarrow> string \<Rightarrow> JobCache \<Rightarrow> writer_call list go" where
  "StreamJobStatuses_init ks user c =
     andThen (JobsForUser ks (ca_store c) user None) (\<lambda>jobs.
       Inr (map (\<lambda>job. status_call (newStatusUpdateFromJob job)) jobs))"

definition stream_loop_step :: "statusUpdate option \<Rightarrow> writer_call list \<times> bool" where
  "stream_loop_step recv = (case recv of None \<Rightarrow> ([], False) | Some u \<Rightarrow> ([status_call u], True))"

text \<open>
  \<^verbatim>\<open>RunningJobContext\<close>: the checks before and after the subscription, and what its goroutine does
  with a value received (\<^term>\<open>None\<close> for a closed channel): whether it cancels the context and ends.
\<close>

definition not_running :: Error where
  "not_running = Errorf CodeJobNotRunning ''The job is not currently running''"

definition RunningJob_check :: "string \<Rightarrow> JobID \<Rightarrow> JobCache \<Rightarrow> Error option" where
  "RunningJob_check user jid c =
     (case Lookup user jid c of
        Inl err \<Rightarrow> Some err
      | Inr job \<Rightarrow> if TerminalStatus (job_Status job) then Some not_running else None)"

definition RunningJob_recheck :: "string \<Rightarrow> JobID \<Rightarrow> JobCache \<Rightarrow> Error option" where
  "RunningJob_recheck user jid c =
     (case Lookup user jid c of
        Inl err \<Rightarrow> Some not_running
      | Inr job \<Rightarrow> if TerminalStatus (job_Status job) then Some not_running else None)"

definition RunningJob_watch :: "statusUpdate option \<Rightarrow> bool" where
  "RunningJob_watch recv = (case recv of None \<Rightarrow> True | Some u \<Rightarrow> TerminalStatus (su_Status u))"


section \<open>Pruning\<close>

definition prune_filter :: JobFilter where
  "prune_filter = zero_JobFilter\<lparr>flt_Statuses := [StatusCanceled, StatusFailed, StatusFinished, StatusKilled]\<rparr>"

definition prune_body ::
  "instant \<Rightarrow> (Job \<Rightarrow> 'y \<Rightarrow> 'y \<times> bool) \<Rightarrow> Job \<Rightarrow> 'y \<times> JobID list \<Rightarrow> ('y \<times> JobID list) \<times> bool" where
  "prune_body cutoff yield job st = (case st of (y, candidates) \<Rightarrow>
     case job_LastUpdated job of
       None \<Rightarrow> (st, True)
     | Some t \<Rightarrow>
         if t > cutoff then (st, True)
         else (case yield job y of (y', go_on) \<Rightarrow>
           if \<not> go_on then ((y', candidates), False) else ((y', candidates @ [job_ID job]), True)))"

definition prune_scan ::
  "instant \<Rightarrow> string list \<Rightarrow> (Job \<Rightarrow> 'y \<Rightarrow> 'y \<times> bool) \<Rightarrow> 'y \<Rightarrow> JobCache \<Rightarrow> ('y \<times> JobID list) go" where
  "prune_scan cutoff ks yield y c =
     store_Jobs ks (ca_store c) ''*'' (Some prune_filter) (prune_body cutoff yield) (y, [])"

definition prune_delete :: "JobID list \<Rightarrow> JobCache \<Rightarrow> JobCache" where
  "prune_delete candidates c = c\<lparr>ca_store := foldl store_Delete (ca_store c) (map id_str candidates)\<rparr>"

text \<open>\<^verbatim>\<open>Prune\<close> with nothing between the scan and the deletions; the clock is read at its beginning.\<close>

definition Prune ::
  "instant \<Rightarrow> int \<Rightarrow> string list \<Rightarrow> (Job \<Rightarrow> 'y \<Rightarrow> 'y \<times> bool) \<Rightarrow> 'y \<Rightarrow> JobCache \<Rightarrow> ('y \<times> JobCache) go" where
  "Prune now interval ks yield y c =
     andThen (prune_scan (now - interval) ks yield y c) (\<lambda>(y', candidates).
       Inr (y', prune_delete candidates c))"

section \<open>Correctness of the writing operations\<close>

lemma cache_notify_open:
  "\<not> chan_closed ch \<Longrightarrow> cache_notify pick stop job ch =
     Inr (if stop \<and> \<not> pick then ch else offered (newStatusUpdateFromJob job) ch)"
  by (auto simp: cache_notify_def chan_try_send_def offered_def)

text \<open>The update channel after a change was posted to it, or not.\<close>

definition posted :: "bool \<Rightarrow> bool \<Rightarrow> Job \<Rightarrow> JobCache \<Rightarrow> statusUpdate chan" where
  "posted change pick job c =
     (if change \<and> \<not> (ca_stop c \<and> \<not> pick) then offered (newStatusUpdateFromJob job) (ca_ch c) else ca_ch c)"

definition job_changed :: "Job option \<Rightarrow> Job \<Rightarrow> bool" where
  "job_changed old job \<longleftrightarrow>
     (case old of None \<Rightarrow> True
      | Some j \<Rightarrow> (job_Status job, job_StatusMsg job) \<noteq> (job_Status j, job_StatusMsg j))"

lemma AddOrUpdate_runs:
  assumes "\<not> chan_closed (ca_ch c)"
  shows "\<exists>s. AddOrUpdate now pick job c =
      Inr (c\<lparr>ca_store := s, ca_ch := posted (job_changed (store_View (ca_store c) (id_str (job_ID job))) job) pick job c\<rparr>) \<and>
    store_View s = (store_View (ca_store c))(id_str (job_ID job) \<mapsto>
      stored now (store_View (ca_store c) (id_str (job_ID job))) job) \<and>
    (store_ok (ca_store c) \<longrightarrow> store_ok s)"
proof -
  let ?k = "id_str (job_ID job)" and ?view = "store_View (ca_store c)"
  let ?fn = "add_callback pick (ca_stop c) job"
  have fn: "?fn (?view ?k) (ca_ch c) = Inr (Some job, posted (job_changed (?view ?k) job) pick job c)"
    using assms
    by (cases "?view ?k")
       (auto simp: add_callback_def status_changed_def cache_notify_open posted_def job_changed_def)
  from mem.update_runs [of ?fn, OF fn, of now] obtain s u where
    s: "store_Update now (ca_store c) ?k ?fn (ca_ch c) =
      Inr (s, u, posted (job_changed (?view ?k) job) pick job c)"
    "store_View s = ?view(?k \<mapsto> stored now (?view ?k) job)" by auto
  have "store_ok (ca_store c) \<longrightarrow> store_ok s"
    using mem.update_ok [OF _ s(1)] assms by (auto simp: add_callback_def cache_notify_open)
  with s show ?thesis by (intro exI [of _ s]) (simp add: AddOrUpdate_def)
qed

text \<open>
  C12: \<^verbatim>\<open>AddOrUpdate\<close> stores a new job as it is and merges into an existing one, leaves every other
  job alone and keeps each job under its own ID; it posts the job's status exactly when the job is
  new or its status or status message differs from the stored one (unless the cache is stopping
  and \<^verbatim>\<open>select\<close> prefers the stop), and the post is lost when the update channel is full.
\<close>

theorem AddOrUpdate_correct:
  assumes "\<not> chan_closed (ca_ch c)" and "store_ok (ca_store c)"
  shows "\<exists>s. AddOrUpdate now pick job c =
      Inr (c\<lparr>ca_store := s, ca_ch := posted (job_changed (store_View (ca_store c) (id_str (job_ID job))) job) pick job c\<rparr>) \<and>
    store_ok s \<and>
    store_View s = (store_View (ca_store c))(id_str (job_ID job) \<mapsto>
      (case store_View (ca_store c) (id_str (job_ID job)) of
         None \<Rightarrow> job | Some old \<Rightarrow> fst (syncJob2 now old job)))"
  using AddOrUpdate_runs [OF assms(1), of now pick job] assms(2) by (auto simp: stored_def)

lemma new_cache_open [simp]: "\<not> chan_closed (ca_ch NewJobCache)" "store_ok (ca_store NewJobCache)"
  by (simp_all add: NewJobCache_def make_chan_def store_ok_def newInMemoryStore_def)

lemma new_cache_view [simp]: "store_View (ca_store NewJobCache) k = None"
  by (simp add: NewJobCache_def newInMemoryStore_def store_View_def)

theorem AddOrUpdate_correct_witness:
  "\<exists>s. AddOrUpdate 9 True (example_job ''a'' ''ann'' StatusRunning) NewJobCache =
     Inr (NewJobCache\<lparr>ca_store := s, ca_ch := (make_chan 64)\<lparr>chan_buf :=
       [newStatusUpdateFromJob (example_job ''a'' ''ann'' StatusRunning)]\<rparr>\<rparr>) \<and>
     store_View s ''a'' = Some (example_job ''a'' ''ann'' StatusRunning)"
  using AddOrUpdate_correct [OF new_cache_open, of 9 True "example_job ''a'' ''ann'' StatusRunning"]
  by (auto simp: posted_def job_changed_def example_job_def)
     (simp add: NewJobCache_def offered_def make_chan_def chan_full_def)

definition may_see :: "string \<Rightarrow> Job option \<Rightarrow> bool" where
  "may_see user job \<longleftrightarrow> (\<exists>j. job = Some j \<and> (user = ''*'' \<or> job_User j = user))"

lemma cache_Update_found:
  assumes "\<not> chan_closed (ca_ch c)" "store_View (ca_store c) (id_str jid) = Some old"
    "user = ''*'' \<or> job_User old = user" "fn old = Some job"
  shows "\<exists>s. cache_Update now pick user jid fn c =
      Inr (c\<lparr>ca_store := s, ca_ch := posted (job_changed (Some old) job) pick job c\<rparr>, None) \<and>
    store_View s = (store_View (ca_store c))(id_str jid \<mapsto> fst (syncJob2 now old job)) \<and>
    (store_ok (ca_store c) \<longrightarrow> store_ok s)"
proof -
  let ?fn = "update_callback pick (ca_stop c) user fn" and ?view = "store_View (ca_store c)"
  have fn: "?fn (?view (id_str jid)) (False, ca_ch c) =
      Inr (Some job, False, posted (job_changed (Some old) job) pick job c)"
    using assms
    by (auto simp: update_callback_def status_changed_def cache_notify_open posted_def job_changed_def)
  from mem.update_runs [of ?fn, OF fn, of now] assms(2) obtain s u where
    s: "store_Update now (ca_store c) (id_str jid) ?fn (False, ca_ch c) =
      Inr (s, u, False, posted (job_changed (Some old) job) pick job c)"
    "store_View s = ?view(id_str jid \<mapsto> fst (syncJob2 now old job))" by (auto simp: stored_def)
  have "store_ok (ca_store c) \<longrightarrow> store_ok s"
    using mem.update_ok [OF _ s(1)] assms(2) by auto
  with s show ?thesis by (intro exI [of _ s]) (simp add: cache_Update_def)
qed

lemma cache_Update_not_found:
  assumes "\<not> may_see user (store_View (ca_store c) (id_str jid))"
  shows "\<exists>s. cache_Update now pick user jid fn c = Inr (c\<lparr>ca_store := s\<rparr>,
      Some (Errorf CodeJobNotFound (''Job '' @ id_str jid @ '' not found for user '' @ user))) \<and>
    store_View s = store_View (ca_store c) \<and> (store_ok (ca_store c) \<longrightarrow> store_ok s)"
proof -
  let ?fn = "update_callback pick (ca_stop c) user fn" and ?view = "store_View (ca_store c)"
  have fn: "?fn (?view (id_str jid)) (False, ca_ch c) = Inr (?view (id_str jid), True, ca_ch c)"
    using assms by (auto simp: update_callback_def may_see_def split: option.splits)
  from mem.update_runs [of ?fn, OF fn, of now] obtain s u where
    s: "store_Update now (ca_store c) (id_str jid) ?fn (False, ca_ch c) = Inr (s, u, True, ca_ch c)"
    "store_View s = ?view"
    by (auto simp: stored_def syncJob2_self map_upd_triv split: option.splits)
  have "store_ok (ca_store c) \<longrightarrow> store_ok s"
    using mem.update_ok [OF _ s(1)] by (auto simp: update_callback_def)
  with s show ?thesis by (intro exI [of _ s]) (simp add: cache_Update_def)
qed

lemma cache_Update_nil:
  assumes "store_View (ca_store c) (id_str jid) = Some old"
    "user = ''*'' \<or> job_User old = user" "fn old = None"
  shows "cache_Update now pick user jid fn c = Inl NilDeref"
proof -
  have "store_Update now (ca_store c) (id_str jid) (update_callback pick (ca_stop c) user fn) (False, ca_ch c)
      = Inl NilDeref"
    using assms by (intro mem.update_panics) (auto simp: update_callback_def)
  then show ?thesis by (simp add: cache_Update_def)
qed

text \<open>
  C13: \<^verbatim>\<open>Update\<close> on a job the user may see merges what the function makes of the stored job, posts the
  status exactly when status or message changed, and leaves every other job alone; on a job that
  does not exist or belongs to another user it changes no job, posts nothing and returns the
  not-found error; a function that returns nil makes it panic.
\<close>

theorem Update_correct:
  assumes "\<not> chan_closed (ca_ch c)" and "store_ok (ca_store c)"
  shows "case (if may_see user (store_View (ca_store c) (id_str jid))
               then store_View (ca_store c) (id_str jid) else None) of
      None \<Rightarrow> (\<exists>s. cache_Update now pick user jid fn c = Inr (c\<lparr>ca_store := s\<rparr>,
        Some (Errorf CodeJobNotFound (''Job '' @ id_str jid @ '' not found for user '' @ user))) \<and>
        store_ok s \<and> store_View s = store_View (ca_store c))
    | Some old \<Rightarrow> (case fn old of
        None \<Rightarrow> cache_Update now pick user jid fn c = Inl NilDeref
      | Some job \<Rightarrow> (\<exists>s. cache_Update now pick user jid fn c = Inr (c\<lparr>ca_store := s,
            ca_ch := posted (job_changed (Some old) job) pick job c\<rparr>, None) \<and> store_ok s \<and>
          store_View s = (store_View (ca_store c))(id_str jid \<mapsto> fst (syncJob2 now old job))))"
proof (cases "may_see user (store_View (ca_store c) (id_str jid))")
  case True
  then obtain old where old: "store_View (ca_store c) (id_str jid) = Some old"
    "user = ''*'' \<or> job_User old = user" by (auto simp: may_see_def)
  show ?thesis
  proof (cases "fn old")
    case None
    with cache_Update_nil [where fn = fn, OF old this] old True show ?thesis by simp
  next
    case (Some job)
    with cache_Update_found [where fn = fn, OF assms(1) old this, of now pick] old True assms(2)
    show ?thesis by auto
  qed
next
  case False
  with cache_Update_not_found [OF this, of now pick fn] assms(2) show ?thesis by auto
qed

theorem Update_correct_witness:
  "cache_Update 3 True ''bob'' (JobID ''a'') Some NewJobCache = Inr (NewJobCache,
     Some (Errorf CodeJobNotFound ''Job a not found for user bob''))"
proof -
  from Update_correct [OF new_cache_open, where user = "''bob''" and jid = "JobID ''a''"
      and now = 3 and pick = True and fn = Some] obtain s where
    s: "cache_Update 3 True ''bob'' (JobID ''a'') Some NewJobCache = Inr (NewJobCache\<lparr>ca_store := s\<rparr>,
      Some (Errorf CodeJobNotFound ''Job a not found for user bob''))"
      "store_View s = store_View (ca_store NewJobCache)"
    by (auto simp: may_see_def)
  from s(2) have "ims_jobs s = ims_jobs (ca_store NewJobCache)"
    by (intro fmap_ext) (simp add: store_View_def fun_eq_iff)
  with s(1) show ?thesis by (simp add: NewJobCache_def)
qed

text \<open>
  The usual way to update a job, a function that sets the status on the job it is given and
  returns it, does not refresh the time stamp once the job has one: the job handed out carries
  its own \<^verbatim>\<open>LastUpdated\<close>, which the merge takes for one set on purpose. The stored stamp stays what
  it was, however much later the update is made.
\<close>

theorem Update_keeps_stale_stamp:
  assumes "\<not> chan_closed (ca_ch c)"
    and "store_View (ca_store c) (id_str jid) = Some old" and "job_LastUpdated old = Some t"
  shows "\<exists>c' new. cache_Update now pick ''*'' jid (\<lambda>j. Some (j\<lparr>job_Status := status\<rparr>)) c = Inr (c', None) \<and>
    store_View (ca_store c') (id_str jid) = Some new \<and> job_Status new = status \<and>
    job_LastUpdated new = Some t"
  using cache_Update_found [OF assms(1,2), of "''*''" "\<lambda>j. Some (j\<lparr>job_Status := status\<rparr>)"
      "old\<lparr>job_Status := status\<rparr>" now pick] assms(3)
  by (auto simp: syncJob2_merged merged_def)

definition stamped_cache :: JobCache where
  "stamped_cache = NewJobCache\<lparr>ca_store := \<lparr>ims_jobs = fmupd ''a''
     ((example_job ''a'' ''ann'' StatusRunning)\<lparr>job_LastUpdated := Some 5\<rparr>) fmempty\<rparr>\<rparr>"

theorem Update_keeps_stale_stamp_witness:
  "\<exists>c' new. cache_Update 1000 True ''*'' (JobID ''a'') (\<lambda>j. Some (j\<lparr>job_Status := StatusFinished\<rparr>)) stamped_cache
       = Inr (c', None) \<and>
     store_View (ca_store c') ''a'' = Some new \<and> job_LastUpdated new = Some 5"
  using Update_keeps_stale_stamp [of stamped_cache "JobID ''a''"
      "(example_job ''a'' ''ann'' StatusRunning)\<lparr>job_LastUpdated := Some 5\<rparr>" 5 1000 True StatusFinished]
  by (auto simp: stamped_cache_def NewJobCache_def make_chan_def store_View_def)

section \<open>Correctness of pruning\<close>

text \<open>A loop over jobs whose body may end it.\<close>

fun visit :: "(Job \<Rightarrow> 'c \<Rightarrow> 'c \<times> bool) \<Rightarrow> Job list \<Rightarrow> 'c \<Rightarrow> 'c" where
  "visit body [] c = c"
| "visit body (j # js) c = (case body j c of (c', go_on) \<Rightarrow> if go_on then visit body js c' else c')"

definition jobs_at :: "inMemoryStore \<Rightarrow> string list \<Rightarrow> Job list" where
  "jobs_at s ks = List.map_filter (fmlookup (ims_jobs s)) ks"

lemma store_Jobs_visit:
  assumes "query_safe s user flt"
  shows "store_Jobs ks s user flt body c = Inr (visit body (filter (visible user flt) (jobs_at s ks)) c)"
proof (induction ks arbitrary: c)
  case (Cons k ks)
  show ?case
  proof (cases "fmlookup (ims_jobs s) k")
    case None
    with Cons show ?thesis by (simp add: jobs_at_def map_filter_simps)
  next
    case (Some j)
    show ?thesis
    proof (cases "skip_user user j")
      case True
      then have "\<not> visible user flt j" by (auto simp: visible_def skip_user_def)
      with Cons Some True show ?thesis by (simp add: jobs_at_def map_filter_simps)
    next
      case False
      then have "filter_check flt j = Inr (visible user flt j)"
        using assms Some by (intro filter_check_safe) (auto simp: query_safe_def)
      with Cons Some False show ?thesis
        by (cases "body j c") (simp add: jobs_at_def map_filter_simps)
    qed
  qed
qed (simp add: jobs_at_def map_filter_simps)

lemma prune_filter_safe: "query_safe s user (Some prune_filter)"
  by (simp add: query_safe_def filter_safe_def filter_timed_def prune_filter_def zero_JobFilter_def)

lemma prune_filter_visible: "visible ''*'' (Some prune_filter) job \<longleftrightarrow> TerminalStatus (job_Status job)"
  by (auto simp: visible_def filter_matches_def prune_filter_def zero_JobFilter_def TerminalStatus_def)

definition expired :: "instant \<Rightarrow> Job \<Rightarrow> bool" where
  "expired cutoff job \<longleftrightarrow> (\<exists>t. job_LastUpdated job = Some t \<and> t \<le> cutoff)"

lemma visit_prune:
  "\<exists>y' ls. visit (prune_body cutoff yield) js (y, cs) = (y', cs @ map job_ID ls) \<and>
     set ls \<subseteq> {j \<in> set js. expired cutoff j} \<and>
     ((\<forall>j y. snd (yield j y)) \<longrightarrow> ls = filter (expired cutoff) js)"
proof (induction js arbitrary: y cs)
  case (Cons j js)
  show ?case
  proof (cases "expired cutoff j")
    case False
    then have "prune_body cutoff yield j (y, cs) = ((y, cs), True)"
      by (auto simp: prune_body_def expired_def split: option.splits)
    moreover from Cons.IH [of y cs] obtain y' ls where
      "visit (prune_body cutoff yield) js (y, cs) = (y', cs @ map job_ID ls)"
      "set ls \<subseteq> {j \<in> set js. expired cutoff j}"
      "(\<forall>j y. snd (yield j y)) \<longrightarrow> ls = filter (expired cutoff) js" by blast
    ultimately show ?thesis using False by (intro exI [of _ y'] exI [of _ ls]) auto
  next
    case True
    obtain y1 b where y1: "yield j y = (y1, b)" by fastforce
    with True have body: "prune_body cutoff yield j (y, cs) =
        (if b then ((y1, cs @ [job_ID j]), True) else ((y1, cs), False))"
      by (auto simp: prune_body_def expired_def split: option.splits)
    show ?thesis
    proof (cases b)
      case False
      moreover have "\<not> (\<forall>j y. snd (yield j y))" using y1 False by (metis snd_conv)
      ultimately show ?thesis using body by (intro exI [of _ y1] exI [of _ "[]"]) auto
    next
      case b: True
      from Cons.IH [of y1 "cs @ [job_ID j]"] obtain y' ls where
        "visit (prune_body cutoff yield) js (y1, cs @ [job_ID j]) = (y', (cs @ [job_ID j]) @ map job_ID ls)"
        "set ls \<subseteq> {j \<in> set js. expired cutoff j}"
        "(\<forall>j y. snd (yield j y)) \<longrightarrow> ls = filter (expired cutoff) js" by blast
      with body b True show ?thesis by (intro exI [of _ y'] exI [of _ "j # ls"]) auto
    qed
  qed
qed simp

lemma in_jobs_at: "j \<in> set (jobs_at s ks) \<longleftrightarrow> (\<exists>k\<in>set ks. fmlookup (ims_jobs s) k = Some j)"
  by (induction ks) (auto simp: jobs_at_def map_filter_simps split: option.splits)

lemma jobs_at_set:
  "enumerates ks s \<Longrightarrow> j \<in> set (jobs_at s ks) \<longleftrightarrow> (\<exists>k. fmlookup (ims_jobs s) k = Some j)"
  by (auto simp: in_jobs_at enumerates_def intro: fmdomI)

lemma prune_delete_view:
  "store_View (ca_store (prune_delete cands c)) k =
     (if k \<in> id_str ` set cands then None else store_View (ca_store c) k)"
  by (simp add: prune_delete_def mem.delete_all_view)

definition stale :: "instant \<Rightarrow> Job option \<Rightarrow> bool" where
  "stale cutoff job \<longleftrightarrow> (\<exists>j. job = Some j \<and> TerminalStatus (job_Status j) \<and> expired cutoff j)"

text \<open>
  C14: \<^verbatim>\<open>Prune\<close> never panics and only ever removes jobs that have a terminal status and were last
  updated at or before the cutoff; every other job is kept as it is. When the loop over its
  iterator is not broken off, it removes all such jobs.
\<close>

theorem Prune_correct:
  assumes "store_ok (ca_store c)" and "enumerates ks (ca_store c)"
  shows "\<exists>y' s. Prune now interval ks yield y c = Inr (y', c\<lparr>ca_store := s\<rparr>) \<and>
    (\<forall>k. store_View s k = store_View (ca_store c) k \<or>
       (stale (now - interval) (store_View (ca_store c) k) \<and> store_View s k = None)) \<and>
    ((\<forall>j y. snd (yield j y)) \<longrightarrow> (\<forall>k. store_View s k =
       (if stale (now - interval) (store_View (ca_store c) k) then None else store_View (ca_store c) k)))"
proof -
  let ?cut = "now - interval" and ?view = "store_View (ca_store c)"
  let ?js = "filter (visible ''*'' (Some prune_filter)) (jobs_at (ca_store c) ks)"
  obtain y' ls where v: "visit (prune_body ?cut yield) ?js (y, []) = (y', [] @ map job_ID ls)"
    and ls: "set ls \<subseteq> {j \<in> set ?js. expired ?cut j}"
    and all: "(\<forall>j y. snd (yield j y)) \<longrightarrow> ls = filter (expired ?cut) ?js"
    using visit_prune [of ?cut yield ?js y "[]"] by blast
  have run: "Prune now interval ks yield y c = Inr (y', prune_delete (map job_ID ls) c)"
    using v by (simp add: Prune_def prune_scan_def store_Jobs_visit [OF prune_filter_safe])
  have key: "fmlookup (ims_jobs (ca_store c)) (id_str (job_ID j)) = Some j \<longleftrightarrow>
      (\<exists>k. fmlookup (ims_jobs (ca_store c)) k = Some j)" for j
    using assms(1) by (auto simp: store_ok_def)
  have mem: "j \<in> set ?js \<longleftrightarrow> ?view (id_str (job_ID j)) = Some j \<and> TerminalStatus (job_Status j)" for j
    by (simp add: prune_filter_visible store_View_def jobs_at_set [OF assms(2)] key conj_commute)
  have sub: "stale ?cut (?view k)" if k: "k \<in> id_str ` set (map job_ID ls)" for k
  proof -
    from k obtain j where j: "j \<in> set ls" "k = id_str (job_ID j)" by auto
    with ls have "j \<in> set ?js" "expired ?cut j" by blast+
    with mem j(2) show ?thesis by (simp add: stale_def)
  qed
  have super: "k \<in> id_str ` set (map job_ID ls)"
    if st: "stale ?cut (?view k)" and y: "\<forall>j y. snd (yield j y)" for k
  proof -
    from st obtain j where j: "?view k = Some j" "TerminalStatus (job_Status j)" "expired ?cut j"
      by (auto simp: stale_def)
    then have k: "id_str (job_ID j) = k" using mem.view_ID [OF assms(1)] by simp
    with j mem have "j \<in> set ?js" by simp
    with all y j(3) have "j \<in> set ls" by simp
    with k show ?thesis by auto
  qed
  let ?s = "ca_store (prune_delete (map job_ID ls) c)"
  have "prune_delete (map job_ID ls) c = c\<lparr>ca_store := ?s\<rparr>" by (simp add: prune_delete_def)
  moreover have "store_View ?s k = ?view k \<or> stale ?cut (?view k) \<and> store_View ?s k = None" for k
    using sub [of k] by (simp add: prune_delete_view)
  moreover have "store_View ?s k = (if stale ?cut (?view k) then None else ?view k)"
    if "\<forall>j y. snd (yield j y)" for k
    using sub [of k] super [of k] that by (auto simp: prune_delete_view)
  ultimately show ?thesis using run by metis
qed

text \<open>A terminal job and a running one, both last updated at time 5.\<close>

definition prunable_cache :: JobCache where
  "prunable_cache = NewJobCache\<lparr>ca_store := \<lparr>ims_jobs =
     fmupd ''a'' ((example_job ''a'' ''ann'' StatusFinished)\<lparr>job_LastUpdated := Some 5\<rparr>)
     (fmupd ''b'' ((example_job ''b'' ''ann'' StatusRunning)\<lparr>job_LastUpdated := Some 5\<rparr>) fmempty)\<rparr>\<rparr>"

theorem Prune_correct_witness:
  "\<exists>y' s. Prune 100 10 [''a'', ''b''] (\<lambda>_ y. (y, True)) () prunable_cache =
      Inr (y', prunable_cache\<lparr>ca_store := s\<rparr>) \<and>
    store_View s ''a'' = None \<and> store_View s ''b'' = store_View (ca_store prunable_cache) ''b''"
proof -
  have "store_ok (ca_store prunable_cache)" "enumerates [''a'', ''b''] (ca_store prunable_cache)"
    by (auto simp: store_ok_def enumerates_def prunable_cache_def example_job_def)
  from Prune_correct [OF this, of 100 10 "\<lambda>_ y. (y, True)" "()"] obtain y' s where
    "Prune 100 10 [''a'', ''b''] (\<lambda>_ y. (y, True)) () prunable_cache =
      Inr (y', prunable_cache\<lparr>ca_store := s\<rparr>)"
    "\<forall>k. store_View s k = (if stale 90 (store_View (ca_store prunable_cache) k) then None
       else store_View (ca_store prunable_cache) k)" by auto
  moreover have "stale 90 (store_View (ca_store prunable_cache) ''a'')"
    "\<not> stale 90 (store_View (ca_store prunable_cache) ''b'')"
    by (auto simp: stale_def expired_def store_View_def prunable_cache_def example_job_def
        TerminalStatus_def api_defs)
  ultimately show ?thesis by auto
qed

end
