(* ===== verification/Cache_Steps.thy ===== *)
theory Cache_Steps
  imports Job_Cache
begin

text \<open>
  The job cache at work (\<^verbatim>\<open>src/cache/cache.go\<close>): its service goroutine, the clients that write jobs,
  and the subscribers, as a step relation. Each step is one section under the cache's or the
  store's lock, or one channel operation, so the relation has every interleaving of them. What
  clients observe is recorded beside the state: the updates accepted by the internal channel, the
  updates the service goroutine has processed, and for each subscription channel its topic and
  what was received from it.
\<close>

record world =
  wo_cache :: JobCache
  wo_heap :: chan_heap
  wo_next :: nat
  wo_cancelled :: "nat \<Rightarrow> bool"
  wo_hand :: "statusUpdate option"
  wo_posts :: "statusUpdate list"
  wo_log :: "statusUpdate list"
  wo_topic :: "nat \<Rightarrow> topic"
  wo_got :: "nat \<Rightarrow> statusUpdate list"

definition world_start :: "world \<Rightarrow> bool" where
  "world_start w \<longleftrightarrow> wo_cache w = NewJobCache \<and> wo_next w = 0 \<and> wo_hand w = None \<and>
     wo_posts w = [] \<and> wo_log w = [] \<and> wo_got w = (\<lambda>_. [])"

text \<open>What an operation added to the internal channel.\<close>

definition new_posts :: "JobCache \<Rightarrow> JobCache \<Rightarrow> statusUpdate list" where
  "new_posts c c' = drop (length (chan_buf (ca_ch c))) (chan_buf (ca_ch c'))"

definition covers :: "JobID list \<Rightarrow> string list \<Rightarrow> JobCache \<Rightarrow> bool" where
  "covers ids users c \<longleftrightarrow> distinct ids \<and> set ids = fset (fmdom (ca_updatesByID c)) \<and>
     distinct users \<and> set users = fset (fmdom (ca_updatesByUser c))"

inductive world_step :: "world \<Rightarrow> world \<Rightarrow> bool" where
  add_step: "AddOrUpdate now pick job (wo_cache w) = Inr c \<Longrightarrow>
    world_step w (w\<lparr>wo_cache := c, wo_posts := wo_posts w @ new_posts (wo_cache w) c\<rparr>)"
| update_step: "cache_Update now pick user jid fn (wo_cache w) = Inr (c, err) \<Longrightarrow>
    world_step w (w\<lparr>wo_cache := c, wo_posts := wo_posts w @ new_posts (wo_cache w) c\<rparr>)"
| delete_step: "world_step w (w\<lparr>wo_cache := prune_delete ids (wo_cache w)\<rparr>)"
| receive_step: "wo_hand w = None \<Longrightarrow> \<not> ca_done (wo_cache w) \<Longrightarrow>
    chan_buf (ca_ch (wo_cache w)) = u # us \<Longrightarrow>
    world_step w (w\<lparr>wo_hand := Some u,
      wo_cache := (wo_cache w)\<lparr>ca_ch := (ca_ch (wo_cache w))\<lparr>chan_buf := us\<rparr>\<rparr>\<rparr>)"
| process_step: "wo_hand w = Some u \<Longrightarrow>
    processUpdate (wo_cancelled w) u (wo_cache w) (wo_heap w) = Inr (c, H) \<Longrightarrow>
    world_step w (w\<lparr>wo_hand := None, wo_cache := c, wo_heap := H, wo_log := wo_log w @ [u]\<rparr>)"
| stop_step: "world_step w (w\<lparr>wo_cache := (wo_cache w)\<lparr>ca_stop := True\<rparr>\<rparr>)"
| finish_step: "ca_stop (wo_cache w) \<Longrightarrow> wo_hand w = None \<Longrightarrow> \<not> ca_done (wo_cache w) \<Longrightarrow>
    covers ids users (wo_cache w) \<Longrightarrow> closeSubscribers ids users (wo_cache w) (wo_heap w) = Inr (c, H, n) \<Longrightarrow>
    world_step w (w\<lparr>wo_cache := c\<lparr>ca_done := True\<rparr>, wo_heap := H\<rparr>)"
| subscribe_step: "ch = wo_next w \<Longrightarrow>
    subscribe_topic t ctx ch (wo_cache w) ((wo_heap w)(ch := make_chan 1)) = Inr (c, H) \<Longrightarrow>
    world_step w (w\<lparr>wo_cache := c, wo_heap := H, wo_next := Suc ch, wo_topic := (wo_topic w)(ch := t),
      wo_got := (wo_got w)(ch := [])\<rparr>)"
| ctx_step: "world_step w (w\<lparr>wo_cancelled := (wo_cancelled w)(ctx := True)\<rparr>)"
| consume_step: "ch < wo_next w \<Longrightarrow> chan_buf (wo_heap w ch) = u # us \<Longrightarrow>
    world_step w (w\<lparr>wo_heap := (wo_heap w)(ch := (wo_heap w ch)\<lparr>chan_buf := us\<rparr>),
      wo_got := (wo_got w)(ch := wo_got w ch @ [u])\<rparr>)"

inductive_cases world_stepE: "world_step w w'"


section \<open>Managers and their channels\<close>

definition mgr :: "JobCache \<Rightarrow> topic \<Rightarrow> subManager" where
  "mgr c t = (case mgr_at c t of None \<Rightarrow> new_subManager | Some m \<Rightarrow> m)"

lemma mgr_set_mgr: "mgr (set_mgr t m c) t' = (if t' = t then m else mgr c t')"
  by (cases t; cases t') (auto simp: mgr_def)

lemma sub_chans_new [simp]: "sub_chans new_subManager = {}"
  by (simp add: sub_chans_def new_subManager_def)

lemma subs_ok_new [simp]: "subs_ok H new_subManager"
  by (simp add: subs_ok_def list_ok_def new_subManager_def)

lemma set_mgr_keeps [simp]:
  "ca_store (set_mgr t m c) = ca_store c" "ca_ch (set_mgr t m c) = ca_ch c"
  "ca_stop (set_mgr t m c) = ca_stop c" "ca_done (set_mgr t m c) = ca_done c"
  by (cases t; simp)+

text \<open>
  The heap and the managers fit together: every channel made so far is either registered with
  the one manager of its topic and open, or closed.
\<close>

definition heap_ok :: "nat \<Rightarrow> (nat \<Rightarrow> topic) \<Rightarrow> JobCache \<Rightarrow> chan_heap \<Rightarrow> bool" where
  "heap_ok n tp c H \<longleftrightarrow>
     (\<forall>t. subs_ok H (mgr c t) \<and> sub_chans (mgr c t) \<subseteq> {x. x < n \<and> tp x = t}) \<and>
     (\<forall>x<n. x \<in> sub_chans (mgr c (tp x)) \<or> chan_closed (H x))"

text \<open>One manager changes the way every manager operation may change it.\<close>

lemma heap_ok_change:
  assumes ok: "heap_ok n tp c H"
    and m': "subs_ok H' m'" "sub_chans m' \<subseteq> sub_chans (mgr c t)"
    and H': "\<forall>x. x \<notin> sub_chans (mgr c t) \<longrightarrow> H' x = H x"
    and closed: "\<forall>x\<in>sub_chans (mgr c t) - sub_chans m'. chan_closed (H' x)"
  shows "heap_ok n tp (set_mgr t m' c) H'"
proof -
  have frame: "subs_ok H' (mgr c t')" if "t' \<noteq> t" for t'
  proof -
    have "sub_chans (mgr c t') \<inter> sub_chans (mgr c t) = {}"
      using ok that unfolding heap_ok_def by blast
    then have "\<forall>x\<in>sub_chans (mgr c t'). H' x = H x" using H' by blast
    moreover have "subs_ok H (mgr c t')" using ok by (simp add: heap_ok_def)
    ultimately show ?thesis by (auto simp: subs_ok_def list_ok_def sub_chans_def)
  qed
  have inT: "sub_chans (mgr c t') \<subseteq> {x. x < n \<and> tp x = t'}" for t'
    using ok by (simp add: heap_ok_def)
  have closed_or: "x \<in> sub_chans (mgr c (tp x)) \<or> chan_closed (H x)" if "x < n" for x
    using ok that by (simp add: heap_ok_def)
  have "x \<in> sub_chans (mgr (set_mgr t m' c) (tp x)) \<or> chan_closed (H' x)" if x: "x < n" for x
  proof (cases "x \<in> sub_chans (mgr c t)")
    case True
    then have "tp x = t" using inT by blast
    with True closed show ?thesis by (auto simp: mgr_set_mgr)
  next
    case False
    with closed_or [OF x] H' m'(2) show ?thesis by (auto simp: mgr_set_mgr)
  qed
  moreover have "sub_chans (mgr (set_mgr t m' c) t') \<subseteq> {x. x < n \<and> tp x = t'}" for t'
    using inT [of t'] m'(2) by (auto simp: mgr_set_mgr)
  ultimately show ?thesis using frame m'(1) by (simp add: heap_ok_def mgr_set_mgr)
qed

section \<open>The service goroutine never panics\<close>

text \<open>What notifying one topic does to the channels: an update at the end of some buffers.\<close>

definition extended :: "statusUpdate \<Rightarrow> nat set \<Rightarrow> chan_heap \<Rightarrow> chan_heap \<Rightarrow> bool" where
  "extended u X H H' \<longleftrightarrow> (\<forall>x. chan_buf (H' x) = chan_buf (H x) \<or>
     x \<in> X \<and> chan_buf (H' x) = chan_buf (H x) @ [u]) \<and> (\<forall>x. x \<notin> X \<longrightarrow> H' x = H x)"

text \<open>The fields of a cache that subscriptions have nothing to do with.\<close>

definition same_rest :: "JobCache \<Rightarrow> JobCache \<Rightarrow> bool" where
  "same_rest c c' \<longleftrightarrow> ca_store c' = ca_store c \<and> ca_ch c' = ca_ch c \<and> ca_stop c' = ca_stop c \<and>
     ca_done c' = ca_done c"

lemma same_rest_refl [simp]: "same_rest c c"
  by (simp add: same_rest_def)

lemma Notify_extends:
  assumes "subs_ok H m"
  shows "\<exists>m' H' r. Notify cancelled u m H = Inr (m', H', r) \<and> extended u (sub_chans m) H H'"
proof -
  obtain n d where "Notify cancelled u m H =
      Inr (m\<lparr>sm_subs := filter (\<lambda>s. \<not> cancelled (sub_Context s)) (sm_subs m)\<rparr>,
        notified_heap cancelled u (sm_subs m) H, n, d)"
    using notify_loop_ok [of H "sm_subs m" cancelled u] assms by (auto simp: Notify_def subs_ok_def)
  then show ?thesis
    by (auto simp: extended_def notified_heap_def offered_def sub_chans_def)
qed

lemma notify_topic_ok:
  assumes "heap_ok n tp c H"
  shows "\<exists>c' H'. notify_topic cancelled u t c H = Inr (c', H') \<and> heap_ok n tp c' H' \<and> same_rest c c' \<and>
    extended u {x. x < n \<and> tp x = t} H H' \<and> (\<forall>t'. sub_chans (mgr c' t') \<subseteq> sub_chans (mgr c t'))"
proof (cases "mgr_at c t")
  case None
  then show ?thesis using assms by (simp add: notify_topic_def extended_def)
next
  case (Some m)
  have m: "mgr c t = m" using Some by (simp add: mgr_def)
  have ok: "subs_ok H m" and sub: "sub_chans m \<subseteq> {x. x < n \<and> tp x = t}"
    using assms m unfolding heap_ok_def by blast+
  obtain m' H' r where run: "Notify cancelled u m H = Inr (m', H', r)"
    and out: "subs_ok H' m'" "sub_chans m' \<subseteq> sub_chans m" "\<forall>x. x \<notin> sub_chans m \<longrightarrow> H' x = H x"
      "\<forall>x\<in>sub_chans m - sub_chans m'. chan_closed (H' x)"
    using notify_op.run_ok [OF ok, of cancelled u] by blast
  have "extended u (sub_chans m) H H'" using Notify_extends [OF ok, of cancelled u] run by auto
  then have "extended u {x. x < n \<and> tp x = t} H H'" using sub unfolding extended_def by blast
  moreover have "heap_ok n tp (set_mgr t m' c) H'"
    using heap_ok_change [OF assms, of H' m' t] out m by simp
  ultimately show ?thesis using run Some out(2) m
    by (auto simp: notify_topic_def same_rest_def mgr_set_mgr)
qed

definition matches :: "topic \<Rightarrow> statusUpdate \<Rightarrow> bool" where
  "matches t u \<longleftrightarrow> (case t of TAll \<Rightarrow> True | TID jid \<Rightarrow> su_ID u = jid | TUser user \<Rightarrow> su_User u = user)"

lemma matches_iff: "matches t u \<longleftrightarrow> t = TAll \<or> t = TID (su_ID u) \<or> t = TUser (su_User u)"
  by (cases t) (auto simp: matches_def)

lemma extended_trans:
  assumes "extended u X H H'" "extended u Y H' H''" "X \<inter> Y = {}"
  shows "extended u (X \<union> Y) H H''"
  using assms unfolding extended_def by (metis UnCI disjoint_iff)

lemma processUpdate_ok:
  assumes "heap_ok n tp c H"
  shows "\<exists>c' H'. processUpdate cancelled u c H = Inr (c', H') \<and> heap_ok n tp c' H' \<and> same_rest c c' \<and>
    extended u {x. x < n \<and> matches (tp x) u} H H' \<and> (\<forall>t. sub_chans (mgr c' t) \<subseteq> sub_chans (mgr c t))"
proof -
  let ?X = "\<lambda>t. {x. x < n \<and> tp x = t}"
  obtain c1 H1 where 1: "notify_topic cancelled u TAll c H = Inr (c1, H1)" "heap_ok n tp c1 H1"
    "same_rest c c1" "extended u (?X TAll) H H1" "\<forall>t. sub_chans (mgr c1 t) \<subseteq> sub_chans (mgr c t)"
    using notify_topic_ok [OF assms, of cancelled u TAll] by blast
  obtain c2 H2 where 2: "notify_topic cancelled u (TID (su_ID u)) c1 H1 = Inr (c2, H2)" "heap_ok n tp c2 H2"
    "same_rest c1 c2" "extended u (?X (TID (su_ID u))) H1 H2"
    "\<forall>t. sub_chans (mgr c2 t) \<subseteq> sub_chans (mgr c1 t)"
    using notify_topic_ok [OF 1(2), of cancelled u "TID (su_ID u)"] by blast
  obtain c3 H3 where 3: "notify_topic cancelled u (TUser (su_User u)) c2 H2 = Inr (c3, H3)" "heap_ok n tp c3 H3"
    "same_rest c2 c3" "extended u (?X (TUser (su_User u))) H2 H3"
    "\<forall>t. sub_chans (mgr c3 t) \<subseteq> sub_chans (mgr c2 t)"
    using notify_topic_ok [OF 2(2), of cancelled u "TUser (su_User u)"] by blast
  have "extended u ((?X TAll \<union> ?X (TID (su_ID u))) \<union> ?X (TUser (su_User u))) H H3"
    by (rule extended_trans [OF extended_trans [OF 1(4) 2(4)] 3(4)]) auto
  moreover have "(?X TAll \<union> ?X (TID (su_ID u))) \<union> ?X (TUser (su_User u)) = {x. x < n \<and> matches (tp x) u}"
    by (auto simp: matches_iff)
  ultimately have ext: "extended u {x. x < n \<and> matches (tp x) u} H H3" by simp
  have run: "processUpdate cancelled u c H = Inr (c3, H3)"
    using 1(1) 2(1) 3(1) by (simp add: processUpdate_def)
  have "same_rest c c3" using 1(3) 2(3) 3(3) by (simp add: same_rest_def)
  moreover have "\<forall>t. sub_chans (mgr c3 t) \<subseteq> sub_chans (mgr c t)" using 1(5) 2(5) 3(5) by blast
  ultimately show ?thesis using run ext 3(2) by blast
qed

lemma close_topics_ok:
  assumes "heap_ok n tp c H"
  shows "\<exists>c' H' k. close_topics ts c H = Inr (c', H', k) \<and> heap_ok n tp c' H' \<and> same_rest c c' \<and>
    (\<forall>x. chan_buf (H' x) = chan_buf (H x)) \<and>
    (\<forall>t. sub_chans (mgr c' t) = (if t \<in> set ts then {} else sub_chans (mgr c t)))"
  using assms
proof (induction ts arbitrary: c H)
  case (Cons t ts)
  show ?case
  proof (cases "mgr_at c t")
    case None
    then have "sub_chans (mgr c t) = {}" by (simp add: mgr_def)
    with None Cons.IH [OF Cons.prems] show ?thesis by auto
  next
    case (Some m)
    have m: "mgr c t = m" using Some by (simp add: mgr_def)
    then have ok: "subs_ok H m" using Cons.prems by (auto simp: heap_ok_def)
    have run: "sub_Close m H = Inr (m\<lparr>sm_subs := []\<rparr>, closed_heap (sub_chans m) H, length (sm_subs m))"
      using ok by (simp add: sub_Close_def close_loop_ok subs_ok_def sub_chans_def)
    have "heap_ok n tp (set_mgr t (m\<lparr>sm_subs := []\<rparr>) c) (closed_heap (sub_chans m) H)"
      by (rule heap_ok_change [OF Cons.prems])
         (simp_all add: m subs_ok_def list_ok_def sub_chans_def closed_heap_def)
    from Cons.IH [OF this] obtain c' H' k where IH:
      "close_topics ts (set_mgr t (m\<lparr>sm_subs := []\<rparr>) c) (closed_heap (sub_chans m) H) = Inr (c', H', k)"
      "heap_ok n tp c' H'" "same_rest (set_mgr t (m\<lparr>sm_subs := []\<rparr>) c) c'"
      "\<forall>x. chan_buf (H' x) = chan_buf (closed_heap (sub_chans m) H x)"
      "\<forall>t'. sub_chans (mgr c' t') = (if t' \<in> set ts then {} else
         sub_chans (mgr (set_mgr t (m\<lparr>sm_subs := []\<rparr>) c) t'))" by blast
    have empty: "sub_chans (m\<lparr>sm_subs := []\<rparr>) = {}" by (simp add: sub_chans_def)
    show ?thesis using Some run IH empty
      by (auto simp: same_rest_def mgr_set_mgr closed_heap_def)
  qed
qed auto

lemma mgr_covered:
  assumes "covers ids users c" "t \<notin> set (TAll # map TID ids @ map TUser users)"
  shows "sub_chans (mgr c t) = {}"
proof (cases t)
  case (TID jid)
  with assms have "jid |\<notin>| fmdom (ca_updatesByID c)" by (auto simp: covers_def)
  with TID show ?thesis by (simp add: mgr_def fmdom_notD)
next
  case (TUser user)
  with assms have "user |\<notin>| fmdom (ca_updatesByUser c)" by (auto simp: covers_def)
  with TUser show ?thesis by (simp add: mgr_def fmdom_notD)
qed (use assms in simp)

lemma closeSubscribers_ok:
  assumes "heap_ok n tp c H" "covers ids users c"
  shows "\<exists>c' H' k. closeSubscribers ids users c H = Inr (c', H', k) \<and> heap_ok n tp c' H' \<and> same_rest c c' \<and>
    (\<forall>x. chan_buf (H' x) = chan_buf (H x)) \<and> (\<forall>t. sub_chans (mgr c' t) = {})"
proof -
  obtain c' H' k where "close_topics (TAll # map TID ids @ map TUser users) c H = Inr (c', H', k)"
    "heap_ok n tp c' H'" "same_rest c c'" "\<forall>x. chan_buf (H' x) = chan_buf (H x)"
    "\<forall>t. sub_chans (mgr c' t) =
       (if t \<in> set (TAll # map TID ids @ map TUser users) then {} else sub_chans (mgr c t))"
    using close_topics_ok [OF assms(1)] by blast
  with mgr_covered [OF assms(2)] show ?thesis unfolding closeSubscribers_def by metis
qed

lemma subscribe_topic_ok:
  assumes "heap_ok n tp c H"
  shows "\<exists>c' H'. subscribe_topic t ctx n c (H(n := make_chan 1)) = Inr (c', H') \<and>
    heap_ok (Suc n) (tp(n := t)) c' H' \<and> same_rest c c' \<and> chan_buf (H' n) = [] \<and>
    (\<forall>x. x \<noteq> n \<longrightarrow> H' x = H x) \<and> (ca_stop c \<longrightarrow> c' = c)"
proof -
  let ?H = "\<lambda>ch. H(n := ch)"
  have subs: "sub_chans (mgr c t') \<subseteq> {x. x < n \<and> tp x = t'}" and ok: "subs_ok H (mgr c t')" for t'
    using assms by (simp_all add: heap_ok_def)
  then have n: "n \<notin> sub_chans (mgr c t')" for t' by auto
  then have ok': "subs_ok (?H ch) (mgr c t')" for ch t'
    using ok [of t'] by (auto simp: subs_ok_def list_ok_def sub_chans_def)
  have inT: "sub_chans (mgr c t') \<subseteq> {x. x < Suc n \<and> (tp(n := t)) x = t'}" for t'
    using subs [of t'] by auto
  have closed: "x \<in> sub_chans (mgr c (tp x)) \<or> chan_closed (H x)" if "x < n" for x
    using assms that by (simp add: heap_ok_def)
  show ?thesis
  proof (cases "ca_stop c")
    case True
    let ?ch = "(make_chan 1)\<lparr>chan_closed := True\<rparr>"
    have "heap_ok (Suc n) (tp(n := t)) c (?H ?ch)"
      using ok' inT closed by (auto simp: heap_ok_def less_Suc_eq)
    then show ?thesis using True
      by (simp add: subscribe_topic_def chan_close_def make_chan_def)
  next
    case False
    let ?m = "Subscribe ctx n (mgr c t)" and ?G = "?H (make_chan 1)"
    have chans: "sub_chans ?m = insert n (sub_chans (mgr c t))"
      by (simp add: sub_chans_def Subscribe_def)
    have "subs_ok ?G ?m"
      using ok' [of "make_chan 1" t] n [of t]
      by (auto simp: subs_ok_def list_ok_def sub_chans_def Subscribe_def make_chan_def)
    moreover have "x \<in> sub_chans (mgr (set_mgr t ?m c) ((tp(n := t)) x)) \<or> chan_closed (?G x)"
      if "x < Suc n" for x
    proof (cases "x = n")
      case True
      then show ?thesis by (simp add: mgr_set_mgr chans)
    next
      case False
      with that closed [of x] show ?thesis by (auto simp: mgr_set_mgr chans)
    qed
    moreover have "sub_chans (mgr (set_mgr t ?m c) t') \<subseteq> {x. x < Suc n \<and> (tp(n := t)) x = t'}" for t'
      using inT [of t'] by (auto simp: mgr_set_mgr chans)
    ultimately have "heap_ok (Suc n) (tp(n := t)) (set_mgr t ?m c) ?G"
      using ok' by (simp add: heap_ok_def mgr_set_mgr)
    then show ?thesis using False
      by (auto simp: subscribe_topic_def mgr_def [symmetric] same_rest_def make_chan_def)
  qed
qed


section \<open>The invariant\<close>

definition in_flight :: "world \<Rightarrow> statusUpdate list" where
  "in_flight w = (case wo_hand w of None \<Rightarrow> [] | Some u \<Rightarrow> [u]) @ chan_buf (ca_ch (wo_cache w))"

definition delivered :: "world \<Rightarrow> nat \<Rightarrow> statusUpdate list" where
  "delivered w x = wo_got w x @ chan_buf (wo_heap w x)"

definition world_ok :: "world \<Rightarrow> bool" where
  "world_ok w \<longleftrightarrow>
     heap_ok (wo_next w) (wo_topic w) (wo_cache w) (wo_heap w) \<and>
     \<not> chan_closed (ca_ch (wo_cache w)) \<and> store_ok (ca_store (wo_cache w)) \<and>
     wo_posts w = wo_log w @ in_flight w \<and>
     (\<forall>x<wo_next w. subseq (delivered w x) (filter (matches (wo_topic w x)) (wo_log w))) \<and>
     (ca_done (wo_cache w) \<longrightarrow> ca_stop (wo_cache w) \<and> wo_hand w = None \<and>
        (\<forall>t. sub_chans (mgr (wo_cache w) t) = {}))"

lemma mgr_rest [simp]:
  "mgr (c\<lparr>ca_store := s\<rparr>) t = mgr c t" "mgr (c\<lparr>ca_ch := ch\<rparr>) t = mgr c t"
  "mgr (c\<lparr>ca_stop := b\<rparr>) t = mgr c t" "mgr (c\<lparr>ca_done := b\<rparr>) t = mgr c t"
  by (cases t; simp add: mgr_def)+

lemma heap_ok_rest [simp]:
  "heap_ok n tp (c\<lparr>ca_store := s\<rparr>) H = heap_ok n tp c H"
  "heap_ok n tp (c\<lparr>ca_ch := ch\<rparr>) H = heap_ok n tp c H"
  "heap_ok n tp (c\<lparr>ca_stop := b\<rparr>) H = heap_ok n tp c H"
  "heap_ok n tp (c\<lparr>ca_done := b\<rparr>) H = heap_ok n tp c H"
  by (simp_all add: heap_ok_def)

lemma offered_simps [simp]:
  "chan_closed (offered u ch) = chan_closed ch"
  "chan_buf (offered u ch) = chan_buf ch @ (if chan_full ch then [] else [u])"
  by (simp_all add: offered_def)

lemma world_ok_post:
  assumes "world_ok w" "store_ok s" "ch = ca_ch (wo_cache w) \<or> ch = offered u (ca_ch (wo_cache w))"
    and "c = (wo_cache w)\<lparr>ca_store := s, ca_ch := ch\<rparr>"
  shows "world_ok (w\<lparr>wo_cache := c, wo_posts := wo_posts w @ new_posts (wo_cache w) c\<rparr>)"
  using assms
  by (auto simp: world_ok_def in_flight_def delivered_def new_posts_def)

lemma posted_cases: "posted b pick job c = ca_ch c \<or> posted b pick job c = offered (newStatusUpdateFromJob job) (ca_ch c)"
  by (simp add: posted_def)

lemma world_ok_add:
  assumes "world_ok w" "AddOrUpdate now pick job (wo_cache w) = Inr c"
  shows "world_ok (w\<lparr>wo_cache := c, wo_posts := wo_posts w @ new_posts (wo_cache w) c\<rparr>)"
proof -
  have "\<not> chan_closed (ca_ch (wo_cache w))" "store_ok (ca_store (wo_cache w))"
    using assms(1) by (simp_all add: world_ok_def)
  with AddOrUpdate_runs [OF this(1), of now pick job] assms(2) obtain s b where
    "c = (wo_cache w)\<lparr>ca_store := s, ca_ch := posted b pick job (wo_cache w)\<rparr>" "store_ok s" by auto
  then show ?thesis using posted_cases by (intro world_ok_post [OF assms(1)]) auto
qed

lemma world_ok_update:
  assumes "world_ok w" "cache_Update now pick user jid fn (wo_cache w) = Inr (c, err)"
  shows "world_ok (w\<lparr>wo_cache := c, wo_posts := wo_posts w @ new_posts (wo_cache w) c\<rparr>)"
proof -
  have ok: "\<not> chan_closed (ca_ch (wo_cache w))" "store_ok (ca_store (wo_cache w))"
    using assms(1) by (simp_all add: world_ok_def)
  show ?thesis
  proof (cases "may_see user (store_View (ca_store (wo_cache w)) (id_str jid))")
    case True
    then obtain old where old: "store_View (ca_store (wo_cache w)) (id_str jid) = Some old"
      "user = ''*'' \<or> job_User old = user" by (auto simp: may_see_def)
    then obtain job where job: "fn old = Some job"
      using cache_Update_nil [where fn = fn, OF old, of now pick] assms(2) by (cases "fn old") auto
    from cache_Update_found [where fn = fn, OF ok(1) old job, of now pick] assms(2) ok(2) obtain s b where
      "c = (wo_cache w)\<lparr>ca_store := s, ca_ch := posted b pick job (wo_cache w)\<rparr>" "store_ok s" by auto
    then show ?thesis using posted_cases by (intro world_ok_post [OF assms(1)]) auto
  next
    case False
    from cache_Update_not_found [OF this, of now pick fn] assms(2) ok(2) obtain s where
      "c = (wo_cache w)\<lparr>ca_store := s\<rparr>" "store_ok s" by auto
    then show ?thesis
      by (intro world_ok_post [OF assms(1), where ch = "ca_ch (wo_cache w)"]) auto
  qed
qed

lemma world_ok_process:
  assumes ok: "world_ok w" and hand: "wo_hand w = Some u"
    and run: "processUpdate (wo_cancelled w) u (wo_cache w) (wo_heap w) = Inr (c, H)"
  shows "world_ok (w\<lparr>wo_hand := None, wo_cache := c, wo_heap := H, wo_log := wo_log w @ [u]\<rparr>)"
proof -
  have h: "heap_ok (wo_next w) (wo_topic w) (wo_cache w) (wo_heap w)" using ok by (simp add: world_ok_def)
  from processUpdate_ok [OF h, of "wo_cancelled w" u] run have
    out: "heap_ok (wo_next w) (wo_topic w) c H" "same_rest (wo_cache w) c"
      "extended u {x. x < wo_next w \<and> matches (wo_topic w x) u} (wo_heap w) H" by auto
  have "\<not> ca_done c" using ok hand out(2) by (auto simp: world_ok_def same_rest_def)
  moreover have "subseq (wo_got w x @ chan_buf (H x)) (filter (matches (wo_topic w x)) (wo_log w @ [u]))"
    if x: "x < wo_next w" for x
  proof -
    have sub: "subseq (wo_got w x @ chan_buf (wo_heap w x)) (filter (matches (wo_topic w x)) (wo_log w))"
      using ok x by (simp add: world_ok_def delivered_def)
    show ?thesis
    proof (cases "chan_buf (H x) = chan_buf (wo_heap w x)")
      case True
      with sub show ?thesis by (auto intro: list_emb_append2)
    next
      case False
      with out(3) have "matches (wo_topic w x) u" "chan_buf (H x) = chan_buf (wo_heap w x) @ [u]"
        unfolding extended_def by blast+
      with list_emb_append_mono [OF sub subseq_order.refl [of "[u]"]] show ?thesis by simp
    qed
  qed
  ultimately show ?thesis
    using ok out hand by (auto simp: world_ok_def same_rest_def in_flight_def delivered_def)
qed

lemma world_ok_finish:
  assumes ok: "world_ok w" and stop: "ca_stop (wo_cache w)" and hand: "wo_hand w = None"
    and cov: "covers ids users (wo_cache w)"
    and run: "closeSubscribers ids users (wo_cache w) (wo_heap w) = Inr (c, H, n)"
  shows "world_ok (w\<lparr>wo_cache := c\<lparr>ca_done := True\<rparr>, wo_heap := H\<rparr>)"
proof -
  have h: "heap_ok (wo_next w) (wo_topic w) (wo_cache w) (wo_heap w)" using ok by (simp add: world_ok_def)
  from closeSubscribers_ok [OF h cov] run have "heap_ok (wo_next w) (wo_topic w) c H"
    "same_rest (wo_cache w) c" "\<forall>x. chan_buf (H x) = chan_buf (wo_heap w x)"
    "\<forall>t. sub_chans (mgr c t) = {}" by auto
  with ok stop hand show ?thesis by (simp add: world_ok_def same_rest_def in_flight_def delivered_def)
qed

lemma world_ok_subscribe:
  assumes ok: "world_ok w"
    and run: "subscribe_topic t ctx (wo_next w) (wo_cache w) ((wo_heap w)(wo_next w := make_chan 1)) = Inr (c, H)"
  shows "world_ok (w\<lparr>wo_cache := c, wo_heap := H, wo_next := Suc (wo_next w),
    wo_topic := (wo_topic w)(wo_next w := t), wo_got := (wo_got w)(wo_next w := [])\<rparr>)"
proof -
  have h: "heap_ok (wo_next w) (wo_topic w) (wo_cache w) (wo_heap w)" using ok by (simp add: world_ok_def)
  from subscribe_topic_ok [OF h, of t ctx] run have
    out: "heap_ok (Suc (wo_next w)) ((wo_topic w)(wo_next w := t)) c H" "same_rest (wo_cache w) c"
      "chan_buf (H (wo_next w)) = []" "\<forall>x. x \<noteq> wo_next w \<longrightarrow> H x = wo_heap w x"
      "ca_stop (wo_cache w) \<longrightarrow> c = wo_cache w" by auto
  with ok show ?thesis
    by (auto simp: world_ok_def same_rest_def in_flight_def delivered_def less_Suc_eq)
qed

lemma world_ok_consume:
  assumes "world_ok w" "ch < wo_next w" "chan_buf (wo_heap w ch) = u # us"
  shows "world_ok (w\<lparr>wo_heap := (wo_heap w)(ch := (wo_heap w ch)\<lparr>chan_buf := us\<rparr>),
      wo_got := (wo_got w)(ch := wo_got w ch @ [u])\<rparr>)"
proof -
  let ?H = "(wo_heap w)(ch := (wo_heap w ch)\<lparr>chan_buf := us\<rparr>)"
  have "chan_closed (?H x) = chan_closed (wo_heap w x)" for x by simp
  then have "heap_ok (wo_next w) (wo_topic w) (wo_cache w) ?H"
    using assms(1) unfolding world_ok_def heap_ok_def subs_ok_def list_ok_def by metis
  moreover have "delivered (w\<lparr>wo_heap := ?H, wo_got := (wo_got w)(ch := wo_got w ch @ [u])\<rparr>) x = delivered w x" for x
    using assms(3) by (simp add: delivered_def)
  ultimately show ?thesis using assms(1) by (simp add: world_ok_def in_flight_def)
qed

lemma world_ok_step: "world_step w w' \<Longrightarrow> world_ok w \<Longrightarrow> world_ok w'"
proof (erule world_stepE, goal_cases)
  case 1 then show ?case by (blast intro: world_ok_add)
next
  case 2 then show ?case by (blast intro: world_ok_update)
next
  case 3 then show ?case
    by (auto simp: world_ok_def in_flight_def delivered_def prune_delete_def intro: mem.delete_all_ok)
next
  case 4 then show ?case by (auto simp: world_ok_def in_flight_def delivered_def)
next
  case 5 then show ?case by (blast intro: world_ok_process)
next
  case 6 then show ?case by (auto simp: world_ok_def in_flight_def delivered_def)
next
  case 7 then show ?case by (blast intro: world_ok_finish)
next
  case 8 then show ?case by (blast intro: world_ok_subscribe [unfolded One_nat_def])
next
  case 9 then show ?case by (auto simp: world_ok_def in_flight_def delivered_def)
next
  case 10 then show ?case by (blast intro: world_ok_consume)
qed

interpretation cache: inductive_invariant world_start world_step world_ok
proof unfold_locales
  fix w assume "world_start w"
  then show "world_ok w"
    by (auto simp: world_start_def world_ok_def heap_ok_def in_flight_def NewJobCache_def make_chan_def
        mgr_def new_subManager_def sub_chans_def subs_ok_def list_ok_def store_ok_def newInMemoryStore_def
        split: option.splits dest: sym elim!: mgr_at.elims)
qed (rule world_ok_step)

lemmas reachable_world_ok = cache.reachable_invar


section \<open>What clients rely on\<close>

text \<open>
  C8: In every reachable state of the cache, whatever operations, cancellations and shutdown came
  before and in whatever order, delivering an update, subscribing and closing down all succeed:
  no send on a closed channel, no channel closed twice.
\<close>

theorem cache_never_panics:
  assumes "reachable world_start world_step w"
  shows "(\<exists>c H. processUpdate (wo_cancelled w) u (wo_cache w) (wo_heap w) = Inr (c, H)) \<and>
    (\<exists>c H. subscribe_topic t ctx (wo_next w) (wo_cache w) ((wo_heap w)(wo_next w := make_chan 1)) = Inr (c, H)) \<and>
    (covers ids users (wo_cache w) \<longrightarrow> (\<exists>c H n. closeSubscribers ids users (wo_cache w) (wo_heap w) = Inr (c, H, n))) \<and>
    (\<exists>c. AddOrUpdate now pick job (wo_cache w) = Inr c)"
proof -
  from reachable_world_ok [OF assms] have
    h: "heap_ok (wo_next w) (wo_topic w) (wo_cache w) (wo_heap w)" and
    ch: "\<not> chan_closed (ca_ch (wo_cache w))" by (simp_all add: world_ok_def)
  show ?thesis
    using processUpdate_ok [OF h, of "wo_cancelled w" u] subscribe_topic_ok [OF h, of t ctx]
      closeSubscribers_ok [OF h, of ids users] AddOrUpdate_runs [OF ch, of now pick job] by blast
qed

text \<open>
  C7: What a subscriber receives is a subsequence of the updates posted for its topic (its job, its
  user, or all), in the order in which they were posted: updates may be missing (a slow
  subscriber, a full queue), but none is repeated, reordered, made up or sent to the wrong
  subscriber.
\<close>

theorem subscriber_sees_subsequence:
  assumes "reachable world_start world_step w" and "x < wo_next w"
  shows "subseq (wo_got w x) (filter (matches (wo_topic w x)) (wo_posts w))"
proof -
  have "subseq (wo_got w x @ chan_buf (wo_heap w x)) (filter (matches (wo_topic w x)) (wo_log w))"
    "wo_posts w = wo_log w @ in_flight w"
    using reachable_world_ok [OF assms(1)] assms(2) by (auto simp: world_ok_def delivered_def)
  moreover have "subseq (wo_got w x) (wo_got w x @ chan_buf (wo_heap w x))"
    "subseq (filter P (wo_log w)) (filter P (wo_log w @ in_flight w))" for P
    by (auto intro: prefix_imp_subseq)
  ultimately show ?thesis by (metis subseq_order.trans)
qed

text \<open>
  C9: Once the service goroutine is done, every channel ever handed to the cache is closed and no
  manager has a subscriber left, so every stream over the cache comes to its end and nothing is
  delivered after \<^verbatim>\<open>Close\<close> has returned.
\<close>

theorem closed_cache_is_silent:
  assumes "reachable world_start world_step w" and "ca_done (wo_cache w)" and "x < wo_next w"
  shows "chan_closed (wo_heap w x) \<and> (\<forall>t. sub_chans (mgr (wo_cache w) t) = {}) \<and>
    (\<forall>w'. world_step w w' \<longrightarrow> wo_log w' = wo_log w \<and>
      length (chan_buf (wo_heap w' x)) \<le> length (chan_buf (wo_heap w x)))"
proof -
  have ok: "world_ok w" by (rule reachable_world_ok [OF assms(1)])
  then have none: "\<forall>t. sub_chans (mgr (wo_cache w) t) = {}" and hand: "wo_hand w = None"
    and stop: "ca_stop (wo_cache w)"
    using assms(2) by (auto simp: world_ok_def)
  moreover have "chan_closed (wo_heap w x)"
    using ok none assms(3) by (auto simp: world_ok_def heap_ok_def)
  moreover have "wo_log w' = wo_log w \<and> length (chan_buf (wo_heap w' x)) \<le> length (chan_buf (wo_heap w x))"
    if st: "world_step w w'" for w'
    using st hand assms(2,3) stop
    by (cases rule: world_step.cases) (auto simp: subscribe_topic_def)
  ultimately show ?thesis by blast
qed

section \<open>Concrete runs\<close>

definition idle_world :: world where
  "idle_world = \<lparr>wo_cache = NewJobCache, wo_heap = (\<lambda>_. make_chan 1), wo_next = 0,
     wo_cancelled = (\<lambda>_. False), wo_hand = None, wo_posts = [], wo_log = [], wo_topic = (\<lambda>_. TAll),
     wo_got = (\<lambda>_. [])\<rparr>"

text \<open>Somebody subscribes to job \<^verbatim>\<open>a\<close>; the channel has the number 0.\<close>

definition listening_world :: world where
  "listening_world = idle_world\<lparr>
     wo_cache := NewJobCache\<lparr>ca_updatesByID := fmupd (JobID ''a'') (Subscribe 7 0 new_subManager) fmempty\<rparr>,
     wo_heap := (\<lambda>_. make_chan 1)(0 := make_chan 1), wo_next := 1,
     wo_topic := (\<lambda>_. TAll)(0 := TID (JobID ''a'')), wo_got := (\<lambda>_. [])(0 := [])\<rparr>"

lemma idle_reachable: "reachable world_start world_step idle_world"
  by (rule reachable.reach_start) (simp add: world_start_def idle_world_def)

lemma listening_reachable: "reachable world_start world_step listening_world"
proof (rule reachable.reach_step [OF idle_reachable])
  have "subscribe_topic (TID (JobID ''a'')) 7 0 NewJobCache ((\<lambda>_. make_chan 1)(0 := make_chan 1)) =
      Inr (wo_cache listening_world, wo_heap listening_world)"
    by (simp add: subscribe_topic_def NewJobCache_def listening_world_def idle_world_def)
  then show "world_step idle_world listening_world"
    using subscribe_step [of 0 idle_world "TID (JobID ''a'')" 7 "wo_cache listening_world" "wo_heap listening_world"]
    by (simp add: idle_world_def listening_world_def)
qed

theorem cache_never_panics_witness:
  "\<exists>c H. processUpdate (\<lambda>_. False) (newStatusUpdateFromJob (example_job ''a'' ''ann'' StatusRunning))
     (wo_cache listening_world) (wo_heap listening_world) = Inr (c, H)"
  using cache_never_panics [OF listening_reachable, of "newStatusUpdateFromJob (example_job ''a'' ''ann'' StatusRunning)"]
  by (simp add: listening_world_def idle_world_def)

text \<open>The job is added, its update is processed and received.\<close>

definition first_update :: statusUpdate where
  "first_update = newStatusUpdateFromJob (example_job ''a'' ''ann'' StatusRunning)"

lemma served_reachable:
  "\<exists>w. reachable world_start world_step w \<and> wo_got w 0 = [first_update] \<and> wo_next w = 1 \<and>
     wo_topic w 0 = TID (JobID ''a'') \<and> wo_posts w = [first_update]"
proof -
  let ?w0 = listening_world and ?job = "example_job ''a'' ''ann'' StatusRunning"
  let ?s = "\<lparr>ims_jobs = fmupd ''a'' ?job fmempty\<rparr>"
  let ?c1 = "(wo_cache ?w0)\<lparr>ca_store := ?s, ca_ch := (make_chan 64)\<lparr>chan_buf := [first_update]\<rparr>\<rparr>"
  let ?w1 = "?w0\<lparr>wo_cache := ?c1, wo_posts := [first_update]\<rparr>"
  let ?w2 = "?w1\<lparr>wo_hand := Some first_update, wo_cache := ?c1\<lparr>ca_ch := (make_chan 64)\<lparr>chan_buf := []\<rparr>\<rparr>\<rparr>"
  let ?H = "(wo_heap ?w0)(0 := (make_chan 1)\<lparr>chan_buf := [first_update]\<rparr>)"
  let ?w3 = "?w2\<lparr>wo_hand := None, wo_cache := ?c1\<lparr>ca_ch := (make_chan 64)\<lparr>chan_buf := []\<rparr>\<rparr>,
      wo_heap := ?H, wo_log := [first_update]\<rparr>"
  have "AddOrUpdate 0 True ?job (wo_cache ?w0) = Inr ?c1"
    by (simp add: AddOrUpdate_def store_Update_def add_callback_def cache_notify_def chan_try_send_def
        chan_full_def listening_world_def idle_world_def NewJobCache_def newInMemoryStore_def make_chan_def
        first_update_def example_job_def)
  then have 1: "world_step ?w0 ?w1"
    using add_step [of 0 True ?job ?w0 ?c1]
    by (simp add: new_posts_def listening_world_def idle_world_def NewJobCache_def make_chan_def)
  have 2: "world_step ?w1 ?w2"
    using receive_step [of ?w1 first_update "[]"]
    by (simp add: listening_world_def idle_world_def NewJobCache_def make_chan_def)
  have "processUpdate (wo_cancelled ?w2) first_update (wo_cache ?w2) (wo_heap ?w2) = Inr (wo_cache ?w3, ?H)"
    by (simp add: processUpdate_def notify_topic_def Notify_def listening_world_def idle_world_def
        NewJobCache_def new_subManager_def Subscribe_def first_update_def newStatusUpdateFromJob_def
        example_job_def chan_try_send_def chan_full_def make_chan_def)
  then have 3: "world_step ?w2 ?w3"
    using process_step [of ?w2 first_update "wo_cache ?w3" ?H]
    by (simp add: listening_world_def idle_world_def)
  let ?w4 = "?w3\<lparr>wo_heap := ?H(0 := (?H 0)\<lparr>chan_buf := []\<rparr>),
      wo_got := (wo_got ?w3)(0 := wo_got ?w3 0 @ [first_update])\<rparr>"
  have 4: "world_step ?w3 ?w4"
    using consume_step [of 0 ?w3 first_update "[]"] by (simp add: listening_world_def)
  from listening_reachable 1 have "reachable world_start world_step ?w1" by (rule reachable.reach_step)
  then have "reachable world_start world_step ?w2" using 2 by (rule reachable.reach_step)
  then have "reachable world_start world_step ?w3" using 3 by (rule reachable.reach_step)
  then have "reachable world_start world_step ?w4" using 4 by (rule reachable.reach_step)
  moreover have "wo_got ?w4 0 = [first_update]" "wo_next ?w4 = 1" "wo_topic ?w4 0 = TID (JobID ''a'')"
    "wo_posts ?w4 = [first_update]"
    by (simp_all add: listening_world_def idle_world_def)
  ultimately show ?thesis by blast
qed

theorem subscriber_sees_subsequence_witness:
  "\<exists>w. reachable world_start world_step w \<and> wo_got w 0 = [first_update] \<and>
     subseq [first_update] (filter (matches (TID (JobID ''a''))) (wo_posts w))"
proof -
  obtain w where w: "reachable world_start world_step w" "wo_got w 0 = [first_update]" "wo_next w = 1"
    "wo_topic w 0 = TID (JobID ''a'')" using served_reachable by blast
  with subscriber_sees_subsequence [OF w(1), of 0] show ?thesis by auto
qed

lemma closed_reachable: "\<exists>w. reachable world_start world_step w \<and> ca_done (wo_cache w) \<and> wo_next w = 1"
proof -
  let ?w1 = "listening_world\<lparr>wo_cache := (wo_cache listening_world)\<lparr>ca_stop := True\<rparr>\<rparr>"
  have r1: "reachable world_start world_step ?w1"
    by (rule reachable.reach_step [OF listening_reachable stop_step])
  have cov: "covers [JobID ''a''] [] (wo_cache ?w1)"
    by (simp add: covers_def listening_world_def NewJobCache_def)
  obtain c H n where run: "closeSubscribers [JobID ''a''] [] (wo_cache ?w1) (wo_heap ?w1) = Inr (c, H, n)"
    using closeSubscribers_ok [OF _ cov] reachable_world_ok [OF r1] unfolding world_ok_def by blast
  have "world_step ?w1 (?w1\<lparr>wo_cache := c\<lparr>ca_done := True\<rparr>, wo_heap := H\<rparr>)"
    using run cov by (intro finish_step) (simp_all add: listening_world_def idle_world_def NewJobCache_def)
  from reachable.reach_step [OF r1 this]
  have "reachable world_start world_step (?w1\<lparr>wo_cache := c\<lparr>ca_done := True\<rparr>, wo_heap := H\<rparr>)" .
  moreover have "ca_done (wo_cache (?w1\<lparr>wo_cache := c\<lparr>ca_done := True\<rparr>, wo_heap := H\<rparr>))"
    "wo_next (?w1\<lparr>wo_cache := c\<lparr>ca_done := True\<rparr>, wo_heap := H\<rparr>) = 1"
    by (simp_all add: listening_world_def)
  ultimately show ?thesis by blast
qed

theorem closed_cache_is_silent_witness:
  "\<exists>w. reachable world_start world_step w \<and> ca_done (wo_cache w) \<and> chan_closed (wo_heap w 0)"
proof -
  obtain w where w: "reachable world_start world_step w" "ca_done (wo_cache w)" "wo_next w = 1"
    using closed_reachable by blast
  with closed_cache_is_silent [OF w(1,2), of 0] show ?thesis by auto
qed

end
