(* ===== verification/Plugintest_Mocks.thy ===== *)
theory Plugintest_Mocks
  imports Response_Writer
begin

text \<open>
  The test doubles of the response writers and the assertions on them
  (\<^verbatim>\<open>src/plugintest/mocks.go\<close> and \<^verbatim>\<open>src/plugintest/helpers.go\<close>). Every method holds the writer's lock
  from beginning to end and is one atomic operation. The accessors return copies, which as
  values are the fields themselves. An assertion reports failures on a \<^verbatim>\<open>testing.T\<close>; here it gives
  whether it reported one (the texts of the reports are left out).
\<close>

record ControlResult =
  ctl_Complete :: bool
  ctl_Message :: string

record NetworkInfo =
  ni_Host :: string
  ni_Addresses :: "string list option"

record ConfigReloadResult =
  crs_ErrorType :: ConfigReloadErrorType
  crs_ErrorMessage :: string

record MockResponseWriter =
  mk_errors :: "Error list"
  mk_jobs :: "Job list option list"
  mk_controlResults :: "ControlResult list"
  mk_networks :: "NetworkInfo list"
  mk_clusterInfo :: "ClusterOptions option"
  mk_configReloadResults :: "ConfigReloadResult list"

record StatusUpdate =
  st_ID :: JobID
  st_Name :: string
  st_Status :: string
  st_StatusCode :: string
  st_Message :: string

record OutputChunk =
  oc_Output :: string
  oc_OutputType :: JobOutput

record ResourceUtilData =
  ru_CPUPercent :: real
  ru_CPUTime :: real
  ru_ResidentMem :: real
  ru_VirtualMem :: real

record MockStreamResponseWriter = MockResponseWriter +
  mk_statuses :: "StatusUpdate list"
  mk_outputs :: "OutputChunk list"
  mk_resourceUtils :: "ResourceUtilData list"
  mk_closed :: bool

definition NewMockResponseWriter :: MockResponseWriter where
  "NewMockResponseWriter = \<lparr>mk_errors = [], mk_jobs = [], mk_controlResults = [], mk_networks = [],
     mk_clusterInfo = None, mk_configReloadResults = []\<rparr>"

definition NewMockStreamResponseWriter :: MockStreamResponseWriter where
  "NewMockStreamResponseWriter = \<lparr>mk_errors = [], mk_jobs = [], mk_controlResults = [], mk_networks = [],
     mk_clusterInfo = None, mk_configReloadResults = [], mk_statuses = [], mk_outputs = [],
     mk_resourceUtils = [], mk_closed = False\<rparr>"


section \<open>Writing\<close>

definition mock_WriteErrorf :: "ErrCode \<Rightarrow> string \<Rightarrow> ('a MockResponseWriter_scheme) \<Rightarrow> ('a MockResponseWriter_scheme)" where
  "mock_WriteErrorf code msg m = m\<lparr>mk_errors := mk_errors m @ [Errorf code msg]\<rparr>"

definition mock_WriteError :: "goerror \<Rightarrow> 'a MockResponseWriter_scheme \<Rightarrow> 'a MockResponseWriter_scheme" where
  "mock_WriteError err m = m\<lparr>mk_errors := mk_errors m @ [case errors_As_api err of
     Some apiErr \<Rightarrow> apiErr
   | None \<Rightarrow> \<lparr>err_Code = CodeUnknown, err_Msg = goerror_Error err\<rparr>]\<rparr>"

definition mock_WriteJobs :: "Job list option \<Rightarrow> 'a MockResponseWriter_scheme \<Rightarrow> 'a MockResponseWriter_scheme" where
  "mock_WriteJobs jobs m = m\<lparr>mk_jobs := mk_jobs m @ [jobs]\<rparr>"

definition mock_WriteControlJob :: "bool \<Rightarrow> string \<Rightarrow> 'a MockResponseWriter_scheme \<Rightarrow> 'a MockResponseWriter_scheme" where
  "mock_WriteControlJob cpl msg m =
     m\<lparr>mk_controlResults := mk_controlResults m @ [\<lparr>ctl_Complete = cpl, ctl_Message = msg\<rparr>]\<rparr>"

definition mock_WriteJobNetwork ::
  "string \<Rightarrow> string list option \<Rightarrow> 'a MockResponseWriter_scheme \<Rightarrow> 'a MockResponseWriter_scheme" where
  "mock_WriteJobNetwork host addr m =
     m\<lparr>mk_networks := mk_networks m @ [\<lparr>ni_Host = host, ni_Addresses = addr\<rparr>]\<rparr>"

definition mock_WriteClusterInfo :: "ClusterOptions \<Rightarrow> 'a MockResponseWriter_scheme \<Rightarrow> 'a MockResponseWriter_scheme" where
  "mock_WriteClusterInfo opts m = m\<lparr>mk_clusterInfo := Some opts\<rparr>"

definition mock_WriteConfigReload ::
  "ConfigReloadErrorType \<Rightarrow> string \<Rightarrow> 'a MockResponseWriter_scheme \<Rightarrow> 'a MockResponseWriter_scheme" where
  "mock_WriteConfigReload et msg m = m\<lparr>mk_configReloadResults := mk_configReloadResults m @
     [\<lparr>crs_ErrorType = et, crs_ErrorMessage = msg\<rparr>]\<rparr>"

definition mock_WriteJobStatus ::
  "JobID \<Rightarrow> string \<Rightarrow> string \<Rightarrow> string \<Rightarrow> string \<Rightarrow> MockStreamResponseWriter \<Rightarrow> MockStreamResponseWriter" where
  "mock_WriteJobStatus jid name status statusCode msg m = m\<lparr>mk_statuses := mk_statuses m @
     [\<lparr>st_ID = jid, st_Name = name, st_Status = status, st_StatusCode = statusCode, st_Message = msg\<rparr>]\<rparr>"

definition mock_WriteJobOutput :: "string \<Rightarrow> JobOutput \<Rightarrow> MockStreamResponseWriter \<Rightarrow> MockStreamResponseWriter" where
  "mock_WriteJobOutput output ot m =
     m\<lparr>mk_outputs := mk_outputs m @ [\<lparr>oc_Output = output, oc_OutputType = ot\<rparr>]\<rparr>"

definition mock_WriteJobResourceUtil ::
  "real \<Rightarrow> real \<Rightarrow> real \<Rightarrow> real \<Rightarrow> MockStreamResponseWriter \<Rightarrow> MockStreamResponseWriter" where
  "mock_WriteJobResourceUtil cpu cput res virt m = m\<lparr>mk_resourceUtils := mk_resourceUtils m @
     [\<lparr>ru_CPUPercent = cpu, ru_CPUTime = cput, ru_ResidentMem = res, ru_VirtualMem = virt\<rparr>]\<rparr>"

definition mock_Close :: "MockStreamResponseWriter \<Rightarrow> MockStreamResponseWriter" where
  "mock_Close m = m\<lparr>mk_closed := True\<rparr>"

definition mock_Reset :: "'a MockResponseWriter_scheme \<Rightarrow> 'a MockResponseWriter_scheme" where
  "mock_Reset m = m\<lparr>mk_errors := [], mk_jobs := [], mk_controlResults := [], mk_networks := [],
     mk_clusterInfo := None, mk_configReloadResults := []\<rparr>"

definition mock_ResetStream :: "MockStreamResponseWriter \<Rightarrow> MockStreamResponseWriter" where
  "mock_ResetStream m = m\<lparr>mk_statuses := [], mk_outputs := [], mk_resourceUtils := [], mk_closed := False\<rparr>"

definition mockStream_Reset :: "MockStreamResponseWriter \<Rightarrow> MockStreamResponseWriter" where
  "mockStream_Reset m = mock_ResetStream (mock_Reset m)"


section \<open>Reading\<close>

definition mock_HasError :: "'a MockResponseWriter_scheme \<Rightarrow> bool" where
  "mock_HasError m \<longleftrightarrow> length (mk_errors m) > 0"

definition mock_LastError :: "'a MockResponseWriter_scheme \<Rightarrow> Error option" where
  "mock_LastError m = (if mk_errors m = [] then None else Some (last (mk_errors m)))"

definition mock_FirstError :: "'a MockResponseWriter_scheme \<Rightarrow> Error option" where
  "mock_FirstError m = (if mk_errors m = [] then None else Some (hd (mk_errors m)))"

definition mock_LastJobs :: "'a MockResponseWriter_scheme \<Rightarrow> Job list option" where
  "mock_LastJobs m = (if mk_jobs m = [] then None else last (mk_jobs m))"

definition mock_AllJobs :: "'a MockResponseWriter_scheme \<Rightarrow> Job list" where
  "mock_AllJobs m = concat (map (\<lambda>b. case b of None \<Rightarrow> [] | Some js \<Rightarrow> js) (mk_jobs m))"

definition mock_LastStatus :: "MockStreamResponseWriter \<Rightarrow> StatusUpdate option" where
  "mock_LastStatus m = (if mk_statuses m = [] then None else Some (last (mk_statuses m)))"

definition mock_StatusCount :: "MockStreamResponseWriter \<Rightarrow> nat" where
  "mock_StatusCount m = length (mk_statuses m)"

definition mock_OutputCount :: "MockStreamResponseWriter \<Rightarrow> nat" where
  "mock_OutputCount m = length (mk_outputs m)"

definition mock_CombinedOutput :: "MockStreamResponseWriter \<Rightarrow> string" where
  "mock_CombinedOutput m = foldl (\<lambda>combined chunk. combined @ oc_Output chunk) [] (mk_outputs m)"

definition mock_IsClosed :: "MockStreamResponseWriter \<Rightarrow> bool" where
  "mock_IsClosed m = mk_closed m"


text \<open>The accessors that hand out copies: entry by entry where the code copies the entries too.\<close>

definition mock_Errors :: "'a MockResponseWriter_scheme \<Rightarrow> Error list" where
  "mock_Errors m = mk_errors m"

definition mock_Jobs :: "'a MockResponseWriter_scheme \<Rightarrow> Job list option list" where
  "mock_Jobs m = map (\<lambda>batch. batch) (mk_jobs m)"

definition mock_ControlResults :: "'a MockResponseWriter_scheme \<Rightarrow> ControlResult list" where
  "mock_ControlResults m = mk_controlResults m"

definition mock_Networks :: "'a MockResponseWriter_scheme \<Rightarrow> NetworkInfo list" where
  "mock_Networks m = map (\<lambda>n. \<lparr>ni_Host = ni_Host n, ni_Addresses = ni_Addresses n\<rparr>) (mk_networks m)"

definition mock_ClusterInfo :: "'a MockResponseWriter_scheme \<Rightarrow> ClusterOptions option" where
  "mock_ClusterInfo m = (case mk_clusterInfo m of
     None \<Rightarrow> None
   | Some info \<Rightarrow> Some (info\<lparr>
       co_Constraints := co_Constraints info, co_Queues := co_Queues info, co_Limits := co_Limits info,
       co_Configs := co_Configs info,
       co_Profiles := map_option (map (\<lambda>p. p\<lparr>rp_Limits := rp_Limits p\<rparr>)) (co_Profiles info),
       co_ImageOpt := (co_ImageOpt info)\<lparr>io_Images := io_Images (co_ImageOpt info)\<rparr>\<rparr>))"

definition mock_ConfigReloadResults :: "'a MockResponseWriter_scheme \<Rightarrow> ConfigReloadResult list" where
  "mock_ConfigReloadResults m = mk_configReloadResults m"

definition mock_Statuses :: "MockStreamResponseWriter \<Rightarrow> StatusUpdate list" where
  "mock_Statuses m = mk_statuses m"

definition mock_Outputs :: "MockStreamResponseWriter \<Rightarrow> OutputChunk list" where
  "mock_Outputs m = mk_outputs m"

definition mock_ResourceUtils :: "MockStreamResponseWriter \<Rightarrow> ResourceUtilData list" where
  "mock_ResourceUtils m = mk_resourceUtils m"

lemma mock_Networks_copy [simp]: "mock_Networks m = mk_networks m"
  by (auto simp: mock_Networks_def intro!: map_idI)

lemma mock_ClusterInfo_copy [simp]: "mock_ClusterInfo m = mk_clusterInfo m"
  by (simp add: mock_ClusterInfo_def option.map_ident split: option.split)


section \<open>The mock records what the writer sends\<close>

text \<open>The call a plugin makes, on the mock.\<close>

fun mock_call :: "writer_call \<Rightarrow> MockStreamResponseWriter \<Rightarrow> MockStreamResponseWriter" where
  "mock_call (CErrorf code msg) m = mock_WriteErrorf code msg m"
| "mock_call (CError err) m = mock_WriteError err m"
| "mock_call (CJobs jobs) m = mock_WriteJobs jobs m"
| "mock_call (CControlJob cpl msg) m = mock_WriteControlJob cpl msg m"
| "mock_call (CJobNetwork host addr) m = mock_WriteJobNetwork host addr m"
| "mock_call (CClusterInfo opts) m = mock_WriteClusterInfo opts m"
| "mock_call (CJobStatus jid name status code msg) m = mock_WriteJobStatus jid name status code msg m"
| "mock_call (CJobOutput output ot) m = mock_WriteJobOutput output ot m"
| "mock_call (CJobResourceUtil a b c d) m = mock_WriteJobResourceUtil a b c d m"
| "mock_call CClose m = mock_Close m"
| "mock_call (CConfigReload et msg) m = mock_WriteConfigReload et msg m"
| "mock_call _ m = m"

definition mock_calls :: "writer_call list \<Rightarrow> MockStreamResponseWriter" where
  "mock_calls cs = fold mock_call cs NewMockStreamResponseWriter"

text \<open>What the Launcher sees of the responses, and what a test sees on the mock, in the same form.\<close>

record seen =
  seen_codes :: "ErrCode list"
  seen_jobs :: "Job list list"
  seen_controls :: "(bool \<times> string) list"
  seen_networks :: "(string \<times> string list) list"
  seen_cluster :: "ClusterInfo option"
  seen_reloads :: "(ConfigReloadErrorType \<times> string) list"
  seen_statuses :: "(JobID \<times> string \<times> string \<times> string \<times> string) list"
  seen_outputs :: "(string \<times> string) list"
  seen_utils :: "(real \<times> real \<times> real \<times> real) list"

definition nothing_seen :: seen where
  "nothing_seen = \<lparr>seen_codes = [], seen_jobs = [], seen_controls = [], seen_networks = [],
     seen_cluster = None, seen_reloads = [], seen_statuses = [], seen_outputs = [], seen_utils = []\<rparr>"

fun see :: "Response \<Rightarrow> seen \<Rightarrow> seen" where
  "see (PError r) v = v\<lparr>seen_codes := seen_codes v @ [er_Code r]\<rparr>"
| "see (PJobState r) v = v\<lparr>seen_jobs := seen_jobs v @ [the (jsr_Jobs r)]\<rparr>"
| "see (PControlJob r) v = v\<lparr>seen_controls := seen_controls v @ [(cjr_Complete r, cjr_Msg r)]\<rparr>"
| "see (PJobNetwork r) v = v\<lparr>seen_networks := seen_networks v @ [(jnr_Host r, the (jnr_Addr r))]\<rparr>"
| "see (PClusterInfo r) v = v\<lparr>seen_cluster := Some (cir_Info r)\<rparr>"
| "see (PConfigReload r) v = v\<lparr>seen_reloads := seen_reloads v @ [(crr_ErrorType r, crr_ErrorMessage r)]\<rparr>"
| "see (PJobStatus r) v = v\<lparr>seen_statuses := seen_statuses v @
     [(jst_ID r, jst_Name r, jst_Status r, jst_Code r, jst_Msg r)]\<rparr>"
| "see (PJobOutput r) v = (if jor_Complete r then v
     else v\<lparr>seen_outputs := seen_outputs v @ [(jor_Output r, jor_OutputType r)]\<rparr>)"
| "see (PJobResource r) v = (if jrr_Complete r then v
     else v\<lparr>seen_utils := seen_utils v @
       [(jrr_CPUPercent r, jrr_CPUTime r, jrr_ResidentMem r, jrr_VirtualMem r)]\<rparr>)"
| "see _ v = v"

definition seen_by_launcher :: "Response list \<Rightarrow> seen" where
  "seen_by_launcher rs = fold see rs nothing_seen"

definition sent_info :: "ClusterOptions \<Rightarrow> ClusterInfo" where
  "sent_info opts = cir_Info (NewClusterInfoResponse 0 0 (toProtocol opts))"

definition nil_slice :: "'a list option \<Rightarrow> 'a list" where
  "nil_slice xs = (case xs of None \<Rightarrow> [] | Some ys \<Rightarrow> ys)"

definition seen_by_test :: "MockStreamResponseWriter \<Rightarrow> seen" where
  "seen_by_test m = \<lparr>seen_codes = map err_Code (mk_errors m), seen_jobs = map nil_slice (mk_jobs m),
     seen_controls = map (\<lambda>r. (ctl_Complete r, ctl_Message r)) (mk_controlResults m),
     seen_networks = map (\<lambda>n. (ni_Host n, nil_slice (ni_Addresses n))) (mk_networks m),
     seen_cluster = map_option sent_info (mk_clusterInfo m),
     seen_reloads = map (\<lambda>r. (crs_ErrorType r, crs_ErrorMessage r)) (mk_configReloadResults m),
     seen_statuses = map (\<lambda>u. (st_ID u, st_Name u, st_Status u, st_StatusCode u, st_Message u)) (mk_statuses m),
     seen_outputs = map (\<lambda>c. (oc_Output c, JobOutput_String (oc_OutputType c))) (mk_outputs m),
     seen_utils = map (\<lambda>u. (ru_CPUPercent u, ru_CPUTime u, ru_ResidentMem u, ru_VirtualMem u)) (mk_resourceUtils m)\<rparr>"


lemmas mock_defs = mock_WriteErrorf_def mock_WriteError_def mock_WriteJobs_def mock_WriteControlJob_def
  mock_WriteJobNetwork_def mock_WriteClusterInfo_def mock_WriteConfigReload_def mock_WriteJobStatus_def
  mock_WriteJobOutput_def mock_WriteJobResourceUtil_def mock_Close_def

lemma the_non_nil [simp]: "the (non_nil xs) = nil_slice xs"
  by (cases xs) (simp_all add: nil_slice_def)

lemma sent_info_ids [simp]: "cir_Info (NewClusterInfoResponse rid sid (toProtocol opts)) = sent_info opts"
  by (simp add: sent_info_def NewClusterInfoResponse_def)

text \<open>One call: the response it sends, seen, is what the mock's record of it shows.\<close>

lemma call_seen:
  assumes "Request_ID (rw_req w) = Inr rid" "rw_stream w"
  shows "\<exists>st' resp err. prepare w c st = Inr (st', resp, err) \<and> rt_out st' = rt_out st \<and>
    (\<forall>m. fold see (case resp of None \<Rightarrow> [] | Some r \<Rightarrow> [r]) (seen_by_test m) = seen_by_test (mock_call c m))"
proof -
  note defs = WriteErrorf_def WriteError_def WriteJobs_def WriteJobStatus_def
    WriteJobOutput_def WriteJobResourceUtil_def writer_Close_def WriteControlJob_def
    WriteJobNetwork_def WriteClusterInfo_def WriteHeartbeat_def WriteBootstrap_def
    WriteSetLoadBalancerNodes_def WriteConfigReload_def numbered_outcome [OF assms(1)]
    sequenced_outcome [OF assms(1)] Let_def mock_defs seen_by_test_def Errorf_def
  note resp = NewErrorResponse_def NewJobStateResponse_def NewJobStatusStreamResponse_def
    NewJobOutputStreamResponse_def NewJobResourceResponse_def NewControlJobResponse_def
    NewJobNetworkResponse_def NewConfigReloadResponse_def
  show ?thesis
  proof (cases c)
    case CClose
    then show ?thesis using assms by (cases "rw_req w") (simp_all add: defs resp)
  next
    case (CError err)
    then show ?thesis using assms by (cases "errors_As_api err") (simp_all add: defs resp)
  qed (use assms in \<open>simp_all add: defs resp\<close>)
qed

lemma calls_seen:
  assumes "Request_ID (rw_req w) = Inr rid" "rw_stream w"
  shows "\<exists>st' rs. run_calls w cs st = Inr st' \<and> rt_out st' = rt_out st @ rs \<and>
    fold see rs (seen_by_test m) = seen_by_test (fold mock_call cs m)"
proof (induction cs arbitrary: st m)
  case (Cons c cs)
  obtain st1 resp err where c: "prepare w c st = Inr (st1, resp, err)" "rt_out st1 = rt_out st"
    "fold see (case resp of None \<Rightarrow> [] | Some r \<Rightarrow> [r]) (seen_by_test m) = seen_by_test (mock_call c m)"
    using call_seen [OF assms, of c st] by blast
  let ?st = "case resp of None \<Rightarrow> st1 | Some r \<Rightarrow> sendResponse r st1"
  let ?rs = "case resp of None \<Rightarrow> [] | Some r \<Rightarrow> [r]"
  have run: "run_call w c st = Inr (?st, err)" "rt_out ?st = rt_out st @ ?rs"
    using c by (simp_all add: run_call_def sendResponse_def split: option.split)
  from Cons.IH [of ?st "mock_call c m"] obtain st' rs where
    "run_calls w cs ?st = Inr st'" "rt_out st' = rt_out ?st @ rs"
    "fold see rs (seen_by_test (mock_call c m)) = seen_by_test (fold mock_call cs (mock_call c m))" by blast
  with run c(3) show ?case
    by (intro exI [of _ st'] exI [of _ "?rs @ rs"]) simp
qed simp




section \<open>Assertions\<close>

definition AssertNoError :: "'a MockResponseWriter_scheme \<Rightarrow> bool" where
  "AssertNoError w = (length (mk_errors w) > 0)"

definition AssertError :: "'a MockResponseWriter_scheme \<Rightarrow> bool" where
  "AssertError w = (\<not> mock_HasError w)"

text \<open>The search loops of the assertions.\<close>

fun any_error :: "(Error \<Rightarrow> bool) \<Rightarrow> Error list \<Rightarrow> bool" where
  "any_error p [] = False"
| "any_error p (e # es) = (if p e then True else any_error p es)"

definition AssertErrorCode :: "'a MockResponseWriter_scheme \<Rightarrow> ErrCode \<Rightarrow> bool" where
  "AssertErrorCode w code = (if \<not> mock_HasError w then True
     else \<not> any_error (\<lambda>e. err_Code e = code) (mk_errors w))"

text \<open>\<^verbatim>\<open>containsRec\<close> with its index, and \<^verbatim>\<open>contains\<close>.\<close>

function containsRec :: "string \<Rightarrow> string \<Rightarrow> nat \<Rightarrow> bool" where
  "containsRec s sub i =
     (if int i \<le> int (length s) - int (length sub) then
        (if take (length sub) (drop i s) = sub then True else containsRec s sub (Suc i))
      else False)"
  by pat_completeness auto
termination by (relation "measure (\<lambda>(s, sub, i). Suc (length s) - i)") auto

declare containsRec.simps [simp del]

definition contains_str :: "string \<Rightarrow> string \<Rightarrow> bool" where
  "contains_str s sub \<longleftrightarrow> sub = [] \<or> (length s \<ge> length sub \<and>
     (s = sub \<or> (length s > length sub \<and> containsRec s sub 0)))"

definition AssertErrorMessage :: "'a MockResponseWriter_scheme \<Rightarrow> string \<Rightarrow> bool" where
  "AssertErrorMessage w msg = (if \<not> mock_HasError w then True
     else \<not> any_error (\<lambda>e. contains_str (err_Msg e) msg) (mk_errors w))"

definition AssertJobCount :: "'a MockResponseWriter_scheme \<Rightarrow> int \<Rightarrow> bool" where
  "AssertJobCount w expected = (int (length (mock_AllJobs w)) \<noteq> expected)"

definition AssertJobStatus :: "Job option \<Rightarrow> string \<Rightarrow> bool" where
  "AssertJobStatus job expected = (case job of None \<Rightarrow> True | Some j \<Rightarrow> job_Status j \<noteq> expected)"

definition AssertJobID :: "Job option \<Rightarrow> JobID \<Rightarrow> bool" where
  "AssertJobID job expected = (case job of None \<Rightarrow> True | Some j \<Rightarrow> job_ID j \<noteq> expected)"

definition AssertJobUser :: "Job option \<Rightarrow> string \<Rightarrow> bool" where
  "AssertJobUser job expected = (case job of None \<Rightarrow> True | Some j \<Rightarrow> job_User j \<noteq> expected)"

definition AssertJobExitCode :: "Job option \<Rightarrow> int \<Rightarrow> bool" where
  "AssertJobExitCode job expected = (case job of None \<Rightarrow> True | Some j \<Rightarrow>
     (case job_ExitCode j of None \<Rightarrow> True | Some c \<Rightarrow> c \<noteq> expected))"

definition AssertStreamClosed :: "MockStreamResponseWriter \<Rightarrow> bool" where
  "AssertStreamClosed w = (\<not> mock_IsClosed w)"

definition AssertStreamNotClosed :: "MockStreamResponseWriter \<Rightarrow> bool" where
  "AssertStreamNotClosed w = mock_IsClosed w"

definition AssertStatusCount :: "MockStreamResponseWriter \<Rightarrow> int \<Rightarrow> bool" where
  "AssertStatusCount w expected = (int (mock_StatusCount w) \<noteq> expected)"

definition AssertOutputCount :: "MockStreamResponseWriter \<Rightarrow> int \<Rightarrow> bool" where
  "AssertOutputCount w expected = (int (mock_OutputCount w) \<noteq> expected)"

definition AssertControlComplete :: "'a MockResponseWriter_scheme \<Rightarrow> string \<Rightarrow> bool" where
  "AssertControlComplete w expectedMsg = (if mk_controlResults w = [] then True
     else (let result = last (mk_controlResults w) in
       \<not> ctl_Complete result \<or> (expectedMsg \<noteq> '''' \<and> ctl_Message result \<noteq> expectedMsg)))"

definition AssertControlIncomplete :: "'a MockResponseWriter_scheme \<Rightarrow> bool" where
  "AssertControlIncomplete w = (if mk_controlResults w = [] then True
     else ctl_Complete (last (mk_controlResults w)))"

definition AssertJobHasTag :: "Job option \<Rightarrow> string \<Rightarrow> bool" where
  "AssertJobHasTag job tag = (case job of None \<Rightarrow> True | Some j \<Rightarrow> \<not> list_ex (\<lambda>t. t = tag) (job_Tags j))"

definition AssertJobHasEnv :: "Job option \<Rightarrow> string \<Rightarrow> bool" where
  "AssertJobHasEnv job name = (case job of None \<Rightarrow> True | Some j \<Rightarrow>
     \<not> list_ex (\<lambda>e. env_Name e = name) (job_Env j))"

definition AssertJobEnvValue :: "Job option \<Rightarrow> string \<Rightarrow> string \<Rightarrow> bool" where
  "AssertJobEnvValue job name expectedValue = (case job of None \<Rightarrow> True | Some j \<Rightarrow>
     (case find (\<lambda>e. env_Name e = name) (job_Env j) of
        None \<Rightarrow> True | Some e \<Rightarrow> env_Value e \<noteq> expectedValue))"

definition AssertJobMatchesFilter :: "Job option \<Rightarrow> JobFilter \<Rightarrow> bool go" where
  "AssertJobMatchesFilter job flt = (case job of None \<Rightarrow> Inr True | Some j \<Rightarrow>
     andThen (Includes flt j) (\<lambda>b. Inr (\<not> b)))"

definition AssertJobDoesNotMatchFilter :: "Job option \<Rightarrow> JobFilter \<Rightarrow> bool go" where
  "AssertJobDoesNotMatchFilter job flt = (case job of None \<Rightarrow> Inr True | Some j \<Rightarrow> Includes flt j)"

fun FindJobByID :: "Job list \<Rightarrow> JobID \<Rightarrow> Job option" where
  "FindJobByID [] jid = None"
| "FindJobByID (job # jobs) jid = (if job_ID job = jid then Some job else FindJobByID jobs jid)"

fun FindJobsByStatus :: "Job list \<Rightarrow> string \<Rightarrow> Job list" where
  "FindJobsByStatus [] status = []"
| "FindJobsByStatus (job # jobs) status =
     (if job_Status job = status then [job] else []) @ FindJobsByStatus jobs status"

fun FindJobsByUser :: "Job list \<Rightarrow> string \<Rightarrow> Job list" where
  "FindJobsByUser [] user = []"
| "FindJobsByUser (job # jobs) user =
     (if job_User job = user then [job] else []) @ FindJobsByUser jobs user"

lemma any_error_iff: "any_error p es \<longleftrightarrow> (\<exists>e\<in>set es. p e)"
  by (induction es) auto

lemma containsRec_iff:
  "i \<le> length s \<Longrightarrow> containsRec s sub i \<longleftrightarrow> (\<exists>p q. s = p @ sub @ q \<and> i \<le> length p)"
proof (induction s sub i rule: containsRec.induct)
  case (1 s sub i)
  show ?case
  proof (cases "i + length sub \<le> length s")
    case False
    then show ?thesis by (subst containsRec.simps) auto
  next
    case le: True
    show ?thesis
    proof (cases "take (length sub) (drop i s) = sub")
      case True
      have "s = take i s @ take (length sub) (drop i s) @ drop (length sub) (drop i s)"
        by (simp only: append_take_drop_id)
      with True have "\<exists>p q. s = p @ sub @ q \<and> i \<le> length p"
        using le by (intro exI [of _ "take i s"] exI [of _ "drop (length sub) (drop i s)"]) simp
      moreover have "containsRec s sub i" using True le by (subst containsRec.simps) simp
      ultimately show ?thesis by blast
    next
      case False
      have not_i: "\<not> (\<exists>p q. s = p @ sub @ q \<and> length p = i)"
        using False by (auto simp del: append_assoc simp: append_assoc [symmetric])
      have rec: "containsRec s sub i = containsRec s sub (Suc i)"
        using le False by (subst containsRec.simps) auto
      show ?thesis
      proof (cases "Suc i \<le> length s")
        case True
        with 1 le False have "containsRec s sub (Suc i) \<longleftrightarrow> (\<exists>p q. s = p @ sub @ q \<and> Suc i \<le> length p)" by auto
        with not_i show ?thesis unfolding rec by (metis Suc_leD le_antisym not_less_eq_eq)
      next
        case no: False
        with le False show ?thesis by (cases sub) auto
      qed
    qed
  qed
qed

text \<open>
  The substring test of the helpers is the substring relation.
\<close>

lemma contains_str_iff: "contains_str s sub \<longleftrightarrow> (\<exists>p q. s = p @ sub @ q)"
proof -
  have "containsRec s sub 0 \<longleftrightarrow> (\<exists>p q. s = p @ sub @ q)" by (simp add: containsRec_iff)
  moreover have "\<exists>p q. s = p @ sub @ q" if "sub = [] \<or> s = sub"
    using that by (intro exI [of _ "[]"] exI [of _ "drop (length sub) s"]) auto
  ultimately show ?thesis by (auto simp: contains_str_def)
qed

lemma FindJobs_filter:
  "FindJobsByStatus jobs status = filter (\<lambda>j. job_Status j = status) jobs"
  "FindJobsByUser jobs user = filter (\<lambda>j. job_User j = user) jobs"
  by (induction jobs) auto

text \<open>
  The assertions are right about the responses: an error-code assertion on the mock fails exactly
  when the calls of the plugin sent no error of that code.
\<close>

lemma AssertErrorCode_iff:
  "AssertErrorCode w code \<longleftrightarrow> code \<notin> set (map err_Code (mk_errors w))"
  by (auto simp: AssertErrorCode_def mock_HasError_def any_error_iff)

end
