(* ===== verification/Plugintest_Builders.thy ===== *)
theory Plugintest_Builders
  imports Plugintest_Mocks
begin

text \<open>
  The builders of test data (\<^verbatim>\<open>src/plugintest/builders.go\<close>). A builder changes its value in place and
  returns itself, so its methods are functions on the value. The one pointer whose target the
  builder writes is the job's container: it is an address into a heap of containers, which two
  builders may share after \<^verbatim>\<open>Clone\<close>. Slices are values here; \<open>addr\<close> is the address a method gets when
  it allocates a container.
\<close>

type_synonym container_heap = "nat \<Rightarrow> Container"

record JobBuilder =
  jb_job :: Job
  jb_container :: "nat option"

definition NewJob :: "instant \<Rightarrow> JobBuilder" where
  "NewJob now = \<lparr>jb_job = zero_Job\<lparr>job_ID := JobID ''test-job-1'', job_Status := StatusPending,
     job_Submitted := Some now, job_LastUpdated := Some now\<rparr>, jb_container = None\<rparr>"

definition NewJobWithID :: "instant \<Rightarrow> JobID \<Rightarrow> JobBuilder" where
  "NewJobWithID now jid = (let b = NewJob now in b\<lparr>jb_job := (jb_job b)\<lparr>job_ID := jid\<rparr>\<rparr>)"

definition on_job :: "(Job \<Rightarrow> Job) \<Rightarrow> JobBuilder \<Rightarrow> JobBuilder" where
  "on_job f b = b\<lparr>jb_job := f (jb_job b)\<rparr>"


section \<open>Setting fields\<close>

definition WithID :: "JobID \<Rightarrow> JobBuilder \<Rightarrow> JobBuilder" where
  "WithID jid = on_job (\<lambda>j. j\<lparr>job_ID := jid\<rparr>)"

definition WithName :: "string \<Rightarrow> JobBuilder \<Rightarrow> JobBuilder" where
  "WithName name = on_job (\<lambda>j. j\<lparr>job_Name := name\<rparr>)"

definition WithUser :: "string \<Rightarrow> JobBuilder \<Rightarrow> JobBuilder" where
  "WithUser user = on_job (\<lambda>j. j\<lparr>job_User := user\<rparr>)"

definition WithGroup :: "string \<Rightarrow> JobBuilder \<Rightarrow> JobBuilder" where
  "WithGroup grp = on_job (\<lambda>j. j\<lparr>job_Group := grp\<rparr>)"

definition WithStatus :: "string \<Rightarrow> JobBuilder \<Rightarrow> JobBuilder" where
  "WithStatus status = on_job (\<lambda>j. j\<lparr>job_Status := status\<rparr>)"

definition WithStatusMessage :: "string \<Rightarrow> JobBuilder \<Rightarrow> JobBuilder" where
  "WithStatusMessage msg = on_job (\<lambda>j. j\<lparr>job_StatusMsg := msg\<rparr>)"

definition WithHost :: "string \<Rightarrow> JobBuilder \<Rightarrow> JobBuilder" where
  "WithHost host = on_job (\<lambda>j. j\<lparr>job_Host := host\<rparr>)"

definition WithPid :: "int \<Rightarrow> JobBuilder \<Rightarrow> JobBuilder" where
  "WithPid pid = on_job (\<lambda>j. j\<lparr>job_Pid := Some pid\<rparr>)"

definition WithExitCode :: "int \<Rightarrow> JobBuilder \<Rightarrow> JobBuilder" where
  "WithExitCode code = on_job (\<lambda>j. j\<lparr>job_ExitCode := Some code\<rparr>)"

definition WithCommand :: "string \<Rightarrow> JobBuilder \<Rightarrow> JobBuilder" where
  "WithCommand command = on_job (\<lambda>j. j\<lparr>job_Command := command\<rparr>)"

definition WithExe :: "string \<Rightarrow> JobBuilder \<Rightarrow> JobBuilder" where
  "WithExe exe = on_job (\<lambda>j. j\<lparr>job_Exe := exe\<rparr>)"

definition WithArgs :: "string list \<Rightarrow> JobBuilder \<Rightarrow> JobBuilder" where
  "WithArgs args = on_job (\<lambda>j. j\<lparr>job_Args := args\<rparr>)"

definition WithEnv :: "string \<Rightarrow> string \<Rightarrow> JobBuilder \<Rightarrow> JobBuilder" where
  "WithEnv name value = on_job (\<lambda>j. j\<lparr>job_Env := job_Env j @ [\<lparr>env_Name = name, env_Value = value\<rparr>]\<rparr>)"

definition WithEnvVars :: "Env list \<Rightarrow> JobBuilder \<Rightarrow> JobBuilder" where
  "WithEnvVars env = on_job (\<lambda>j. j\<lparr>job_Env := env\<rparr>)"

definition WithWorkDir :: "string \<Rightarrow> JobBuilder \<Rightarrow> JobBuilder" where
  "WithWorkDir dir = on_job (\<lambda>j. j\<lparr>job_WorkDir := dir\<rparr>)"

definition WithStdout :: "string \<Rightarrow> JobBuilder \<Rightarrow> JobBuilder" where
  "WithStdout path = on_job (\<lambda>j. j\<lparr>job_Stdout := path\<rparr>)"

definition WithStderr :: "string \<Rightarrow> JobBuilder \<Rightarrow> JobBuilder" where
  "WithStderr path = on_job (\<lambda>j. j\<lparr>job_Stderr := path\<rparr>)"

definition WithStdin :: "string \<Rightarrow> JobBuilder \<Rightarrow> JobBuilder" where
  "WithStdin stdin = on_job (\<lambda>j. j\<lparr>job_Stdin := stdin\<rparr>)"

definition WithQueue :: "string \<Rightarrow> JobBuilder \<Rightarrow> JobBuilder" where
  "WithQueue queue = on_job (\<lambda>j. j\<lparr>job_Queues := [queue]\<rparr>)"

definition WithQueues :: "string list \<Rightarrow> JobBuilder \<Rightarrow> JobBuilder" where
  "WithQueues queues = on_job (\<lambda>j. j\<lparr>job_Queues := queues\<rparr>)"

definition WithCluster :: "string \<Rightarrow> JobBuilder \<Rightarrow> JobBuilder" where
  "WithCluster cluster = on_job (\<lambda>j. j\<lparr>job_Cluster := cluster\<rparr>)"

definition WithProfile :: "string \<Rightarrow> JobBuilder \<Rightarrow> JobBuilder" where
  "WithProfile profile = on_job (\<lambda>j. j\<lparr>job_Profile := profile\<rparr>)"

definition WithTag :: "string \<Rightarrow> JobBuilder \<Rightarrow> JobBuilder" where
  "WithTag tag = on_job (\<lambda>j. j\<lparr>job_Tags := job_Tags j @ [tag]\<rparr>)"

definition WithTags :: "string list \<Rightarrow> JobBuilder \<Rightarrow> JobBuilder" where
  "WithTags tags = on_job (\<lambda>j. j\<lparr>job_Tags := tags\<rparr>)"

definition WithMount :: "string \<Rightarrow> string \<Rightarrow> bool \<Rightarrow> JobBuilder \<Rightarrow> JobBuilder" where
  "WithMount src dst readOnly = on_job (\<lambda>j. j\<lparr>job_Mounts := job_Mounts j @
     [\<lparr>mnt_Path = dst, mnt_Name = '''', mnt_ReadOnly = readOnly,
       mnt_Source = \<lparr>ms_Type = MountTypeHost, ms_Source = SrcHost \<lparr>hm_Path = src\<rparr>\<rparr>\<rparr>]\<rparr>)"

definition WithPort :: "int \<Rightarrow> string \<Rightarrow> JobBuilder \<Rightarrow> JobBuilder" where
  "WithPort target proto = on_job (\<lambda>j. j\<lparr>job_Ports := job_Ports j @
     [\<lparr>port_TargetPort = target, port_PublishedPort = None, port_Protocol = proto\<rparr>]\<rparr>)"

definition WithPublishedPort :: "int \<Rightarrow> int \<Rightarrow> string \<Rightarrow> JobBuilder \<Rightarrow> JobBuilder" where
  "WithPublishedPort published target proto = on_job (\<lambda>j. j\<lparr>job_Ports := job_Ports j @
     [\<lparr>port_TargetPort = target, port_PublishedPort = Some published, port_Protocol = proto\<rparr>]\<rparr>)"

definition WithLimit :: "string \<Rightarrow> string \<Rightarrow> JobBuilder \<Rightarrow> JobBuilder" where
  "WithLimit limitType value = on_job (\<lambda>j. j\<lparr>job_Limits := job_Limits j @
     [\<lparr>rl_Type = limitType, rl_Value = value, rl_Default = '''', rl_Max = ''''\<rparr>]\<rparr>)"

definition WithConstraint :: "string \<Rightarrow> string \<Rightarrow> JobBuilder \<Rightarrow> JobBuilder" where
  "WithConstraint name value = on_job (\<lambda>j. j\<lparr>job_Constraints := job_Constraints j @
     [\<lparr>pc_Name = name, pc_Value = value, pc_Default = ''''\<rparr>]\<rparr>)"

definition WithConfig :: "string \<Rightarrow> string \<Rightarrow> string \<Rightarrow> JobBuilder \<Rightarrow> JobBuilder" where
  "WithConfig name valueType value = on_job (\<lambda>j. j\<lparr>job_Config := job_Config j @
     [\<lparr>jc_Name = name, jc_Type = valueType, jc_Value = value\<rparr>]\<rparr>)"

text \<open>The metadata map is an association list with one entry per key.\<close>

definition map_put :: "'k \<Rightarrow> 'v \<Rightarrow> ('k \<times> 'v) list \<Rightarrow> ('k \<times> 'v) list" where
  "map_put k v kvs = filter (\<lambda>kv. fst kv \<noteq> k) kvs @ [(k, v)]"

definition WithMetadata :: "string \<Rightarrow> json \<Rightarrow> JobBuilder \<Rightarrow> JobBuilder" where
  "WithMetadata key value = on_job (\<lambda>j. j\<lparr>job_Metadata := map_put key value (job_Metadata j)\<rparr>)"

definition WithSubmissionTime :: "instant \<Rightarrow> JobBuilder \<Rightarrow> JobBuilder" where
  "WithSubmissionTime t = on_job (\<lambda>j. j\<lparr>job_Submitted := Some t\<rparr>)"

definition WithLastUpdated :: "instant \<Rightarrow> JobBuilder \<Rightarrow> JobBuilder" where
  "WithLastUpdated t = on_job (\<lambda>j. j\<lparr>job_LastUpdated := Some t\<rparr>)"


section \<open>Statuses\<close>

definition job_Pending :: "JobBuilder \<Rightarrow> JobBuilder" where
  "job_Pending = on_job (\<lambda>j. j\<lparr>job_Status := StatusPending\<rparr>)"

definition job_Running :: "JobBuilder \<Rightarrow> JobBuilder" where
  "job_Running = on_job (\<lambda>j. j\<lparr>job_Status := StatusRunning\<rparr>)"

definition job_Killed :: "JobBuilder \<Rightarrow> JobBuilder" where
  "job_Killed = on_job (\<lambda>j. j\<lparr>job_Status := StatusKilled\<rparr>)"

definition job_Canceled :: "JobBuilder \<Rightarrow> JobBuilder" where
  "job_Canceled = on_job (\<lambda>j. j\<lparr>job_Status := StatusCanceled\<rparr>)"

definition job_Suspended :: "JobBuilder \<Rightarrow> JobBuilder" where
  "job_Suspended = on_job (\<lambda>j. j\<lparr>job_Status := StatusSuspended\<rparr>)"

definition job_Finished :: "int \<Rightarrow> JobBuilder \<Rightarrow> JobBuilder" where
  "job_Finished exitCode = on_job (\<lambda>j. j\<lparr>job_Status := StatusFinished, job_ExitCode := Some exitCode\<rparr>)"

definition job_Failed :: "string \<Rightarrow> JobBuilder \<Rightarrow> JobBuilder" where
  "job_Failed msg = on_job (\<lambda>j. (if msg \<noteq> '''' then job_StatusMsg_update (\<lambda>_. msg) else (\<lambda>j. j))
     (j\<lparr>job_Status := StatusFailed\<rparr>))"


section \<open>Containers\<close>

definition zero_Container :: Container where
  "zero_Container = \<lparr>cont_Image = '''', cont_RunAsUser = None, cont_RunAsGroup = None,
     cont_SupplementalGroups = []\<rparr>"

definition WithContainer :: "nat \<Rightarrow> string \<Rightarrow> JobBuilder \<times> container_heap \<Rightarrow> JobBuilder \<times> container_heap" where
  "WithContainer addr img bh = (case bh of (b, H) \<Rightarrow>
     (b\<lparr>jb_container := Some addr\<rparr>, H(addr := zero_Container\<lparr>cont_Image := img\<rparr>)))"

text \<open>A write through the container pointer, which allocates when it is nil.\<close>

definition on_container ::
  "nat \<Rightarrow> (Container \<Rightarrow> Container) \<Rightarrow> JobBuilder \<times> container_heap \<Rightarrow> JobBuilder \<times> container_heap" where
  "on_container addr f bh = (case bh of (b, H) \<Rightarrow> (case jb_container b of
     None \<Rightarrow> (b\<lparr>jb_container := Some addr\<rparr>, H(addr := f zero_Container))
   | Some a \<Rightarrow> (b, H(a := f (H a)))))"

definition WithContainerUser :: "nat \<Rightarrow> int \<Rightarrow> JobBuilder \<times> container_heap \<Rightarrow> JobBuilder \<times> container_heap" where
  "WithContainerUser addr uid = on_container addr (\<lambda>c. c\<lparr>cont_RunAsUser := Some uid\<rparr>)"

definition WithContainerGroup :: "nat \<Rightarrow> int \<Rightarrow> JobBuilder \<times> container_heap \<Rightarrow> JobBuilder \<times> container_heap" where
  "WithContainerGroup addr gid = on_container addr (\<lambda>c. c\<lparr>cont_RunAsGroup := Some gid\<rparr>)"

text \<open>The job a builder has built, as the heap stands.\<close>

definition Build :: "JobBuilder \<Rightarrow> container_heap \<Rightarrow> Job" where
  "Build b H = (jb_job b)\<lparr>job_Container := map_option H (jb_container b)\<rparr>"

text \<open>\<^verbatim>\<open>Clone\<close> copies the job struct (and some of its slices and the metadata), not the container.\<close>

definition Clone :: "JobBuilder \<Rightarrow> JobBuilder" where
  "Clone b = \<lparr>jb_job = jb_job b, jb_container = jb_container b\<rparr>"


section \<open>Filters and cluster options\<close>

definition NewJobFilter :: JobFilter where
  "NewJobFilter = zero_JobFilter"

definition filter_WithTag :: "string \<Rightarrow> JobFilter \<Rightarrow> JobFilter" where
  "filter_WithTag tag f = f\<lparr>flt_Tags := flt_Tags f @ [tag]\<rparr>"

definition filter_WithTags :: "string list \<Rightarrow> JobFilter \<Rightarrow> JobFilter" where
  "filter_WithTags tags f = f\<lparr>flt_Tags := tags\<rparr>"

definition filter_WithStartTime :: "instant \<Rightarrow> JobFilter \<Rightarrow> JobFilter" where
  "filter_WithStartTime t f = f\<lparr>flt_StartTime := Some t\<rparr>"

definition filter_WithEndTime :: "instant \<Rightarrow> JobFilter \<Rightarrow> JobFilter" where
  "filter_WithEndTime t f = f\<lparr>flt_EndTime := Some t\<rparr>"

definition filter_WithStatus :: "string \<Rightarrow> JobFilter \<Rightarrow> JobFilter" where
  "filter_WithStatus status f = f\<lparr>flt_Statuses := flt_Statuses f @ [status]\<rparr>"

definition filter_WithStatuses :: "string list \<Rightarrow> JobFilter \<Rightarrow> JobFilter" where
  "filter_WithStatuses statuses f = f\<lparr>flt_Statuses := statuses\<rparr>"

definition filter_WithField :: "string \<Rightarrow> JobFilter \<Rightarrow> JobFilter" where
  "filter_WithField field f = f\<lparr>flt_Fields := flt_Fields f @ [field]\<rparr>"

definition filter_WithFields :: "string list \<Rightarrow> JobFilter \<Rightarrow> JobFilter" where
  "filter_WithFields flds f = f\<lparr>flt_Fields := flds\<rparr>"

text \<open>An append to a slice that may be nil.\<close>

definition slice_append :: "'a list option \<Rightarrow> 'a \<Rightarrow> 'a list option" where
  "slice_append xs x = Some (nil_slice xs @ [x])"

definition NewClusterOptions :: ClusterOptions where
  "NewClusterOptions = \<lparr>co_Constraints = Some [], co_Queues = Some [], co_DefaultQueue = '''',
     co_Limits = Some [], co_ImageOpt = \<lparr>io_Default = '''', io_Images = None, io_AllowUnknown = False,
       io_HostNetwork = False, io_InitContainers = False\<rparr>, co_Configs = Some [], co_Profiles = Some []\<rparr>"

definition cluster_WithQueue :: "string \<Rightarrow> ClusterOptions \<Rightarrow> ClusterOptions" where
  "cluster_WithQueue queue c = c\<lparr>co_Queues := slice_append (co_Queues c) queue\<rparr>"

definition cluster_WithQueues :: "string list \<Rightarrow> ClusterOptions \<Rightarrow> ClusterOptions" where
  "cluster_WithQueues queues c = c\<lparr>co_Queues := Some queues\<rparr>"

definition cluster_WithDefaultQueue :: "string \<Rightarrow> ClusterOptions \<Rightarrow> ClusterOptions" where
  "cluster_WithDefaultQueue queue c = c\<lparr>co_DefaultQueue := queue\<rparr>"

definition cluster_WithConstraint :: "string \<Rightarrow> string \<Rightarrow> ClusterOptions \<Rightarrow> ClusterOptions" where
  "cluster_WithConstraint name value c = c\<lparr>co_Constraints := slice_append (co_Constraints c)
     \<lparr>pc_Name = name, pc_Value = value, pc_Default = ''''\<rparr>\<rparr>"

definition cluster_WithLimit :: "string \<Rightarrow> string \<Rightarrow> ClusterOptions \<Rightarrow> ClusterOptions" where
  "cluster_WithLimit limitType value c = c\<lparr>co_Limits := slice_append (co_Limits c)
     \<lparr>rl_Type = limitType, rl_Value = value, rl_Default = '''', rl_Max = ''''\<rparr>\<rparr>"

definition on_image :: "(ImageOptions \<Rightarrow> ImageOptions) \<Rightarrow> ClusterOptions \<Rightarrow> ClusterOptions" where
  "on_image f c = c\<lparr>co_ImageOpt := f (co_ImageOpt c)\<rparr>"

definition cluster_WithImage :: "string \<Rightarrow> ClusterOptions \<Rightarrow> ClusterOptions" where
  "cluster_WithImage img = on_image (\<lambda>i. i\<lparr>io_Images := slice_append (io_Images i) img\<rparr>)"

definition cluster_WithDefaultImage :: "string \<Rightarrow> ClusterOptions \<Rightarrow> ClusterOptions" where
  "cluster_WithDefaultImage img = on_image (\<lambda>i. i\<lparr>io_Default := img\<rparr>)"

definition cluster_WithAllowUnknownImages :: "bool \<Rightarrow> ClusterOptions \<Rightarrow> ClusterOptions" where
  "cluster_WithAllowUnknownImages allow = on_image (\<lambda>i. i\<lparr>io_AllowUnknown := allow\<rparr>)"

definition cluster_WithHostNetwork :: "bool \<Rightarrow> ClusterOptions \<Rightarrow> ClusterOptions" where
  "cluster_WithHostNetwork hostNetwork = on_image (\<lambda>i. i\<lparr>io_HostNetwork := hostNetwork\<rparr>)"

definition cluster_WithProfile :: "string \<Rightarrow> string \<Rightarrow> ClusterOptions \<Rightarrow> ClusterOptions" where
  "cluster_WithProfile name displayName c = c\<lparr>co_Profiles := slice_append (co_Profiles c)
     \<lparr>rp_Name = name, rp_DisplayName = displayName, rp_Limits = [], rp_Queue = '''', rp_Constraints = []\<rparr>\<rparr>"

definition cluster_WithConfig :: "string \<Rightarrow> string \<Rightarrow> string \<Rightarrow> ClusterOptions \<Rightarrow> ClusterOptions" where
  "cluster_WithConfig name valueType value c = c\<lparr>co_Configs := slice_append (co_Configs c)
     \<lparr>jc_Name = name, jc_Type = valueType, jc_Value = value\<rparr>\<rparr>"



section \<open>What a clone shares\<close>

text \<open>
  A clone builds the same job, and setting the run-as user or group on the clone changes the
  job of the original exactly when there was a container to share and its value changes: the
  container is not copied. Everything set on the clone otherwise leaves the original alone.
\<close>

theorem Clone_shares_container:
  assumes "WithContainerUser addr uid (Clone b, H) = (c, H')" "jb_container b \<noteq> Some addr"
  shows "Build (Clone b) H = Build b H \<and> cont_RunAsUser (the (job_Container (Build c H'))) = Some uid \<and>
    (Build b H' \<noteq> Build b H \<longleftrightarrow>
       (\<exists>a. jb_container b = Some a \<and> cont_RunAsUser (H a) \<noteq> Some uid)) \<and>
    Build b H' = (case jb_container b of None \<Rightarrow> Build b H | Some a \<Rightarrow>
       (Build b H)\<lparr>job_Container := Some ((H a)\<lparr>cont_RunAsUser := Some uid\<rparr>)\<rparr>)"
proof (cases "jb_container b")
  case None
  with assms show ?thesis by (auto simp: WithContainerUser_def on_container_def Clone_def Build_def)
next
  case (Some a)
  have "(H a)\<lparr>cont_RunAsUser := Some uid\<rparr> = H a \<longleftrightarrow> cont_RunAsUser (H a) = Some uid"
    by (cases "H a") auto
  moreover have "j\<lparr>job_Container := Some x\<rparr> = j\<lparr>job_Container := Some y\<rparr> \<longleftrightarrow> x = y" for j :: Job and x y
    by (cases j) simp
  ultimately show ?thesis using Some assms
    by (auto simp: WithContainerUser_def on_container_def Clone_def Build_def)
qed

definition image_builder :: JobBuilder where
  "image_builder = (NewJob 0)\<lparr>jb_container := Some 1\<rparr>"

theorem Clone_shares_container_witness:
  "Build image_builder ((\<lambda>_. zero_Container)(1 := zero_Container\<lparr>cont_RunAsUser := Some 7\<rparr>)) \<noteq>
     Build image_builder (\<lambda>_. zero_Container)"
proof -
  let ?H = "\<lambda>_::nat. zero_Container"
  have "WithContainerUser 2 7 (Clone image_builder, ?H) =
      (Clone image_builder, ?H(1 := zero_Container\<lparr>cont_RunAsUser := Some 7\<rparr>))"
    "jb_container image_builder \<noteq> Some 2"
    by (simp_all add: WithContainerUser_def on_container_def image_builder_def Clone_def)
  note shared = Clone_shares_container [OF this, THEN conjunct2, THEN conjunct2, THEN conjunct1]
  have "\<exists>a. jb_container image_builder = Some a \<and> cont_RunAsUser (?H a) \<noteq> Some 7"
    by (simp add: image_builder_def zero_Container_def)
  then show ?thesis unfolding shared .
qed

end
