(* ===== verification/Workbench_Logger.thy ===== *)
theory Workbench_Logger
  imports Runtime_Options
begin

text \<open>
  The logging package: how the configuration is put together from the defaults, Workbench's
  \<^verbatim>\<open>logging.conf\<close> and the environment (\<^verbatim>\<open>src/logger/conf.go\<close>), and the handler that renders a log
  record as one line (\<^verbatim>\<open>src/logger/logger.go\<close>). The environment variables, the file system and the
  parser of ini files (a third-party package) are a parameter; so are the renderings Go's library
  gives of times, durations and floats.
\<close>

section \<open>Configuration\<close>

text \<open>A level of \<^verbatim>\<open>log/slog\<close> is an integer.\<close>

definition LevelDebug :: int where "LevelDebug = -4"
definition LevelInfo :: int where "LevelInfo = 0"
definition LevelWarn :: int where "LevelWarn = 4"
definition LevelError :: int where "LevelError = 8"

type_synonym Destination = string

definition DestinationFile :: Destination where "DestinationFile = ''file''"
definition DestinationStderr :: Destination where "DestinationStderr = ''stderr''"

record Config =
  lc_Level :: int
  lc_Type :: Destination
  lc_Dir :: string

definition defaultConfPath :: string where
  "defaultConfPath = ''/etc/rstudio/logging.conf''"

text \<open>
  The surroundings: environment variables; what \<^verbatim>\<open>os.Stat\<close> says of a path; the ini file at a path,
  parsed, as its sections with the values of the keys they have; the creation of a directory and
  of a file, with the text of the error when it fails.
\<close>

datatype stat_result = StatMissing | StatFails string | StatRegular | StatIrregular

record log_world =
  lw_Getenv :: "string \<Rightarrow> string"
  lw_Stat :: "string \<Rightarrow> stat_result"
  lw_ini :: "string \<Rightarrow> string + (string \<Rightarrow> string \<Rightarrow> string option)"
  lw_MkdirAll :: "string \<Rightarrow> string option"
  lw_Create :: "string \<Rightarrow> string option"

datatype conf_error = ConfStat string string | ConfNotRegular string | ConfParse string string

text \<open>What the parsers print on standard error when they do not recognise a value.\<close>

datatype log_warning = UnrecognizedLevel string | UnrecognizedType string

text \<open>
  \<^verbatim>\<open>strings.ToLower\<close>, as far as a comparison with an ASCII word tells: besides the ASCII letters,
  the capital I with a dot (\<^verbatim>\<open>U+0130\<close>) and the Kelvin sign (\<^verbatim>\<open>U+212A\<close>) have an ASCII lower case.
\<close>

fun lower_word :: "string \<Rightarrow> string" where
  "lower_word [] = []"
| "lower_word (a # s) =
     (if a = CHR 0xC4 \<and> take 1 s = [CHR 0xB0] then CHR ''i'' # lower_word (drop 1 s)
      else if a = CHR 0xE2 \<and> take 2 s = [CHR 0x84, CHR 0xAA] then CHR ''k'' # lower_word (drop 2 s)
      else lower_char a # lower_word s)"

text \<open>
  \<^verbatim>\<open>strings.EqualFold\<close> against an ASCII word: besides the two cases of a letter, the long s
  (\<^verbatim>\<open>U+017F\<close>) folds to s and the Kelvin sign to k.
\<close>

fun EqualFold :: "string \<Rightarrow> string \<Rightarrow> bool" where
  "EqualFold s [] \<longleftrightarrow> s = []"
| "EqualFold s (t # ts) \<longleftrightarrow>
     (case s of [] \<Rightarrow> False | a # s' \<Rightarrow>
        if lower_char a = lower_char t then EqualFold s' ts
        else if lower_char t = CHR ''s'' \<and> take 2 s = [CHR 0xC5, CHR 0xBF] then EqualFold (drop 2 s) ts
        else lower_char t = CHR ''k'' \<and> take 3 s = [CHR 0xE2, CHR 0x84, CHR 0xAA] \<and> EqualFold (drop 3 s) ts)"

definition parseLevel :: "string \<Rightarrow> int \<times> log_warning list" where
  "parseLevel s = (let l = lower_word s in
     if l = ''debug'' then (LevelDebug, [])
     else if l = ''info'' then (LevelInfo, [])
     else if l = ''warn'' \<or> l = ''warning'' then (LevelWarn, [])
     else if l = ''error'' then (LevelError, [])
     else (LevelWarn, [UnrecognizedLevel s]))"

definition parseLoggerType :: "string \<Rightarrow> Destination \<times> log_warning list" where
  "parseLoggerType s =
     (if EqualFold s ''stderr'' then (DestinationStderr, [])
      else (DestinationFile, if \<not> EqualFold s ''file'' then [UnrecognizedType s] else []))"

text \<open>Setting one field of the configuration, with the warnings so far.\<close>

type_synonym conf_state = "Config \<times> log_warning list"

definition set_level :: "string \<Rightarrow> conf_state \<Rightarrow> conf_state" where
  "set_level v st = (case parseLevel v of (l, ws) \<Rightarrow> ((fst st)\<lparr>lc_Level := l\<rparr>, snd st @ ws))"

definition set_type :: "string \<Rightarrow> conf_state \<Rightarrow> conf_state" where
  "set_type v st = (case parseLoggerType v of (d, ws) \<Rightarrow> ((fst st)\<lparr>lc_Type := d\<rparr>, snd st @ ws))"

definition set_dir :: "string \<Rightarrow> conf_state \<Rightarrow> conf_state" where
  "set_dir v st = ((fst st)\<lparr>lc_Dir := v\<rparr>, snd st)"

text \<open>A key of a section is applied when it is present and not empty, an environment variable when it is not empty.\<close>

definition apply_key :: "(string \<Rightarrow> string option) \<Rightarrow> string \<Rightarrow> (string \<Rightarrow> conf_state \<Rightarrow> conf_state) \<Rightarrow> conf_state \<Rightarrow> conf_state" where
  "apply_key sec key setter st = (case sec key of
     None \<Rightarrow> st | Some v \<Rightarrow> if v \<noteq> '''' then setter v st else st)"

definition applySection :: "(string \<Rightarrow> string option) \<Rightarrow> conf_state \<Rightarrow> conf_state" where
  "applySection sec st =
     apply_key sec ''log-dir'' set_dir
       (apply_key sec ''logger-type'' set_type
         (apply_key sec ''log-level'' set_level st))"

definition apply_var :: "log_world \<Rightarrow> string \<Rightarrow> (string \<Rightarrow> conf_state \<Rightarrow> conf_state) \<Rightarrow> conf_state \<Rightarrow> conf_state" where
  "apply_var w var setter st = (let v = lw_Getenv w var in if v \<noteq> '''' then setter v st else st)"

definition applyEnvOverrides :: "log_world \<Rightarrow> conf_state \<Rightarrow> conf_state" where
  "applyEnvOverrides w st =
     apply_var w ''RS_LOG_DIR'' set_dir
       (apply_var w ''RS_LOGGER_TYPE'' set_type
         (apply_var w ''RS_LOG_LEVEL'' set_level st))"

definition conf_path :: "log_world \<Rightarrow> string" where
  "conf_path w = (let p = lw_Getenv w ''RS_LOG_CONF_FILE'' in if p = '''' then defaultConfPath else p)"

text \<open>\<^verbatim>\<open>LoadConfig\<close>: the configuration and the warnings printed on the way, and the error.\<close>

definition LoadConfig :: "log_world \<Rightarrow> string \<Rightarrow> Config \<Rightarrow> conf_state \<times> conf_error option" where
  "LoadConfig w executableName defaults =
     (let cfg = (defaults, []); confPath = conf_path w in
      case lw_Stat w confPath of
        StatMissing \<Rightarrow> (applyEnvOverrides w cfg, None)
      | StatFails err \<Rightarrow> (cfg, Some (ConfStat confPath err))
      | StatIrregular \<Rightarrow> (cfg, Some (ConfNotRegular confPath))
      | StatRegular \<Rightarrow> (case lw_ini w confPath of
            Inl err \<Rightarrow> (cfg, Some (ConfParse confPath err))
          | Inr iniCfg \<Rightarrow>
              (applyEnvOverrides w
                (applySection (iniCfg (CHR ''@'' # executableName)) (applySection (iniCfg ''*'') cfg)), None)))"


section \<open>The layers of the configuration\<close>

text \<open>
  The specification: a setting is the first non-empty one of the environment variable, the key in
  the section of the executable, the key in the global section, and otherwise the default.
\<close>

definition file_value :: "log_world \<Rightarrow> string \<Rightarrow> string \<Rightarrow> string" where
  "file_value w sec key = (if lw_Stat w (conf_path w) = StatRegular then
     (case lw_ini w (conf_path w) of Inl _ \<Rightarrow> '''' | Inr ini \<Rightarrow> (case ini sec key of None \<Rightarrow> '''' | Some v \<Rightarrow> v)) else '''')"

definition layers :: "log_world \<Rightarrow> string \<Rightarrow> string \<Rightarrow> string \<Rightarrow> string list" where
  "layers w exe var key = filter (\<lambda>v. v \<noteq> '''')
     [lw_Getenv w var, file_value w (CHR ''@'' # exe) key, file_value w ''*'' key]"

definition resolved :: "string list \<Rightarrow> (string \<Rightarrow> 'a) \<Rightarrow> 'a \<Rightarrow> 'a" where
  "resolved vs parse dflt = (case vs of [] \<Rightarrow> dflt | v # _ \<Rightarrow> parse v)"

definition config_readable :: "log_world \<Rightarrow> bool" where
  "config_readable w \<longleftrightarrow> lw_Stat w (conf_path w) = StatMissing \<or>
     (lw_Stat w (conf_path w) = StatRegular \<and> \<not> isl (lw_ini w (conf_path w)))"

lemma set_fields_conf [simp]:
  "lc_Level (fst (set_level v st)) = fst (parseLevel v)" "lc_Type (fst (set_level v st)) = lc_Type (fst st)"
  "lc_Dir (fst (set_level v st)) = lc_Dir (fst st)"
  "lc_Level (fst (set_type v st)) = lc_Level (fst st)" "lc_Type (fst (set_type v st)) = fst (parseLoggerType v)"
  "lc_Dir (fst (set_type v st)) = lc_Dir (fst st)"
  "lc_Level (fst (set_dir v st)) = lc_Level (fst st)" "lc_Type (fst (set_dir v st)) = lc_Type (fst st)"
  "lc_Dir (fst (set_dir v st)) = v"
  by (simp_all add: set_level_def set_type_def set_dir_def split: prod.split)

text \<open>Each step changes the field its setter sets, and only that one.\<close>

lemma apply_key_field:
  "g (fst (apply_key sec key setter st)) =
    (case sec key of None \<Rightarrow> g (fst st) | Some v \<Rightarrow> if v \<noteq> '''' then g (fst (setter v st)) else g (fst st))"
  by (simp add: apply_key_def split: option.split)

lemma apply_var_field:
  "g (fst (apply_var w var setter st)) =
    (if lw_Getenv w var \<noteq> '''' then g (fst (setter (lw_Getenv w var) st)) else g (fst st))"
  by (simp add: apply_var_def Let_def)

lemma applySection_fields:
  "lc_Level (fst (applySection sec st)) = (case sec ''log-level'' of
     Some v \<Rightarrow> if v \<noteq> '''' then fst (parseLevel v) else lc_Level (fst st) | None \<Rightarrow> lc_Level (fst st))"
  "lc_Type (fst (applySection sec st)) = (case sec ''logger-type'' of
     Some v \<Rightarrow> if v \<noteq> '''' then fst (parseLoggerType v) else lc_Type (fst st) | None \<Rightarrow> lc_Type (fst st))"
  "lc_Dir (fst (applySection sec st)) = (case sec ''log-dir'' of
     Some v \<Rightarrow> if v \<noteq> '''' then v else lc_Dir (fst st) | None \<Rightarrow> lc_Dir (fst st))"
  unfolding applySection_def by (auto simp: apply_key_field split: option.split)

lemma applyEnvOverrides_fields:
  "lc_Level (fst (applyEnvOverrides w st)) = (if lw_Getenv w ''RS_LOG_LEVEL'' \<noteq> ''''
     then fst (parseLevel (lw_Getenv w ''RS_LOG_LEVEL'')) else lc_Level (fst st))"
  "lc_Type (fst (applyEnvOverrides w st)) = (if lw_Getenv w ''RS_LOGGER_TYPE'' \<noteq> ''''
     then fst (parseLoggerType (lw_Getenv w ''RS_LOGGER_TYPE'')) else lc_Type (fst st))"
  "lc_Dir (fst (applyEnvOverrides w st)) = (if lw_Getenv w ''RS_LOG_DIR'' \<noteq> ''''
     then lw_Getenv w ''RS_LOG_DIR'' else lc_Dir (fst st))"
  unfolding applyEnvOverrides_def by (simp_all add: apply_var_field)

text \<open>
  C20: The logging configuration is layered as documented. \<^verbatim>\<open>LoadConfig\<close> fails exactly when the
  configuration file is there and cannot be examined, is not a regular file, or does not parse,
  and then returns the defaults and prints nothing. Otherwise the level, the destination and the
  directory each come from the first non-empty one of the environment variable, the section of the
  executable and the global section, parsed, and from the defaults when all are empty.
\<close>

theorem LoadConfig_layers:
  "case LoadConfig w exe d of
     ((cfg, ws), Some err) \<Rightarrow> \<not> config_readable w \<and> cfg = d \<and> ws = []
   | ((cfg, ws), None) \<Rightarrow> config_readable w \<and>
       lc_Level cfg = resolved (layers w exe ''RS_LOG_LEVEL'' ''log-level'') (\<lambda>v. fst (parseLevel v)) (lc_Level d) \<and>
       lc_Type cfg = resolved (layers w exe ''RS_LOGGER_TYPE'' ''logger-type'') (\<lambda>v. fst (parseLoggerType v)) (lc_Type d) \<and>
       lc_Dir cfg = resolved (layers w exe ''RS_LOG_DIR'' ''log-dir'') (\<lambda>v. v) (lc_Dir d)"
proof -
  note fields = applyEnvOverrides_fields applySection_fields
  show ?thesis
  proof (cases "lw_Stat w (conf_path w)")
    case StatMissing
    then have off: "file_value w sec key = ''''" for sec key by (simp add: file_value_def)
    from StatMissing show ?thesis using fields(1-3) [of w "(d, [])"]
      by (cases "applyEnvOverrides w (d, [])")
        (simp add: off layers_def resolved_def config_readable_def LoadConfig_def Let_def)
  next
    case StatRegular
    show ?thesis
    proof (cases "lw_ini w (conf_path w)")
      case (Inr ini)
      define v where "v sec key = file_value w sec key" for sec key
      have ini: "(case ini sec key of Some x \<Rightarrow> if x \<noteq> '''' then f x else e | None \<Rightarrow> e) =
          (if v sec key \<noteq> '''' then f (v sec key) else e)" for sec key and f :: "string \<Rightarrow> 'x" and e
        by (simp add: v_def file_value_def StatRegular Inr split: option.split)
      let ?st = "applyEnvOverrides w (applySection (ini (CHR ''@'' # exe)) (applySection (ini ''*'') (d, [])))"
      have st: "LoadConfig w exe d = (?st, None)"
        by (simp add: LoadConfig_def Let_def StatRegular Inr)
      have "lc_Level (fst ?st) = resolved (layers w exe ''RS_LOG_LEVEL'' ''log-level'') (\<lambda>v. fst (parseLevel v)) (lc_Level d)"
        "lc_Type (fst ?st) = resolved (layers w exe ''RS_LOGGER_TYPE'' ''logger-type'') (\<lambda>v. fst (parseLoggerType v)) (lc_Type d)"
        "lc_Dir (fst ?st) = resolved (layers w exe ''RS_LOG_DIR'' ''log-dir'') (\<lambda>v. v) (lc_Dir d)"
        by (simp_all add: fields ini resolved_def layers_def v_def [symmetric])
      moreover have "config_readable w" by (simp add: config_readable_def StatRegular Inr)
      ultimately show ?thesis unfolding st by (simp add: case_prod_beta)
    qed (use StatRegular in \<open>simp add: config_readable_def LoadConfig_def Let_def\<close>)
  qed (simp_all add: config_readable_def LoadConfig_def Let_def)
qed

text \<open>The destinations and levels the parsers can give.\<close>

definition known_level :: "int \<Rightarrow> bool" where
  "known_level l \<longleftrightarrow> l \<in> {LevelDebug, LevelInfo, LevelWarn, LevelError}"

definition known_destination :: "Destination \<Rightarrow> bool" where
  "known_destination d \<longleftrightarrow> d \<in> {DestinationFile, DestinationStderr}"

definition config_ok :: "Config \<Rightarrow> bool" where
  "config_ok cfg \<longleftrightarrow> known_level (lc_Level cfg) \<and> known_destination (lc_Type cfg)"

lemma parsers_known: "known_level (fst (parseLevel v))" "known_destination (fst (parseLoggerType v))"
  by (simp_all add: parseLevel_def parseLoggerType_def known_level_def known_destination_def Let_def)

lemma applySection_ok: "config_ok (fst st) \<Longrightarrow> config_ok (fst (applySection sec st))"
  by (auto simp: config_ok_def applySection_fields parsers_known split: option.split)

lemma applyEnvOverrides_ok: "config_ok (fst st) \<Longrightarrow> config_ok (fst (applyEnvOverrides w st))"
  by (simp add: config_ok_def applyEnvOverrides_fields parsers_known)

text \<open>
  C38: A configuration keeps its type: from defaults with one of the four levels and one of the two
  destinations, \<^verbatim>\<open>LoadConfig\<close> gives one of the four levels and one of the two destinations, whatever
  the configuration file and the environment variables contain.
\<close>

theorem LoadConfig_typed:
  assumes "config_ok d"
  shows "config_ok (fst (fst (LoadConfig w exe d)))"
  using assms unfolding LoadConfig_def
  by (auto simp: Let_def applySection_ok applyEnvOverrides_ok split: stat_result.split sum.split)

definition example_world :: log_world where
  "example_world = \<lparr>lw_Getenv = (\<lambda>v. if v = ''RS_LOG_LEVEL'' then ''loud'' else ''''), lw_Stat = (\<lambda>p. StatMissing),
     lw_ini = (\<lambda>p. Inl ''''), lw_MkdirAll = (\<lambda>p. None), lw_Create = (\<lambda>p. None)\<rparr>"

theorem LoadConfig_typed_witness:
  "config_ok (fst (fst (LoadConfig example_world ''plugin''
     \<lparr>lc_Level = LevelInfo, lc_Type = DestinationStderr, lc_Dir = ''''\<rparr>)))"
  by (rule LoadConfig_typed) (simp add: config_ok_def known_level_def known_destination_def)

section \<open>Attributes and values\<close>

text \<open>
  A \<^verbatim>\<open>slog.Value\<close> by its kind. A value of any other type carries the text its formatting gives and,
  when it is an error, the text of the error; a \<^verbatim>\<open>LogValuer\<close> carries the name of its type and the
  value its method returns; a group carries its attributes.
\<close>

datatype any_value = AnyNil | AnyError string string | AnyOther string

datatype sval =
    VBool bool
  | VString string
  | VInt64 int
  | VUint64 u64
  | VFloat64 float64
  | VDuration Duration
  | VTime instant
  | VAny any_value
  | VLogValuer string sval
  | VGroup "sattr list"
and sattr = SAttr (sa_Key: string) (sa_Value: sval)

text \<open>The renderings of Go's library that are not written out.\<close>

record render =
  rd_float :: "float64 \<Rightarrow> string"
  rd_duration :: "Duration \<Rightarrow> string"
  rd_time :: "instant \<Rightarrow> string"
  rd_stamp :: "instant \<Rightarrow> string"
  rd_other :: "sval \<Rightarrow> string"

fun is_LogValuer :: "sval \<Rightarrow> bool" where
  "is_LogValuer (VLogValuer _ _) = True"
| "is_LogValuer _ = False"

text \<open>\<^verbatim>\<open>Value.Resolve\<close> of the library: the method is called at most a hundred times.\<close>

fun resolve_loop :: "nat \<Rightarrow> string \<Rightarrow> sval \<Rightarrow> sval" where
  "resolve_loop 0 tname v = VAny (AnyError (''LogValue called too many times on Value of type '' @ tname)
     (''LogValue called too many times on Value of type '' @ tname))"
| "resolve_loop (Suc n) tname v = (case v of VLogValuer _ v' \<Rightarrow> resolve_loop n tname v' | _ \<Rightarrow> v)"

definition Resolve :: "sval \<Rightarrow> sval" where
  "Resolve v = (case v of VLogValuer tname _ \<Rightarrow> resolve_loop 100 tname v | _ \<Rightarrow> v)"

definition any_String :: "any_value \<Rightarrow> string" where
  "any_String a = (case a of AnyNil \<Rightarrow> ''<nil>'' | AnyError _ s \<Rightarrow> s | AnyOther s \<Rightarrow> s)"

text \<open>\<^verbatim>\<open>formatValue\<close>; its last case, groups and unresolved values, is never reached.\<close>

definition formatValue :: "render \<Rightarrow> sval \<Rightarrow> string" where
  "formatValue rd v = (case v of
     VBool b \<Rightarrow> if b then ''true'' else ''false''
   | VString s \<Rightarrow> s
   | VFloat64 f \<Rightarrow> rd_float rd f
   | VInt64 i \<Rightarrow> int_dec i
   | VUint64 u \<Rightarrow> nat_dec (unat u)
   | VDuration d \<Rightarrow> rd_duration rd d
   | VTime t \<Rightarrow> rd_time rd t
   | VAny a \<Rightarrow> (case a of AnyError err _ \<Rightarrow> err | _ \<Rightarrow> any_String a)
   | _ \<Rightarrow> rd_other rd v)"

lemma resolve_loop_group:
  "resolve_loop n tname v = VGroup cs \<Longrightarrow> size_list size cs < size v"
  by (induction n tname v rule: resolve_loop.induct) (auto split: sval.splits)

lemma Resolve_group: "Resolve v = VGroup cs \<Longrightarrow> size_list size cs < size v"
  by (auto simp: Resolve_def dest: resolve_loop_group split: sval.splits)

lemma Resolve_child:
  assumes "Resolve (sa_Value a) = VGroup cs" "c \<in> set cs"
  shows "size c < size a"
proof -
  have "size c \<le> size_list size cs" using assms(2) by (rule size_list_estimation' [OF _ order_refl])
  also have "\<dots> < size (sa_Value a)" using assms(1) by (rule Resolve_group)
  also have "\<dots> < size a" by (cases a) simp
  finally show ?thesis .
qed

text \<open>
  \<^verbatim>\<open>appendAttr\<close>. The zero attribute (no key, a nil value) is also caught by the test for an empty key
  that follows it.
\<close>

function appendAttr :: "render \<Rightarrow> string list \<Rightarrow> string \<Rightarrow> sattr \<Rightarrow> string list" where
  "appendAttr rd props pre attr =
     (let value = Resolve (sa_Value attr) in
      case value of
        VGroup children \<Rightarrow>
          if children = [] then props
          else (let childPrefix = (if sa_Key attr \<noteq> '''' then pre @ sa_Key attr @ ''.'' else pre) in
            fold (\<lambda>c props. appendAttr rd props childPrefix c) children props)
      | _ \<Rightarrow>
          if attr = SAttr '''' (VAny AnyNil) then props
          else if sa_Key attr = '''' then props
          else props @ [pre @ sa_Key attr @ '': '' @ formatValue rd value])"
  by pat_completeness auto
termination
  by (relation "measure (\<lambda>(rd, props, pre, a). size a)") (auto intro: Resolve_child [OF sym])

declare appendAttr.simps [simp del]


section \<open>The handler\<close>

text \<open>Where a line goes, and the text of the error a write returns, if any.\<close>

datatype sink = SinkStderr | SinkFile string

record workbenchHandler =
  wh_sink :: "sink list"
  wh_level :: int
  wh_programID :: string
  wh_attrs :: "sattr list"
  wh_groups :: "string list"

record log_record =
  lr_Time :: instant
  lr_Level :: int
  lr_Message :: string
  lr_Attrs :: "sattr list"

definition newWorkbenchLogger :: "string \<Rightarrow> sink list \<Rightarrow> int \<Rightarrow> workbenchHandler" where
  "newWorkbenchLogger programID snk level = \<lparr>wh_sink = snk, wh_level = level, wh_programID = programID,
     wh_attrs = [], wh_groups = []\<rparr>"

definition wh_Enabled :: "int \<Rightarrow> workbenchHandler \<Rightarrow> bool" where
  "wh_Enabled level h \<longleftrightarrow> level \<ge> wh_level h"

definition wh_Level :: "workbenchHandler \<Rightarrow> int" where
  "wh_Level h = wh_level h"

definition wh_WithAttrs :: "sattr list \<Rightarrow> workbenchHandler \<Rightarrow> workbenchHandler" where
  "wh_WithAttrs attrs h = \<lparr>wh_sink = wh_sink h, wh_level = wh_level h, wh_programID = wh_programID h,
     wh_attrs = wh_attrs h @ attrs, wh_groups = wh_groups h\<rparr>"

definition wh_WithGroup :: "string \<Rightarrow> workbenchHandler \<Rightarrow> workbenchHandler" where
  "wh_WithGroup name h = \<lparr>wh_sink = wh_sink h, wh_level = wh_level h, wh_programID = wh_programID h,
     wh_attrs = wh_attrs h, wh_groups = wh_groups h @ [name]\<rparr>"

text \<open>\<^verbatim>\<open>slog.Level.String\<close>: the name of the level below, with the distance to it.\<close>

definition level_name :: "string \<Rightarrow> int \<Rightarrow> string" where
  "level_name base val = (if val = 0 then base
     else base @ (if val > 0 then CHR ''+'' # int_dec val else int_dec val))"

definition Level_String :: "int \<Rightarrow> string" where
  "Level_String l =
     (if l < LevelInfo then level_name ''DEBUG'' (l - LevelDebug)
      else if l < LevelWarn then level_name ''INFO'' (l - LevelInfo)
      else if l < LevelError then level_name ''WARN'' (l - LevelWarn)
      else level_name ''ERROR'' (l - LevelError))"

definition levelString :: "int \<Rightarrow> string" where
  "levelString l = (if l = LevelWarn then ''WARNING'' else Level_String l)"

fun join_sep :: "string \<Rightarrow> string list \<Rightarrow> string" where
  "join_sep sep [] = []"
| "join_sep sep [s] = s"
| "join_sep sep (s # t # ts) = s @ sep @ join_sep sep (t # ts)"

definition handle_props :: "render \<Rightarrow> workbenchHandler \<Rightarrow> log_record \<Rightarrow> string list" where
  "handle_props rd h r =
     (let pre = join_sep ''.'' (wh_groups h @ ['''']);
          props = fold (\<lambda>attr props. appendAttr rd props pre attr) (wh_attrs h) [] in
      fold (\<lambda>attr props. appendAttr rd props pre attr) (lr_Attrs r) props)"

definition handle_line :: "render \<Rightarrow> workbenchHandler \<Rightarrow> log_record \<Rightarrow> string" where
  "handle_line rd h r =
     (let props = handle_props rd h r;
          propStr = (if length props \<noteq> 0 then '' ['' @ join_sep '', '' props @ '']'' else '''') in
      rd_stamp rd (lr_Time r) @ '' ['' @ wh_programID h @ ''] '' @ levelString (lr_Level r) @ '' '' @
        lr_Message r @ propStr @ [CHR 0x0A])"

text \<open>The writes to the sinks in turn, up to the first that fails (\<^verbatim>\<open>io.MultiWriter\<close>).\<close>

fun write_all :: "(sink \<Rightarrow> string \<Rightarrow> string option) \<Rightarrow> string \<Rightarrow> sink list \<Rightarrow> (sink \<times> string) list \<times> string option" where
  "write_all fails line [] = ([], None)"
| "write_all fails line (s # ss) = (case fails s line of
     Some err \<Rightarrow> ([(s, line)], Some err)
   | None \<Rightarrow> (case write_all fails line ss of (ws, err) \<Rightarrow> ((s, line) # ws, err)))"

definition wh_Handle ::
  "render \<Rightarrow> (sink \<Rightarrow> string \<Rightarrow> string option) \<Rightarrow> log_record \<Rightarrow> workbenchHandler \<Rightarrow> (sink \<times> string) list \<times> string option" where
  "wh_Handle rd fails r h = write_all fails (handle_line rd h r) (wh_sink h)"

text \<open>A call of the logger: the handler is asked first; its error is dropped by the library.\<close>

definition log_call ::
  "render \<Rightarrow> (sink \<Rightarrow> string \<Rightarrow> string option) \<Rightarrow> log_record \<Rightarrow> workbenchHandler \<Rightarrow> (sink \<times> string) list" where
  "log_call rd fails r h = (if wh_Enabled (lr_Level r) h then fst (wh_Handle rd fails r h) else [])"

definition NewLogger :: "log_world \<Rightarrow> string \<Rightarrow> Config \<Rightarrow> string + workbenchHandler" where
  "NewLogger w name cfg =
     (if lc_Type cfg = DestinationStderr \<or> lc_Dir cfg = '''' then
        Inr (newWorkbenchLogger name [SinkStderr] (lc_Level cfg))
      else (case lw_MkdirAll w (lc_Dir cfg) of
          Some err \<Rightarrow> Inl err
        | None \<Rightarrow> (let file = path_Join [lc_Dir cfg, name @ ''.log''] in
            case lw_Create w file of
              Some err \<Rightarrow> Inl err
            | None \<Rightarrow> Inr (newWorkbenchLogger name [SinkStderr, SinkFile file] (lc_Level cfg)))))"

text \<open>\<^verbatim>\<open>MustNewLogger\<close>: the logger, or the process ends with code 1 after these writes.\<close>

datatype must_logger = MustOk workbenchHandler | MustExit "(sink \<times> string) list"

definition MustNewLogger ::
  "render \<Rightarrow> (sink \<Rightarrow> string \<Rightarrow> string option) \<Rightarrow> instant \<Rightarrow> log_world \<Rightarrow> string \<Rightarrow> Config \<Rightarrow> must_logger" where
  "MustNewLogger rd fails now w name cfg = (case NewLogger w name cfg of
     Inr lgr \<Rightarrow> MustOk lgr
   | Inl err \<Rightarrow> (case NewLogger w name \<lparr>lc_Level = LevelDebug, lc_Type = DestinationStderr, lc_Dir = ''''\<rparr> of
         Inl fallbackErr \<Rightarrow> MustExit [(SinkStderr, ''FATAL: failed to initialize logger: '' @ err @
           '' (fallback also failed: '' @ fallbackErr @ '')'' @ [CHR 0x0A])]
       | Inr fallback \<Rightarrow> MustExit (log_call rd fails \<lparr>lr_Time = now, lr_Level = LevelError,
           lr_Message = ''Failed to initialize logger'',
           lr_Attrs = [SAttr ''error'' (VAny (AnyError err err))]\<rparr> fallback)))"

section \<open>The line of a record\<close>

text \<open>
  The specification: the leaves of an attribute, each with the names on the way to it; a group
  without a name adds none, and a leaf without a name is dropped. A property is the path with dots,
  a colon and the rendered value.
\<close>

function leaves :: "string list \<Rightarrow> sattr \<Rightarrow> (string list \<times> sval) list" where
  "leaves path attr = (case Resolve (sa_Value attr) of
     VGroup children \<Rightarrow>
       concat (map (leaves (if sa_Key attr = '''' then path else path @ [sa_Key attr])) children)
   | v \<Rightarrow> if sa_Key attr = '''' then [] else [(path @ [sa_Key attr], v)])"
  by pat_completeness auto
termination
  by (relation "measure (\<lambda>(path, a). size a)") (auto intro: Resolve_child [OF sym])

declare leaves.simps [simp del]

definition prop_text :: "render \<Rightarrow> string list \<times> sval \<Rightarrow> string" where
  "prop_text rd leaf = join_sep ''.'' (fst leaf) @ '': '' @ formatValue rd (snd leaf)"

definition scalar :: "sval \<Rightarrow> bool" where
  "scalar v \<longleftrightarrow> (case v of VGroup _ \<Rightarrow> False | VLogValuer _ _ \<Rightarrow> False | _ \<Rightarrow> True)"

abbreviation dotted :: "string list \<Rightarrow> string" where
  "dotted path \<equiv> join_sep ''.'' (path @ [''''])"

lemma join_sep_snoc: "join_sep sep (path @ [x]) = join_sep sep (path @ ['''']) @ x"
proof (induction path)
  case (Cons p path)
  then show ?case by (cases path) auto
qed simp

lemma dotted_snoc: "dotted (path @ [k]) = dotted path @ k @ ''.''"
proof (induction path)
  case (Cons p path)
  then show ?case by (cases path) auto
qed simp

text \<open>The prefix the code passes down is empty or ends in a dot.\<close>

lemma dotted_ends: "dotted path = '''' \<or> last (dotted path) = CHR ''.''"
  by (cases path rule: rev_cases) (simp_all add: dotted_snoc del: append_assoc)

lemma fold_append:
  assumes "\<And>c props. c \<in> set cs \<Longrightarrow> f c props = props @ g c"
  shows "fold f cs props = props @ concat (map g cs)"
  using assms by (induction cs arbitrary: props) auto

text \<open>A leaf, for the code and for the specification.\<close>

lemma leaf_cases:
  assumes "Resolve (sa_Value attr) = v" "\<nexists>cs. v = VGroup cs"
  shows "appendAttr rd props pre attr =
      (if sa_Key attr = '''' then props else props @ [pre @ sa_Key attr @ '': '' @ formatValue rd v])"
    and "leaves path attr = (if sa_Key attr = '''' then [] else [(path @ [sa_Key attr], v)])"
  using assms by (cases v; auto simp: appendAttr.simps [of rd props] leaves.simps [of path] Let_def)+

lemma appendAttr_leaves:
  "appendAttr rd props (dotted path) attr = props @ map (prop_text rd) (leaves path attr)"
proof (induction path attr arbitrary: props rule: leaves.induct)
  case (1 path attr)
  show ?case
  proof (cases "Resolve (sa_Value attr)")
    case (VGroup cs)
    let ?path = "if sa_Key attr = '''' then path else path @ [sa_Key attr]"
    have pre: "(if sa_Key attr \<noteq> '''' then dotted path @ sa_Key attr @ ''.'' else dotted path) = dotted ?path"
      by (simp only: dotted_snoc split: if_split) simp
    have "appendAttr rd props (dotted path) attr =
        fold (\<lambda>c props. appendAttr rd props (dotted ?path) c) cs props"
      unfolding appendAttr.simps [of rd props] by (simp only: VGroup Let_def sval.case pre) simp
    also have "\<dots> = props @ concat (map (\<lambda>c. map (prop_text rd) (leaves ?path c)) cs)"
      by (rule fold_append) (rule 1 [OF VGroup])
    finally show ?thesis
      by (simp only: leaves.simps [of path] VGroup sval.case map_concat map_map comp_def)
  qed (simp_all add: leaf_cases prop_text_def, simp_all add: join_sep_snoc [of _ path "sa_Key attr"])
qed

lemma resolve_loop_done: "\<not> is_LogValuer (resolve_loop n tname v)"
  by (induction n tname v rule: resolve_loop.induct) (auto split: sval.split)

lemma Resolve_done: "\<not> is_LogValuer (Resolve v)"
  by (auto simp: Resolve_def resolve_loop_done split: sval.split)

lemma leaves_scalar: "list_all (\<lambda>(p, v). scalar v \<and> p \<noteq> [] \<and> last p \<noteq> '''') (leaves path attr)"
proof (induction path attr rule: leaves.induct)
  case (1 path attr)
  show ?case
  proof (cases "Resolve (sa_Value attr)")
    case (VGroup cs)
    with 1 [OF VGroup] show ?thesis by (simp add: leaves.simps [of path] list_all_iff)
  next
    case (VLogValuer t v)
    with Resolve_done [of "sa_Value attr"] show ?thesis by simp
  qed (simp_all add: leaves.simps scalar_def)
qed

lemma handle_props_flat:
  "handle_props rd h r = map (prop_text rd) (concat (map (leaves (wh_groups h)) (wh_attrs h @ lr_Attrs r)))"
proof -
  have "fold (\<lambda>attr props. appendAttr rd props (dotted path) attr) as props =
      props @ concat (map (\<lambda>a. map (prop_text rd) (leaves path a)) as)" for path as props
    by (rule fold_append) (rule appendAttr_leaves)
  then show ?thesis by (simp add: handle_props_def Let_def map_concat comp_def)
qed

text \<open>
  C21: What the handler writes of a record's attributes: one property for each leaf of the handler's
  attributes and then of the record's, in order, named by the open groups and the named groups
  around the leaf joined with dots, and nothing for empty groups or attributes without a name. Every
  value rendered this way is resolved and is not a group, so the branch of \<^verbatim>\<open>formatValue\<close> marked
  unreachable is.
\<close>

theorem handle_props_leaves:
  "handle_props rd h r =
     map (prop_text rd) (concat (map (leaves (wh_groups h)) (wh_attrs h @ lr_Attrs r))) \<and>
   list_all (\<lambda>(p, v). scalar v \<and> last p \<noteq> '''') (concat (map (leaves (wh_groups h)) (wh_attrs h @ lr_Attrs r)))"
  using leaves_scalar by (fastforce simp: handle_props_flat list_all_iff)

text \<open>
  Attributes given to a logger before a group is opened are written under that group as well,
  where the contract of \<^verbatim>\<open>slog.Handler\<close> keeps them outside it.
\<close>

lemma WithGroup_captures_attrs:
  "handle_props rd (wh_WithGroup g (wh_WithAttrs [SAttr ''k'' (VString ''v'')] (newWorkbenchLogger pid snk lvl)))
     \<lparr>lr_Time = t, lr_Level = l, lr_Message = m, lr_Attrs = []\<rparr> = [g @ ''.k: v'']"
  by (simp add: handle_props_flat wh_WithGroup_def wh_WithAttrs_def newWorkbenchLogger_def leaves.simps
      Resolve_def prop_text_def formatValue_def)

text \<open>
  Starting the logger. It fails only in file mode, with the error of creating the directory or the
  file, and \<^verbatim>\<open>MustNewLogger\<close> then ends the process after one line on standard error, at the error
  level, that names the cause; its message for a failing fallback is never printed.
\<close>

theorem MustNewLogger_outcome:
  "case NewLogger w name cfg of
     Inr lgr \<Rightarrow> MustNewLogger rd fails now w name cfg = MustOk lgr \<and> wh_level lgr = lc_Level cfg \<and>
       (SinkFile file \<in> set (wh_sink lgr) \<longleftrightarrow>
          lc_Type cfg \<noteq> DestinationStderr \<and> lc_Dir cfg \<noteq> '''' \<and> file = path_Join [lc_Dir cfg, name @ ''.log''])
   | Inl err \<Rightarrow> lc_Type cfg \<noteq> DestinationStderr \<and> lc_Dir cfg \<noteq> '''' \<and>
       MustNewLogger rd fails now w name cfg = MustExit [(SinkStderr, rd_stamp rd now @ '' ['' @ name @
         ''] ERROR Failed to initialize logger [error: '' @ err @ '']'' @ [CHR 0x0A])]"
proof -
  have line: "handle_line rd (newWorkbenchLogger name [SinkStderr] LevelDebug) \<lparr>lr_Time = now, lr_Level = LevelError,
      lr_Message = ''Failed to initialize logger'', lr_Attrs = [SAttr ''error'' (VAny (AnyError err err))]\<rparr> =
    rd_stamp rd now @ '' ['' @ name @ ''] ERROR Failed to initialize logger [error: '' @ err @ '']'' @ [CHR 0x0A]" for err
    by (simp add: handle_line_def handle_props_flat newWorkbenchLogger_def leaves.simps Resolve_def prop_text_def
        formatValue_def levelString_def LevelError_def LevelWarn_def Level_String_def LevelInfo_def level_name_def Let_def)
  have exit: "MustNewLogger rd fails now w name cfg = MustExit [(SinkStderr, rd_stamp rd now @ '' ['' @ name @
      ''] ERROR Failed to initialize logger [error: '' @ err @ '']'' @ [CHR 0x0A])]"
    if "NewLogger w name cfg = Inl err" for err
  proof -
    have "write_all fails l [SinkStderr] = ([(SinkStderr, l)], fails SinkStderr l)" for l
      by (simp split: option.split)
    moreover have "wh_Enabled LevelError (newWorkbenchLogger name [SinkStderr] LevelDebug)"
      by (simp add: wh_Enabled_def newWorkbenchLogger_def LevelError_def LevelDebug_def)
    moreover have "wh_sink (newWorkbenchLogger name [SinkStderr] LevelDebug) = [SinkStderr]"
      by (simp add: newWorkbenchLogger_def)
    ultimately show ?thesis
      unfolding MustNewLogger_def that sum.case unfolding NewLogger_def Config.simps
      by (simp only: HOL.simp_thms if_True sum.case log_call_def log_record.simps wh_Handle_def line fst_conv)
  qed
  show ?thesis
  proof (cases "NewLogger w name cfg")
    case (Inl err)
    then have "lc_Type cfg \<noteq> DestinationStderr \<and> lc_Dir cfg \<noteq> ''''" by (auto simp: NewLogger_def split: if_splits)
    then show ?thesis using exit [OF Inl] unfolding Inl sum.case by (intro conjI) simp_all
  next
    case (Inr lgr)
    then have "wh_level lgr = lc_Level cfg"
      "SinkFile file \<in> set (wh_sink lgr) \<longleftrightarrow> lc_Type cfg \<noteq> DestinationStderr \<and> lc_Dir cfg \<noteq> '''' \<and>
        file = path_Join [lc_Dir cfg, name @ ''.log'']"
      by (auto simp: NewLogger_def Let_def newWorkbenchLogger_def split: if_split_asm option.split_asm)
    then show ?thesis by (simp add: Inr MustNewLogger_def)
  qed
qed

end
