(* ===== verification/Conformance_Harness.thy ===== *)
theory Conformance_Harness
  imports Plugintest_Mocks Runtime_Metrics
begin

text \<open>
  The ground of the conformance suite: the plugin under test as the suite sees it, tests of Go's
  \<^verbatim>\<open>testing\<close> package as computations on the plugin, and the helpers of \<^verbatim>\<open>src/conformance/helpers.go\<close>.

  The plugin is a parameter, a record of the methods the suite calls, together with what happens
  around it: the passing of time, and the goroutines its streams run in. A method gives the state
  afterwards and the calls it made on its response writer; the mock writer records them
  (\<open>mock_calls\<close>). Texts of reports are left out. Durations are nanoseconds.
\<close>

section \<open>The plugin under test\<close>

text \<open>
  \<open>lp_SubmitJob\<close> also gives the job it was handed, as the plugin left it. A stream is opened under a
  context with an optional timeout and is known by a number: \<open>lp_written\<close> are the calls made on its
  writer so far, \<open>lp_cancel\<close> cancels its context, and \<open>lp_await\<close> waits, with an optional timeout,
  for the method to return and says whether it did. \<open>lp_rounds\<close> is the number of times a loop that
  turns at the given interval turns before the given timeout; \<open>lp_Metrics\<close>, for a plugin that has it,
  waits for the metrics with an optional timeout.
\<close>

datatype stream_kind = StatusStream | OutputStream JobID JobOutput

record 'p launcher_plugin =
  lp_SubmitJob :: "string \<Rightarrow> Job \<Rightarrow> 'p \<Rightarrow> 'p \<times> Job \<times> writer_call list"
  lp_GetJob :: "string \<Rightarrow> JobID \<Rightarrow> string list \<Rightarrow> 'p \<Rightarrow> 'p \<times> writer_call list"
  lp_GetJobs :: "string \<Rightarrow> JobFilter \<Rightarrow> string list \<Rightarrow> 'p \<Rightarrow> 'p \<times> writer_call list"
  lp_ControlJob :: "string \<Rightarrow> JobID \<Rightarrow> JobOperation \<Rightarrow> ControlJobOptions \<Rightarrow> 'p \<Rightarrow> 'p \<times> writer_call list"
  lp_GetJobNetwork :: "string \<Rightarrow> JobID \<Rightarrow> 'p \<Rightarrow> 'p \<times> writer_call list"
  lp_ClusterInfo :: "string \<Rightarrow> 'p \<Rightarrow> 'p \<times> writer_call list"
  lp_Metrics :: "(int option \<Rightarrow> 'p \<Rightarrow> 'p \<times> PluginMetrics option) option"
  lp_open :: "stream_kind \<Rightarrow> string \<Rightarrow> int option \<Rightarrow> 'p \<Rightarrow> 'p \<times> nat"
  lp_written :: "nat \<Rightarrow> 'p \<Rightarrow> writer_call list"
  lp_cancel :: "nat \<Rightarrow> 'p \<Rightarrow> 'p"
  lp_await :: "nat \<Rightarrow> int option \<Rightarrow> 'p \<Rightarrow> 'p \<times> bool"
  lp_elapse :: "int \<Rightarrow> 'p \<Rightarrow> 'p"
  lp_rounds :: "int \<Rightarrow> int \<Rightarrow> 'p \<Rightarrow> nat"
  lp_now :: "'p \<Rightarrow> int"

definition ms :: "int \<Rightarrow> int" where
  "ms n = n * 1000000"


section \<open>Tests\<close>

text \<open>
  A test runs on a state: the plugin, whether the test has failed so far, and the verdicts of the
  subtests that have ended. It returns, or stops early: \<^verbatim>\<open>FailNow\<close> and \<^verbatim>\<open>SkipNow\<close> end the test, a panic
  ends the test program, and a test may wait for ever.
\<close>

datatype verdict = Passed | Failed | Skipped

record 'p test_state =
  ts_plugin :: 'p
  ts_failed :: bool
  ts_results :: "(string list \<times> verdict) list"

datatype 'a ctl = Returned 'a | FailNow | SkipNow | Panics go_panic | Hangs

type_synonym ('p, 'a) test = "'p test_state \<Rightarrow> 'p test_state \<times> 'a ctl"

definition tret :: "'a \<Rightarrow> ('p, 'a) test" where
  "tret x s = (s, Returned x)"

definition tbind :: "('p, 'a) test \<Rightarrow> ('a \<Rightarrow> ('p, 'b) test) \<Rightarrow> ('p, 'b) test" where
  "tbind m f s = (case m s of (s', c) \<Rightarrow> (case c of
     Returned x \<Rightarrow> f x s' | FailNow \<Rightarrow> (s', FailNow) | SkipNow \<Rightarrow> (s', SkipNow)
   | Panics p \<Rightarrow> (s', Panics p) | Hangs \<Rightarrow> (s', Hangs)))"

abbreviation tseq :: "('p, unit) test \<Rightarrow> ('p, 'b) test \<Rightarrow> ('p, 'b) test" where
  "tseq m k \<equiv> tbind m (\<lambda>_. k)"

definition t_Error :: "('p, unit) test" where
  "t_Error s = (s\<lparr>ts_failed := True\<rparr>, Returned ())"

definition t_Fatal :: "('p, 'a) test" where
  "t_Fatal s = (s\<lparr>ts_failed := True\<rparr>, FailNow)"

definition t_Skip :: "('p, 'a) test" where
  "t_Skip s = (s, SkipNow)"

definition t_panic :: "go_panic \<Rightarrow> ('p, 'a) test" where
  "t_panic e s = (s, Panics e)"

definition t_hang :: "('p, 'a) test" where
  "t_hang s = (s, Hangs)"

text \<open>An error reported when a condition holds (the assertions of \<^verbatim>\<open>plugintest\<close> say when they report one).\<close>

definition t_check :: "bool \<Rightarrow> ('p, unit) test" where
  "t_check bad = (if bad then t_Error else tret ())"

definition on_plugin :: "('p \<Rightarrow> 'p \<times> 'a) \<Rightarrow> ('p, 'a) test" where
  "on_plugin f s = (case f (ts_plugin s) of (p, x) \<Rightarrow> (s\<lparr>ts_plugin := p\<rparr>, Returned x))"

definition t_index :: "'a list \<Rightarrow> nat \<Rightarrow> ('p, 'a) test" where
  "t_index xs i = (if i < length xs then tret (xs ! i) else t_panic IndexOutOfRange)"

definition t_deref :: "'a option \<Rightarrow> ('p, 'a) test" where
  "t_deref x = (case x of None \<Rightarrow> t_panic NilDeref | Some y \<Rightarrow> tret y)"

text \<open>A deferred cleanup runs however the test ends.\<close>

definition t_finally :: "('p, 'a) test \<Rightarrow> ('p, unit) test \<Rightarrow> ('p, 'a) test" where
  "t_finally m cleanup s = (case m s of (s1, c) \<Rightarrow>
     if c = Hangs then (s1, Hangs) else
     (case cleanup s1 of (s2, d) \<Rightarrow> (s2, case d of Returned _ \<Rightarrow> c | Panics p \<Rightarrow> Panics p | _ \<Rightarrow> Hangs)))"

text \<open>
  \<^verbatim>\<open>t.Run\<close>: the subtest starts out unfailed; its verdict is recorded under its name, after those of its
  own subtests; a failed subtest makes its parent fail, which goes on.
\<close>

definition verdict_of :: "bool \<Rightarrow> 'a ctl \<Rightarrow> verdict" where
  "verdict_of bad c = (if bad then Failed else if c = SkipNow then Skipped else Passed)"

definition t_Run :: "string \<Rightarrow> ('p, unit) test \<Rightarrow> ('p, unit) test" where
  "t_Run name body s =
     (case body (s\<lparr>ts_failed := False, ts_results := []\<rparr>) of (s', c) \<Rightarrow>
        (let sub = map (\<lambda>(path, v). (name # path, v)) (ts_results s') @ [([name], verdict_of (ts_failed s') c)];
             t = s'\<lparr>ts_failed := (ts_failed s \<or> ts_failed s'), ts_results := ts_results s @ sub\<rparr> in
         case c of Panics p \<Rightarrow> (t, Panics p) | Hangs \<Rightarrow> (t, Hangs) | _ \<Rightarrow> (t, Returned ())))"

definition run_test :: "('p, unit) test \<Rightarrow> 'p \<Rightarrow> 'p test_state \<times> unit ctl" where
  "run_test m p = m \<lparr>ts_plugin = p, ts_failed = False, ts_results = []\<rparr>"

text \<open>The whole test passes: it comes to its end and neither it nor a subtest has failed.\<close>

definition passes :: "('p, unit) test \<Rightarrow> 'p \<Rightarrow> bool" where
  "passes m p = (case run_test m p of (s, c) \<Rightarrow> c = Returned () \<and> \<not> ts_failed s)"


section \<open>Helpers\<close>

definition defaultPollInterval :: int where
  "defaultPollInterval = ms 50"

text \<open>\<^verbatim>\<open>SubmitJob\<close>: the ID, and the submitted job as the plugin left it.\<close>

definition cf_SubmitJob :: "'p launcher_plugin \<Rightarrow> string \<Rightarrow> Job \<Rightarrow> ('p, JobID \<times> Job) test" where
  "cf_SubmitJob P user job =
     tbind (on_plugin (lp_SubmitJob P user job)) (\<lambda>(job', cs).
       (let w = mock_calls cs; jobs = nil_slice (mock_LastJobs w) in
        if mock_HasError w then t_Fatal
        else if length jobs = 0 then t_Fatal
        else tbind (t_index jobs 0) (\<lambda>j.
          if job_ID j = JobID '''' then t_Fatal else tret (job_ID j, job'))))"

definition cf_GetJob ::
  "'p launcher_plugin \<Rightarrow> string \<Rightarrow> JobID \<Rightarrow> string list \<Rightarrow> 'p \<Rightarrow> 'p \<times> Job option \<times> Error option" where
  "cf_GetJob P user jid flds p = (case lp_GetJob P user jid flds p of (p', cs) \<Rightarrow>
     (let w = mock_calls cs in
      (p', if mock_HasError w then (None, mock_LastError w)
           else (case nil_slice (mock_LastJobs w) of [] \<Rightarrow> (None, None) | j # _ \<Rightarrow> (Some j, None)))))"

definition cf_GetJobs :: "'p launcher_plugin \<Rightarrow> string \<Rightarrow> JobFilter \<Rightarrow> 'p \<Rightarrow> 'p \<times> Job list" where
  "cf_GetJobs P user flt p = (case lp_GetJobs P user flt [] p of (p', cs) \<Rightarrow> (p', mock_AllJobs (mock_calls cs)))"

definition no_options :: ControlJobOptions where
  "no_options = \<lparr>cjo_StatusMessage = '''', cjo_StatusCode = ''''\<rparr>"

definition cf_ControlJob ::
  "'p launcher_plugin \<Rightarrow> string \<Rightarrow> JobID \<Rightarrow> JobOperation \<Rightarrow> 'p \<Rightarrow> 'p \<times> ControlResult option \<times> Error option" where
  "cf_ControlJob P user jid op p = (case lp_ControlJob P user jid op no_options p of (p', cs) \<Rightarrow>
     (let w = mock_calls cs in
      (p', if mock_HasError w then (None, mock_LastError w)
           else (case mock_ControlResults w of [] \<Rightarrow> (None, None) | r # _ \<Rightarrow> (Some r, None)))))"

text \<open>
  The wait loops, with the number of ticks they see before their context is done. Each tick is one
  poll of the job.
\<close>

datatype wait_error = WaitTimeout | WaitAPI Error | WaitNoJob | WaitTerminal string

fun WaitForStatus ::
  "nat \<Rightarrow> 'p launcher_plugin \<Rightarrow> string \<Rightarrow> JobID \<Rightarrow> string \<Rightarrow> 'p \<Rightarrow> 'p \<times> (wait_error + Job)" where
  "WaitForStatus 0 P user jid status p = (p, Inl WaitTimeout)"
| "WaitForStatus (Suc n) P user jid status p =
     (case cf_GetJob P user jid [] (lp_elapse P defaultPollInterval p) of (p', job, apiErr) \<Rightarrow>
        (case apiErr of Some e \<Rightarrow> (p', Inl (WaitAPI e)) | None \<Rightarrow>
        (case job of None \<Rightarrow> (p', Inl WaitNoJob) | Some j \<Rightarrow>
           if job_Status j = status then (p', Inr j)
           else if TerminalStatus (job_Status j) \<and> \<not> TerminalStatus status then
             (p', Inl (WaitTerminal (job_Status j)))
           else WaitForStatus n P user jid status p')))"

fun WaitForTerminalStatus ::
  "nat \<Rightarrow> 'p launcher_plugin \<Rightarrow> string \<Rightarrow> JobID \<Rightarrow> 'p \<Rightarrow> 'p \<times> (wait_error + Job)" where
  "WaitForTerminalStatus 0 P user jid p = (p, Inl WaitTimeout)"
| "WaitForTerminalStatus (Suc n) P user jid p =
     (case cf_GetJob P user jid [] (lp_elapse P defaultPollInterval p) of (p', job, apiErr) \<Rightarrow>
        (case apiErr of Some e \<Rightarrow> (p', Inl (WaitAPI e)) | None \<Rightarrow>
        (case job of None \<Rightarrow> (p', Inl WaitNoJob) | Some j \<Rightarrow>
           if TerminalStatus (job_Status j) then (p', Inr j)
           else WaitForTerminalStatus n P user jid p')))"

text \<open>A wait under a context with the given timeout.\<close>

definition wait_status ::
  "'p launcher_plugin \<Rightarrow> int \<Rightarrow> string \<Rightarrow> JobID \<Rightarrow> string \<Rightarrow> 'p \<Rightarrow> 'p \<times> (wait_error + Job)" where
  "wait_status P timeout user jid status p =
     WaitForStatus (lp_rounds P defaultPollInterval timeout p) P user jid status p"

definition wait_terminal ::
  "'p launcher_plugin \<Rightarrow> int \<Rightarrow> string \<Rightarrow> JobID \<Rightarrow> 'p \<Rightarrow> 'p \<times> (wait_error + Job)" where
  "wait_terminal P timeout user jid p =
     WaitForTerminalStatus (lp_rounds P defaultPollInterval timeout p) P user jid p"

text \<open>The streams: the writer that captures a stream is the mock of the calls written so far.\<close>

definition CollectStatusStream :: "'p launcher_plugin \<Rightarrow> string \<Rightarrow> int option \<Rightarrow> ('p, nat) test" where
  "CollectStatusStream P user timeout = on_plugin (lp_open P StatusStream user timeout)"

definition CollectOutputStream ::
  "'p launcher_plugin \<Rightarrow> string \<Rightarrow> JobID \<Rightarrow> JobOutput \<Rightarrow> int option \<Rightarrow> ('p, nat) test" where
  "CollectOutputStream P user jid ot timeout = on_plugin (lp_open P (OutputStream jid ot) user timeout)"

definition stream_writer :: "'p launcher_plugin \<Rightarrow> nat \<Rightarrow> 'p \<Rightarrow> MockStreamResponseWriter" where
  "stream_writer P h p = mock_calls (lp_written P h p)"

text \<open>The cleanup every user of a stream defers: cancel, then receive from \<^verbatim>\<open>done\<close>.\<close>

definition end_stream :: "'p launcher_plugin \<Rightarrow> nat \<Rightarrow> ('p, unit) test" where
  "end_stream P h = tbind (on_plugin (\<lambda>p. lp_await P h None (lp_cancel P h p))) (\<lambda>ended.
     if ended then tret () else t_hang)"

definition t_sleep :: "'p launcher_plugin \<Rightarrow> int \<Rightarrow> ('p, unit) test" where
  "t_sleep P d = on_plugin (\<lambda>p. (lp_elapse P d p, ()))"

text \<open>A loop until a deadline that returns early when the condition holds; it is tested once more at the end.\<close>

fun poll_until :: "nat \<Rightarrow> 'p launcher_plugin \<Rightarrow> int \<Rightarrow> ('p \<Rightarrow> bool) \<Rightarrow> 'p \<Rightarrow> 'p \<times> bool" where
  "poll_until 0 P interval c p = (p, c p)"
| "poll_until (Suc n) P interval c p =
     (if c p then (p, True) else poll_until n P interval c (lp_elapse P interval p))"

end
