(* ===== verification/Conformance_Suite.thy ===== *)
theory Conformance_Suite
  imports Conformance_Harness
begin

text \<open>
  The tests of the conformance suite: the universal invariants of \<^verbatim>\<open>src/conformance/conformance.go\<close> and the
  workflows and scenarios of \<^verbatim>\<open>src/conformance/scenarios.go\<close>. Subtests are named as in the code.
\<close>

section \<open>Profiles\<close>

record Profile =
  pf_JobFactory :: "(string \<Rightarrow> Job) option"
  pf_LongRunningJob :: "(string \<Rightarrow> Job) option"
  pf_StopStatus :: string
  pf_StopExitCodes :: "int list"
  pf_KillStatus :: string
  pf_KillExitCodes :: "int list"
  pf_OutputAvailable :: bool
  pf_SuspendSupported :: bool
  pf_NetworkAvailable :: bool
  pf_PollInterval :: int
  pf_JobStartTimeout :: int
  pf_JobCompleteTimeout :: int
  pf_OutputTimeout :: int

definition missing_fields :: "Profile \<Rightarrow> string list" where
  "missing_fields p =
     (if pf_JobFactory p = None then [''JobFactory''] else []) @
     (if pf_LongRunningJob p = None then [''LongRunningJob''] else []) @
     (if pf_StopStatus p = '''' then [''StopStatus''] else []) @
     (if pf_StopExitCodes p = [] then [''StopExitCodes''] else []) @
     (if pf_KillStatus p = '''' then [''KillStatus''] else []) @
     (if pf_KillExitCodes p = [] then [''KillExitCodes''] else [])"

definition mustValidate :: "Profile \<Rightarrow> ('p, unit) test" where
  "mustValidate p = (if missing_fields p \<noteq> [] then t_Fatal else tret ())"

definition applyDefaults :: "Profile \<Rightarrow> Profile" where
  "applyDefaults p =
     (let p = (if pf_PollInterval p = 0 then p\<lparr>pf_PollInterval := ms 50\<rparr> else p);
          p = (if pf_JobStartTimeout p = 0 then p\<lparr>pf_JobStartTimeout := ms 30000\<rparr> else p);
          p = (if pf_JobCompleteTimeout p = 0 then p\<lparr>pf_JobCompleteTimeout := ms 60000\<rparr> else p) in
      if pf_OutputTimeout p = 0 then p\<lparr>pf_OutputTimeout := ms 10000\<rparr> else p)"

text \<open>A job of the factories, which a validated profile has.\<close>

definition new_job :: "Profile \<Rightarrow> string \<Rightarrow> Job" where
  "new_job profile user = the (pf_JobFactory profile) user"

definition new_long_job :: "Profile \<Rightarrow> string \<Rightarrow> Job" where
  "new_long_job profile user = the (pf_LongRunningJob profile) user"

fun t_all :: "('p, unit) test list \<Rightarrow> ('p, unit) test" where
  "t_all [] = tret ()"
| "t_all (m # rest) = tseq m (t_all rest)"

text \<open>A call on a fresh mock writer, and the first job of its last batch (which panics when there is none).\<close>

definition submit_mock :: "'p launcher_plugin \<Rightarrow> string \<Rightarrow> Job \<Rightarrow> ('p, MockStreamResponseWriter) test" where
  "submit_mock P user job = on_plugin (\<lambda>p. case lp_SubmitJob P user job p of (p', _, cs) \<Rightarrow> (p', mock_calls cs))"

definition call_mock :: "('p \<Rightarrow> 'p \<times> writer_call list) \<Rightarrow> ('p, MockStreamResponseWriter) test" where
  "call_mock f = on_plugin (\<lambda>p. case f p of (p', cs) \<Rightarrow> (p', mock_calls cs))"

definition first_job :: "MockStreamResponseWriter \<Rightarrow> ('p, Job) test" where
  "first_job w = t_index (nil_slice (mock_LastJobs w)) 0"


section \<open>Invariants\<close>

definition testSubmitInvariants :: "'p launcher_plugin \<Rightarrow> string \<Rightarrow> Profile \<Rightarrow> ('p, unit) test" where
  "testSubmitInvariants P user profile = t_all
    [t_Run ''ReturnsNonEmptyID'' (
       tbind (submit_mock P user (new_job profile user)) (\<lambda>w.
       tseq (t_check (AssertNoError w)) (
       tseq (t_check (AssertJobCount w 1)) (
       tbind (first_job w) (\<lambda>submitted.
       t_check (job_ID submitted = JobID '''')))))),
     t_Run ''SetsSubmittedTimestamp'' (
       tbind (submit_mock P user (new_job profile user)) (\<lambda>w.
       tseq (t_check (AssertNoError w)) (
       tbind (first_job w) (\<lambda>submitted.
       t_check (job_Submitted submitted = None))))),
     t_Run ''TwoJobsGetDifferentIDs'' (
       tbind (submit_mock P user (new_job profile user)) (\<lambda>w1.
       tseq (t_check (AssertNoError w1)) (
       tbind (submit_mock P user (new_job profile user)) (\<lambda>w2.
       tseq (t_check (AssertNoError w2)) (
       tbind (first_job w1) (\<lambda>j1. tbind (first_job w2) (\<lambda>j2.
       t_check (job_ID j1 = job_ID j2)))))))),
     t_Run ''PreservesName'' (
       tbind (submit_mock P user ((new_job profile user)\<lparr>job_Name := ''conformance-name-test''\<rparr>)) (\<lambda>w.
       tseq (t_check (AssertNoError w)) (
       tbind (first_job w) (\<lambda>submitted.
       t_check (job_Name submitted \<noteq> ''conformance-name-test''))))),
     t_Run ''PreservesTags'' (
       tbind (submit_mock P user ((new_job profile user)\<lparr>job_Tags := [''conformance-tag-a'', ''conformance-tag-b'']\<rparr>)) (\<lambda>w.
       tseq (t_check (AssertNoError w)) (
       tbind (first_job w) (\<lambda>submitted.
       tseq (t_check (AssertJobHasTag (Some submitted) ''conformance-tag-a''))
         (t_check (AssertJobHasTag (Some submitted) ''conformance-tag-b''))))))]"

definition testGetJobInvariants :: "'p launcher_plugin \<Rightarrow> string \<Rightarrow> Profile \<Rightarrow> ('p, unit) test" where
  "testGetJobInvariants P user profile = t_all
    [t_Run ''ReturnsByID'' (
       tbind (cf_SubmitJob P user (new_job profile user)) (\<lambda>(jid, _).
       tbind (on_plugin (cf_GetJob P user jid [])) (\<lambda>(job, apiErr).
       if apiErr \<noteq> None then t_Fatal
       else if job = None then t_Fatal
       else t_check (AssertJobID job jid)))),
     t_Run ''NotFoundForBogusID'' (
       tbind (call_mock (lp_GetJob P user (JobID ''nonexistent-conformance-id-99999'') [])) (\<lambda>w.
       t_check (AssertErrorCode w CodeJobNotFound)))]"

text \<open>Tags made unique with the time.\<close>

definition stamp_tag :: "'p launcher_plugin \<Rightarrow> string \<Rightarrow> ('p, string) test" where
  "stamp_tag P pre = on_plugin (\<lambda>p. (p, pre @ int_dec (lp_now P p)))"

definition add_tags :: "string list \<Rightarrow> Job \<Rightarrow> Job" where
  "add_tags tags job = job\<lparr>job_Tags := job_Tags job @ tags\<rparr>"

definition tag_filter :: "string list \<Rightarrow> JobFilter" where
  "tag_filter tags = zero_JobFilter\<lparr>flt_Tags := tags\<rparr>"

definition testGetJobsInvariants :: "'p launcher_plugin \<Rightarrow> string \<Rightarrow> Profile \<Rightarrow> ('p, unit) test" where
  "testGetJobsInvariants P user profile = t_all
    [t_Run ''ReturnsSubmittedJobs'' (
       tbind (stamp_tag P ''conformance-get-jobs-'') (\<lambda>tag.
       tbind (cf_SubmitJob P user (add_tags [tag] (new_job profile user))) (\<lambda>(id1, _).
       tbind (cf_SubmitJob P user (add_tags [tag] (new_job profile user))) (\<lambda>(id2, _).
       tbind (on_plugin (cf_GetJobs P user (tag_filter [tag]))) (\<lambda>jobs.
       if length jobs < 2 then t_Fatal
       else tseq (t_check (FindJobByID jobs id1 = None)) (t_check (FindJobByID jobs id2 = None))))))),
     t_Run ''FilterByTagANDLogic'' (
       tbind (stamp_tag P ''conformance-and-a-'') (\<lambda>tagA.
       tbind (stamp_tag P ''conformance-and-b-'') (\<lambda>tagB.
       tbind (cf_SubmitJob P user (add_tags [tagA, tagB] (new_job profile user))) (\<lambda>(id1, _).
       tbind (cf_SubmitJob P user (add_tags [tagA] (new_job profile user))) (\<lambda>_.
       tbind (on_plugin (cf_GetJobs P user (tag_filter [tagA, tagB]))) (\<lambda>jobs.
       tseq (t_all (map (\<lambda>j. tseq (t_check (AssertJobHasTag (Some j) tagA)) (t_check (AssertJobHasTag (Some j) tagB))) jobs))
         (t_check (FindJobByID jobs id1 = None)))))))),
     t_Run ''FilterByStatus'' (
       tbind (call_mock (lp_GetJobs P user (zero_JobFilter\<lparr>flt_Statuses := [StatusRunning]\<rparr>) [])) (\<lambda>w.
       t_check (AssertNoError w))),
     t_Run ''UnmatchedFilterReturnsEmpty'' (
       tbind (stamp_tag P ''conformance-nomatch-'') (\<lambda>tag.
       tbind (on_plugin (cf_GetJobs P user (tag_filter [tag]))) (\<lambda>jobs.
       t_check (length jobs \<noteq> 0))))]"

definition testClusterInfoInvariants :: "'p launcher_plugin \<Rightarrow> string \<Rightarrow> ('p, unit) test" where
  "testClusterInfoInvariants P user = t_all
    [t_Run ''ReturnsWithoutError'' (
       tbind (call_mock (lp_ClusterInfo P user)) (\<lambda>w.
       tseq (t_check (AssertNoError w)) (t_check (mock_ClusterInfo w = None)))),
     t_Run ''LimitsHaveType'' (
       tbind (call_mock (lp_ClusterInfo P user)) (\<lambda>w.
       case mock_ClusterInfo w of
         None \<Rightarrow> t_Skip
       | Some info \<Rightarrow> t_all (map (\<lambda>limit. t_check (rl_Type limit = '''')) (nil_slice (co_Limits info)))))]"

definition testLifecycleInvariants :: "'p launcher_plugin \<Rightarrow> string \<Rightarrow> Profile \<Rightarrow> ('p, unit) test" where
  "testLifecycleInvariants P user profile = t_all
    [t_Run ''ReachesTerminalStatus'' (
       tbind (cf_SubmitJob P user (new_job profile user)) (\<lambda>(jid, _).
       tbind (on_plugin (wait_terminal P (pf_JobCompleteTimeout profile) user jid)) (\<lambda>res.
       case res of Inl err \<Rightarrow> t_Fatal | Inr job \<Rightarrow> t_check (\<not> TerminalStatus (job_Status job))))),
     t_Run ''TerminalStatusNeverRegresses'' (
       tbind (cf_SubmitJob P user (new_job profile user)) (\<lambda>(jid, _).
       tbind (on_plugin (wait_terminal P (pf_JobCompleteTimeout profile) user jid)) (\<lambda>res.
       case res of Inl err \<Rightarrow> t_Fatal | Inr job \<Rightarrow>
         tseq (t_sleep P (ms 200)) (
         tbind (on_plugin (cf_GetJob P user jid [])) (\<lambda>(job2, apiErr).
         if apiErr \<noteq> None then t_Fatal
         else tbind (t_deref job2) (\<lambda>j2. t_check (job_Status j2 \<noteq> job_Status job)))))))]"

definition testErrorInvariants :: "'p launcher_plugin \<Rightarrow> string \<Rightarrow> ('p, unit) test" where
  "testErrorInvariants P user = t_all
    [t_Run ''NotFoundUsesCodeJobNotFound'' (
       tbind (call_mock (lp_GetJob P user (JobID ''nonexistent-conformance-err-99999'') [])) (\<lambda>w.
       t_check (AssertErrorCode w CodeJobNotFound))),
     t_Run ''ControlNonexistentReturnsError'' (
       tbind (call_mock (lp_ControlJob P user (JobID ''nonexistent-conformance-ctrl-99999'') OperationStop no_options)) (\<lambda>w.
       t_check (AssertError w)))]"

definition conf_Run :: "'p launcher_plugin \<Rightarrow> string \<Rightarrow> Profile \<Rightarrow> ('p, unit) test" where
  "conf_Run P user profile0 =
     tseq (mustValidate profile0) (let profile = applyDefaults profile0 in
     t_Run ''Invariants'' (t_all
       [t_Run ''Submit'' (testSubmitInvariants P user profile),
        t_Run ''GetJob'' (testGetJobInvariants P user profile),
        t_Run ''GetJobs'' (testGetJobsInvariants P user profile),
        t_Run ''ClusterInfo'' (testClusterInfoInvariants P user),
        t_Run ''Lifecycle'' (testLifecycleInvariants P user profile),
        t_Run ''Errors'' (testErrorInvariants P user)]))"


section \<open>Scenarios\<close>

record StopOpts =
  so_Job :: Job
  so_ExpectStatus :: string
  so_ExpectExitCodes :: "int list"
  so_Timeout :: int

record KillOpts =
  ko_Job :: Job
  ko_ExpectStatus :: string
  ko_ExpectExitCodes :: "int list"
  ko_Timeout :: int

record CancelOpts =
  cco_Job :: Job
  cco_Timeout :: int

record SuspendResumeOpts =
  sro_Job :: Job
  sro_Timeout :: int

record OutputStreamOpts =
  oso_Job :: Job
  oso_OutputType :: JobOutput
  oso_ExpectNonEmpty :: bool
  oso_Timeout :: int

record StatusStreamOpts =
  sso_Job :: Job
  sso_Timeout :: int

record StreamCancelOpts =
  sco_Job :: Job
  sco_Timeout :: int

record FieldFilterOpts =
  ffo_Job :: Job
  ffo_Fields :: "string list"

record InvalidStateOpts =
  iso_Job :: Job
  iso_Operation :: JobOperation
  iso_Timeout :: int

record MetricsOpts =
  mo_Timeout :: int

definition defaultTimeout :: "int \<Rightarrow> int \<Rightarrow> int" where
  "defaultTimeout d fallback = (if d = 0 then fallback else d)"

fun exit_loop :: "int \<Rightarrow> int list \<Rightarrow> bool" where
  "exit_loop c [] = False"
| "exit_loop c (code # codes) = (if c = code then True else exit_loop c codes)"

definition assertExitCode :: "Job \<Rightarrow> int list \<Rightarrow> ('p, unit) test" where
  "assertExitCode job acceptable =
     (if acceptable = [] then tret ()
      else (case job_ExitCode job of
          None \<Rightarrow> t_Error
        | Some c \<Rightarrow> if exit_loop c acceptable then tret () else t_Error))"

text \<open>What \<^verbatim>\<open>RunStopJob\<close> and \<^verbatim>\<open>RunKillJob\<close> do once the job runs: control it and look at how it ended.\<close>

definition control_and_check ::
  "'p launcher_plugin \<Rightarrow> string \<Rightarrow> JobID \<Rightarrow> JobOperation \<Rightarrow> int \<Rightarrow> string \<Rightarrow> int list \<Rightarrow> ('p, unit) test" where
  "control_and_check P user jid op timeout expect codes =
     tbind (on_plugin (cf_ControlJob P user jid op)) (\<lambda>(_, apiErr).
     if apiErr \<noteq> None then t_Fatal
     else tbind (on_plugin (wait_terminal P timeout user jid)) (\<lambda>res.
     case res of Inl err \<Rightarrow> t_Fatal | Inr finalJob \<Rightarrow>
       tseq (t_check (job_Status finalJob \<noteq> expect)) (assertExitCode finalJob codes)))"

definition RunStopJob :: "'p launcher_plugin \<Rightarrow> string \<Rightarrow> StopOpts \<Rightarrow> ('p, unit) test" where
  "RunStopJob P user opts =
     (let timeout = defaultTimeout (so_Timeout opts) (ms 30000) in
      tbind (cf_SubmitJob P user (so_Job opts)) (\<lambda>(jid, _).
      tbind (on_plugin (wait_status P timeout user jid StatusRunning)) (\<lambda>res.
      case res of Inl err \<Rightarrow> t_Fatal | Inr _ \<Rightarrow>
        tbind (CollectStatusStream P user None) (\<lambda>h.
        t_finally
          (tseq (t_sleep P (ms 50))
            (control_and_check P user jid OperationStop timeout (so_ExpectStatus opts) (so_ExpectExitCodes opts)))
          (end_stream P h)))))"

definition RunKillJob :: "'p launcher_plugin \<Rightarrow> string \<Rightarrow> KillOpts \<Rightarrow> ('p, unit) test" where
  "RunKillJob P user opts =
     (let timeout = defaultTimeout (ko_Timeout opts) (ms 30000) in
      tbind (cf_SubmitJob P user (ko_Job opts)) (\<lambda>(jid, _).
      tbind (on_plugin (wait_status P timeout user jid StatusRunning)) (\<lambda>res.
      case res of Inl err \<Rightarrow> t_Fatal | Inr _ \<Rightarrow>
        control_and_check P user jid OperationKill timeout (ko_ExpectStatus opts) (ko_ExpectExitCodes opts))))"

definition RunCancelJob :: "'p launcher_plugin \<Rightarrow> string \<Rightarrow> CancelOpts \<Rightarrow> ('p, unit) test" where
  "RunCancelJob P user opts =
     (let timeout = defaultTimeout (cco_Timeout opts) (ms 30000) in
      tbind (cf_SubmitJob P user (cco_Job opts)) (\<lambda>(jid, _).
      tbind (on_plugin (cf_ControlJob P user jid OperationCancel)) (\<lambda>(_, apiErr).
      if apiErr \<noteq> None then t_Skip
      else tbind (on_plugin (wait_status P timeout user jid StatusCanceled)) (\<lambda>res.
      case res of Inl err \<Rightarrow> t_Fatal
      | Inr finalJob \<Rightarrow> t_check (AssertJobStatus (Some finalJob) StatusCanceled)))))"

definition RunSuspendResume :: "'p launcher_plugin \<Rightarrow> string \<Rightarrow> SuspendResumeOpts \<Rightarrow> ('p, unit) test" where
  "RunSuspendResume P user opts =
     (let timeout = defaultTimeout (sro_Timeout opts) (ms 30000) in
      tbind (cf_SubmitJob P user (sro_Job opts)) (\<lambda>(jid, _).
      tbind (on_plugin (wait_status P timeout user jid StatusRunning)) (\<lambda>res.
      if isl res then t_Fatal else
      tbind (on_plugin (cf_ControlJob P user jid OperationSuspend)) (\<lambda>(_, apiErr).
      if apiErr \<noteq> None then t_Fatal else
      tbind (on_plugin (wait_status P timeout user jid StatusSuspended)) (\<lambda>res.
      if isl res then t_Fatal else
      tbind (on_plugin (cf_ControlJob P user jid OperationResume)) (\<lambda>(_, apiErr).
      if apiErr \<noteq> None then t_Fatal else
      tbind (on_plugin (wait_status P timeout user jid StatusRunning)) (\<lambda>res.
      case res of Inl err \<Rightarrow> t_Fatal | Inr resumedJob \<Rightarrow>
        tseq (t_check (AssertJobStatus (Some resumedJob) StatusRunning))
          (tbind (on_plugin (cf_ControlJob P user jid OperationStop)) (\<lambda>_. tret ())))))))))"

text \<open>The end of the stream tests: wait until the deadline for the condition, and report when it never held.\<close>

definition expect_on_stream ::
  "'p launcher_plugin \<Rightarrow> int \<Rightarrow> int \<Rightarrow> ('p \<Rightarrow> bool) \<Rightarrow> ('p, unit) test" where
  "expect_on_stream P interval timeout c =
     tbind (on_plugin (\<lambda>p. poll_until (lp_rounds P interval timeout p) P interval c p)) (\<lambda>found. t_check (\<not> found))"

definition RunOutputStream :: "'p launcher_plugin \<Rightarrow> string \<Rightarrow> OutputStreamOpts \<Rightarrow> ('p, unit) test" where
  "RunOutputStream P user opts =
     (let timeout = defaultTimeout (oso_Timeout opts) (ms 10000) in
      tbind (cf_SubmitJob P user (oso_Job opts)) (\<lambda>(jid, _).
      tbind (CollectOutputStream P user jid (oso_OutputType opts) (Some timeout)) (\<lambda>h.
      t_finally
        (if oso_ExpectNonEmpty opts
         then expect_on_stream P (ms 50) timeout (\<lambda>p. mock_OutputCount (stream_writer P h p) > 0)
         else tret ())
        (end_stream P h))))"

definition RunStatusStream :: "'p launcher_plugin \<Rightarrow> string \<Rightarrow> StatusStreamOpts \<Rightarrow> ('p, unit) test" where
  "RunStatusStream P user opts =
     (let timeout = defaultTimeout (sso_Timeout opts) (ms 30000) in
      tbind (cf_SubmitJob P user (sso_Job opts)) (\<lambda>_.
      tbind (CollectStatusStream P user (Some timeout)) (\<lambda>h.
      t_finally
        (expect_on_stream P (ms 50) timeout (\<lambda>p. mock_StatusCount (stream_writer P h p) > 0))
        (end_stream P h))))"

definition RunStreamCancellation :: "'p launcher_plugin \<Rightarrow> string \<Rightarrow> StreamCancelOpts \<Rightarrow> ('p, unit) test" where
  "RunStreamCancellation P user opts =
     (let timeout = defaultTimeout (sco_Timeout opts) (ms 5000);
          count = (\<lambda>h. on_plugin (\<lambda>p. (p, mock_StatusCount (stream_writer P h p)))) in
      tbind (cf_SubmitJob P user (sco_Job opts)) (\<lambda>_.
      tbind (CollectStatusStream P user None) (\<lambda>h.
      tseq (t_sleep P (ms 100)) (
      tbind (count h) (\<lambda>countBefore.
      tbind (on_plugin (\<lambda>p. lp_await P h (Some timeout) (lp_cancel P h p))) (\<lambda>ended.
      tseq (t_check (\<not> ended)) (
      tseq (t_sleep P (ms 100)) (
      tbind (count h) (\<lambda>countAfter.
      t_check (countAfter > countBefore + 1))))))))))"

definition check_field :: "Job \<Rightarrow> Job \<Rightarrow> string \<Rightarrow> ('p, unit) test" where
  "check_field job submitted f =
     (if f = ''status'' then t_check (job_Status job = '''')
      else if f = ''name'' then t_check (job_Name job = '''' \<and> job_Name submitted \<noteq> '''')
      else tret ())"

definition RunFieldFiltering :: "'p launcher_plugin \<Rightarrow> string \<Rightarrow> FieldFilterOpts \<Rightarrow> ('p, unit) test" where
  "RunFieldFiltering P user opts =
     tbind (cf_SubmitJob P user (ffo_Job opts)) (\<lambda>(jid, submitted).
     tbind (on_plugin (cf_GetJob P user jid (ffo_Fields opts))) (\<lambda>(job, apiErr).
     if apiErr \<noteq> None then t_Fatal
     else (case job of None \<Rightarrow> t_Fatal | Some j \<Rightarrow>
       tseq (t_check (job_ID j = JobID '''')) (t_all (map (check_field j submitted) (ffo_Fields opts))))))"

definition RunControlInvalidState :: "'p launcher_plugin \<Rightarrow> string \<Rightarrow> InvalidStateOpts \<Rightarrow> ('p, unit) test" where
  "RunControlInvalidState P user opts =
     (let timeout = defaultTimeout (iso_Timeout opts) (ms 30000) in
      tbind (cf_SubmitJob P user (iso_Job opts)) (\<lambda>(jid, _).
      tbind (on_plugin (wait_terminal P timeout user jid)) (\<lambda>res.
      if isl res then t_Fatal else
      tbind (on_plugin (cf_ControlJob P user jid (iso_Operation opts))) (\<lambda>(_, apiErr).
      t_check (apiErr = None)))))"

definition RunMetrics :: "'p launcher_plugin \<Rightarrow> MetricsOpts \<Rightarrow> ('p, unit) test" where
  "RunMetrics P opts =
     (let timeout = defaultTimeout (mo_Timeout opts) (ms 1000) in
      case lp_Metrics P of
        None \<Rightarrow> t_Skip
      | Some mp \<Rightarrow> t_all
        [t_Run ''ReturnsWithinTimeout'' (
           tbind (on_plugin (mp (Some timeout))) (\<lambda>res. if res = None then t_Fatal else tret ())),
         t_Run ''LatencyBucketsNonNegative'' (
           tbind (on_plugin (mp None)) (\<lambda>res.
           case res of None \<Rightarrow> t_hang | Some metrics \<Rightarrow>
             (case pm_ClusterInteractionLatency metrics of
                None \<Rightarrow> t_Skip
              | Some latency \<Rightarrow>
                  tseq (t_all (map (\<lambda>v. t_check (v < 0)) (hs_Buckets latency)))
                    (t_check (hs_Sum latency < 0)))))])"


section \<open>Workflows\<close>

definition testLaunchWorkflow :: "'p launcher_plugin \<Rightarrow> string \<Rightarrow> Profile \<Rightarrow> ('p, unit) test" where
  "testLaunchWorkflow P user profile =
     tseq (t_Run ''ClusterInfoReturnsConfig'' (
       tbind (call_mock (lp_ClusterInfo P user)) (\<lambda>w.
       tseq (t_check (AssertNoError w)) (t_check (mock_ClusterInfo w = None))))) (
     tbind (cf_SubmitJob P user (add_tags [''conformance-launch''] (new_job profile user))) (\<lambda>(jid, _).
     t_all
      [t_Run ''SubmitReturnsJobWithID'' (t_check (jid = JobID '''')),
       t_Run ''StatusStreamDeliversRunningUpdate'' (
         tbind (on_plugin (wait_status P (pf_JobStartTimeout profile) user jid StatusRunning)) (\<lambda>res.
         t_check (isl res))),
       if pf_NetworkAvailable profile then
         t_Run ''NetworkAvailableWhenRunning'' (
           tbind (call_mock (lp_GetJobNetwork P user jid)) (\<lambda>w. t_check (AssertNoError w)))
       else tret (),
       if pf_OutputAvailable profile then
         t_Run ''OutputStreamDeliversData'' (
           tbind (CollectOutputStream P user jid OutputStdout (Some (pf_OutputTimeout profile))) (\<lambda>h.
           t_finally
             (expect_on_stream P (pf_PollInterval profile) (pf_OutputTimeout profile)
               (\<lambda>p. mock_OutputCount (stream_writer P h p) > 0))
             (end_stream P h)))
       else tret ()]))"

definition terminal_statuses :: "string list" where
  "terminal_statuses = [StatusFinished, StatusFailed, StatusKilled, StatusCanceled]"

definition testListWorkflow :: "'p launcher_plugin \<Rightarrow> string \<Rightarrow> Profile \<Rightarrow> ('p, unit) test" where
  "testListWorkflow P user profile =
     tbind (stamp_tag P ''conformance-list-'') (\<lambda>tag.
     (let tagA = tag @ ''-a''; tagB = tag @ ''-b'' in
     tbind (cf_SubmitJob P user (add_tags [tag, tagA] (new_job profile user))) (\<lambda>(id1, _).
     tbind (cf_SubmitJob P user (add_tags [tag, tagB] (new_job profile user))) (\<lambda>(id2, _).
     t_all
      [t_Run ''FilterByStatusReturnsSubset'' (
         tbind (on_plugin (wait_terminal P (pf_JobCompleteTimeout profile) user id1)) (\<lambda>_.
         tbind (call_mock (lp_GetJobs P user ((tag_filter [tag])\<lparr>flt_Statuses := terminal_statuses\<rparr>) [])) (\<lambda>w.
         tseq (t_check (AssertNoError w))
           (t_all (map (\<lambda>j. t_check (\<not> TerminalStatus (job_Status j))) (mock_AllJobs w)))))),
       t_Run ''FilterByTagReturnsSubset'' (
         tbind (on_plugin (cf_GetJobs P user (tag_filter [tagA]))) (\<lambda>jobs.
         tseq (t_check (FindJobByID jobs id1 = None)) (t_check (FindJobByID jobs id2 \<noteq> None))))]))))"

definition RunWorkflows :: "'p launcher_plugin \<Rightarrow> string \<Rightarrow> Profile \<Rightarrow> ('p, unit) test" where
  "RunWorkflows P user profile0 =
     tseq (mustValidate profile0) (let profile = applyDefaults profile0 in
     t_Run ''Workflows'' (t_all
       [t_Run ''Launch'' (testLaunchWorkflow P user profile),
        t_Run ''Stop'' (RunStopJob P user \<lparr>so_Job = new_long_job profile user,
          so_ExpectStatus = pf_StopStatus profile, so_ExpectExitCodes = pf_StopExitCodes profile,
          so_Timeout = pf_JobStartTimeout profile\<rparr>),
        t_Run ''Kill'' (RunKillJob P user \<lparr>ko_Job = new_long_job profile user,
          ko_ExpectStatus = pf_KillStatus profile, ko_ExpectExitCodes = pf_KillExitCodes profile,
          ko_Timeout = pf_JobStartTimeout profile\<rparr>),
        t_Run ''Cancel'' (RunCancelJob P user \<lparr>cco_Job = new_long_job profile user,
          cco_Timeout = pf_JobStartTimeout profile\<rparr>),
        t_Run ''List'' (testListWorkflow P user profile),
        if pf_SuspendSupported profile then
          t_Run ''SuspendResume'' (RunSuspendResume P user \<lparr>sro_Job = new_long_job profile user,
            sro_Timeout = pf_JobStartTimeout profile\<rparr>)
        else tret ()]))"

end
