(* ===== verification/Conformance_Logic.thy ===== *)
theory Conformance_Logic
  imports Conformance_Suite
begin

text \<open>
  Reasoning about the conformance suite: what the wait loops return, what a passing scenario says
  of the plugin, where the suite itself panics, and a small Hoare logic in which a test is shown
  to pass with all its subtests.
\<close>

section \<open>Waiting\<close>

text \<open>
  The specification of the wait loops: the successive polls, which of them are decisive, and what
  a decisive one answers.
\<close>

definition poll_job :: "'p launcher_plugin \<Rightarrow> string \<Rightarrow> JobID \<Rightarrow> 'p \<Rightarrow> 'p \<times> Job option \<times> Error option" where
  "poll_job P user jid p = cf_GetJob P user jid [] (lp_elapse P defaultPollInterval p)"

definition polled :: "'p launcher_plugin \<Rightarrow> string \<Rightarrow> JobID \<Rightarrow> nat \<Rightarrow> 'p \<Rightarrow> 'p" where
  "polled P user jid k p = ((\<lambda>q. fst (poll_job P user jid q)) ^^ k) p"

definition reported :: "'p launcher_plugin \<Rightarrow> string \<Rightarrow> JobID \<Rightarrow> nat \<Rightarrow> 'p \<Rightarrow> Job option \<times> Error option" where
  "reported P user jid k p = snd (poll_job P user jid (polled P user jid k p))"

fun decisive :: "(string \<Rightarrow> bool) \<Rightarrow> Job option \<times> Error option \<Rightarrow> bool" where
  "decisive stops (Some j, None) = stops (job_Status j)"
| "decisive stops _ = True"

fun wait_answer :: "(string \<Rightarrow> bool) \<Rightarrow> Job option \<times> Error option \<Rightarrow> wait_error + Job" where
  "wait_answer good (job, Some e) = Inl (WaitAPI e)"
| "wait_answer good (None, None) = Inl WaitNoJob"
| "wait_answer good (Some j, None) = (if good (job_Status j) then Inr j else Inl (WaitTerminal (job_Status j)))"

definition stops_at :: "string \<Rightarrow> string \<Rightarrow> bool" where
  "stops_at status st \<longleftrightarrow> st = status \<or> (TerminalStatus st \<and> \<not> TerminalStatus status)"

lemma polled_simps [simp]:
  "polled P user jid 0 p = p"
  "polled P user jid (Suc k) p = polled P user jid k (fst (poll_job P user jid p))"
  by (simp_all add: polled_def funpow_Suc_right del: funpow.simps)

lemma polled_report_simps [simp]:
  "reported P user jid 0 p = snd (poll_job P user jid p)"
  "reported P user jid (Suc k) p = reported P user jid k (fst (poll_job P user jid p))"
  by (simp_all add: reported_def)

lemma upt_conv_Suc: "[0..<Suc n] = 0 # map Suc [0..<n]"
  by (simp add: upt_conv_Cons map_Suc_upt del: upt_Suc)

lemma find_map_Suc: "find c (map Suc xs) = map_option Suc (find (\<lambda>k. c (Suc k)) xs)"
  by (induction xs) auto

text \<open>The first decisive poll of both loops.\<close>

definition first_answer ::
  "(string \<Rightarrow> bool) \<Rightarrow> (string \<Rightarrow> bool) \<Rightarrow> nat \<Rightarrow> 'p launcher_plugin \<Rightarrow> string \<Rightarrow> JobID \<Rightarrow> 'p \<Rightarrow> 'p \<times> (wait_error + Job)" where
  "first_answer stops good n P user jid p =
     (case find (\<lambda>k. decisive stops (reported P user jid k p)) [0..<n] of
        None \<Rightarrow> (polled P user jid n p, Inl WaitTimeout)
      | Some k \<Rightarrow> (polled P user jid (Suc k) p, wait_answer good (reported P user jid k p)))"

lemma first_answer_simps [simp]:
  "first_answer stops good 0 P user jid p = (p, Inl WaitTimeout)"
  "first_answer stops good (Suc n) P user jid p = (case poll_job P user jid p of (p', r) \<Rightarrow>
     if decisive stops r then (p', wait_answer good r) else first_answer stops good n P user jid p')"
proof -
  show "first_answer stops good 0 P user jid p = (p, Inl WaitTimeout)" by (simp add: first_answer_def)
  show "first_answer stops good (Suc n) P user jid p = (case poll_job P user jid p of (p', r) \<Rightarrow>
     if decisive stops r then (p', wait_answer good r) else first_answer stops good n P user jid p')"
    by (cases "poll_job P user jid p")
      (simp add: first_answer_def upt_conv_Suc find_map_Suc del: upt_Suc split: option.split)
qed

lemma WaitForStatus_first:
  "WaitForStatus n P user jid status p = first_answer (stops_at status) (\<lambda>st. st = status) n P user jid p"
proof (induction n arbitrary: p)
  case (Suc n)
  obtain p' job err where "poll_job P user jid p = (p', job, err)" by (cases "poll_job P user jid p") auto
  then show ?case using Suc
    by (cases err; cases job) (auto simp: poll_job_def stops_at_def)
qed simp

lemma WaitForTerminalStatus_first:
  "WaitForTerminalStatus n P user jid p = first_answer TerminalStatus TerminalStatus n P user jid p"
proof (induction n arbitrary: p)
  case (Suc n)
  obtain p' job err where "poll_job P user jid p = (p', job, err)" by (cases "poll_job P user jid p") auto
  then show ?case using Suc by (cases err; cases job) (auto simp: poll_job_def)
qed simp

text \<open>
  C36: What the wait loops return, whatever the plugin does between and during the polls: the answer
  of the first decisive poll the context allows, and a timeout when there is none. A poll is
  decisive when the plugin reports an error or no job, or when the job has the awaited status; a
  job in another terminal status ends the wait only if the awaited status is not terminal. For
  \<^verbatim>\<open>WaitForTerminalStatus\<close> every terminal status is decisive.
\<close>

theorem wait_loops_answer:
  "WaitForStatus n P user jid status p =
     (case find (\<lambda>k. decisive (stops_at status) (reported P user jid k p)) [0..<n] of
        None \<Rightarrow> (polled P user jid n p, Inl WaitTimeout)
      | Some k \<Rightarrow> (polled P user jid (Suc k) p, wait_answer (\<lambda>st. st = status) (reported P user jid k p))) \<and>
   WaitForTerminalStatus n P user jid p =
     (case find (\<lambda>k. decisive TerminalStatus (reported P user jid k p)) [0..<n] of
        None \<Rightarrow> (polled P user jid n p, Inl WaitTimeout)
      | Some k \<Rightarrow> (polled P user jid (Suc k) p, wait_answer TerminalStatus (reported P user jid k p)))"
  by (simp add: WaitForStatus_first WaitForTerminalStatus_first first_answer_def)

text \<open>
  The comment of \<^verbatim>\<open>WaitForStatus\<close> promises an error when the job enters a terminal status that is not
  the expected one. A job that was finished while a cancellation was awaited is polled until the
  timeout.
\<close>

lemma WaitForStatus_polls_dead_job:
  assumes "\<And>k. k < n \<Longrightarrow> \<exists>j. reported P user jid k p = (Some j, None) \<and> TerminalStatus (job_Status j) \<and> job_Status j \<noteq> status"
    and "TerminalStatus status"
  shows "WaitForStatus n P user jid status p = (polled P user jid n p, Inl WaitTimeout)"
proof -
  have "\<not> decisive (stops_at status) (reported P user jid k p)" if "k < n" for k
    using assms(1) [OF that] assms(2) by (auto simp: stops_at_def)
  then have "find (\<lambda>k. decisive (stops_at status) (reported P user jid k p)) [0..<n] = None"
    by (auto simp: find_None_iff)
  then show ?thesis by (simp add: WaitForStatus_first first_answer_def)
qed


section \<open>Running tests\<close>

lemma tret_eq [simp]: "tret x s = (s, Returned x)"
  by (simp add: tret_def)

lemma on_plugin_eq [simp]:
  "on_plugin f s = (s\<lparr>ts_plugin := fst (f (ts_plugin s))\<rparr>, Returned (snd (f (ts_plugin s))))"
  by (simp add: on_plugin_def case_prod_beta)

lemma t_check_eq [simp]: "t_check bad s = (s\<lparr>ts_failed := (ts_failed s \<or> bad)\<rparr>, Returned ())"
  by (simp add: t_check_def t_Error_def)

lemma tbind_eq [simp]:
  "m s = (s', Returned x) \<Longrightarrow> tbind m f s = f x s'"
  "m s = (s', FailNow) \<Longrightarrow> tbind m f s = (s', FailNow)"
  "m s = (s', SkipNow) \<Longrightarrow> tbind m f s = (s', SkipNow)"
  "m s = (s', Panics e) \<Longrightarrow> tbind m f s = (s', Panics e)"
  "m s = (s', Hangs) \<Longrightarrow> tbind m f s = (s', Hangs)"
  by (simp_all add: tbind_def)

lemma tbind_returns:
  "tbind m f s = (s', Returned y) \<longleftrightarrow> (\<exists>s1 x. m s = (s1, Returned x) \<and> f x s1 = (s', Returned y))"
  by (cases "m s"; cases "snd (m s)") (auto simp: tbind_def)

lemma t_Fatal_never [simp]: "t_Fatal s \<noteq> (s', Returned x)"
  by (simp add: t_Fatal_def)

lemma cf_SubmitJob_returns:
  assumes "cf_SubmitJob P user job s = (s', Returned (jid, job'))"
  obtains p cs j js where "lp_SubmitJob P user job (ts_plugin s) = (p, job', cs)" "\<not> mock_HasError (mock_calls cs)"
    "mock_LastJobs (mock_calls cs) = Some (j # js)" "jid = job_ID j" "jid \<noteq> JobID ''''" "s' = s\<lparr>ts_plugin := p\<rparr>"
proof -
  obtain p job1 cs where sub: "lp_SubmitJob P user job (ts_plugin s) = (p, job1, cs)" by (metis surj_pair)
  with assms show thesis
    by (cases "mock_LastJobs (mock_calls cs)"; cases "nil_slice (mock_LastJobs (mock_calls cs))")
      (auto simp: cf_SubmitJob_def Let_def t_index_def nil_slice_def tbind_returns split: if_split_asm intro: that)
qed

lemma wait_answer_Inr: "wait_answer good r = Inr j \<longleftrightarrow> r = (Some j, None) \<and> good (job_Status j)"
  by (cases "(good, r)" rule: wait_answer.cases) auto

lemma first_answer_Inr:
  assumes "first_answer stops good n P user jid p = (p', Inr j)"
  obtains k where "k < n" "p' = polled P user jid (Suc k) p" "reported P user jid k p = (Some j, None)" "good (job_Status j)"
  using assms by (auto simp: first_answer_def wait_answer_Inr find_Some_iff simp del: polled_simps split: option.splits)

text \<open>
  What the plugin has shown when a kill scenario passes: it accepted the job under a non-empty ID,
  reported it running, accepted the control operation, and then reported the job ended, with the
  expected status and one of the acceptable exit codes.
\<close>

definition shows_end :: "'p launcher_plugin \<Rightarrow> string \<Rightarrow> JobID \<Rightarrow> JobOperation \<Rightarrow> string \<Rightarrow> int list \<Rightarrow> 'p \<Rightarrow> bool" where
  "shows_end P user jid op expect codes p \<longleftrightarrow>
     (\<exists>p' res k j. cf_ControlJob P user jid op p = (p', res, None) \<and> reported P user jid k p' = (Some j, None) \<and>
        TerminalStatus (job_Status j) \<and> job_Status j = expect \<and>
        (codes = [] \<or> (\<exists>c. job_ExitCode j = Some c \<and> c \<in> set codes)))"

definition shows_running :: "'p launcher_plugin \<Rightarrow> string \<Rightarrow> Job \<Rightarrow> 'p \<Rightarrow> JobID \<Rightarrow> 'p \<Rightarrow> bool" where
  "shows_running P user job p jid q \<longleftrightarrow>
     (\<exists>p1 job' cs j js k run. lp_SubmitJob P user job p = (p1, job', cs) \<and> \<not> mock_HasError (mock_calls cs) \<and>
        mock_LastJobs (mock_calls cs) = Some (j # js) \<and> job_ID j = jid \<and> jid \<noteq> JobID '''' \<and>
        q = polled P user jid (Suc k) p1 \<and> reported P user jid k p1 = (Some run, None) \<and>
        job_Status run = StatusRunning)"

lemma exit_loop_iff: "exit_loop c codes \<longleftrightarrow> c \<in> set codes"
  by (induction codes) auto

lemma assertExitCode_eq [simp]: "assertExitCode j codes s = (s\<lparr>ts_failed := (ts_failed s \<or>
    \<not> (codes = [] \<or> (\<exists>c. job_ExitCode j = Some c \<and> c \<in> set codes)))\<rparr>, Returned ())"
  by (auto simp: assertExitCode_def t_Error_def exit_loop_iff split: option.split)

lemma control_and_check_sound:
  assumes "control_and_check P user jid op timeout expect codes s = (s', Returned ())" "\<not> ts_failed s'"
  shows "shows_end P user jid op expect codes (ts_plugin s)"
proof -
  obtain p1 res err where ctl: "cf_ControlJob P user jid op (ts_plugin s) = (p1, res, err)" by (metis surj_pair)
  obtain p2 out where out: "wait_terminal P timeout user jid p1 = (p2, out)" by (metis surj_pair)
  from assms(1) have err: "err = None" and "\<exists>j. out = Inr j"
    by (auto simp: control_and_check_def tbind_returns ctl out split: if_split_asm sum.split_asm)
  then obtain j where j: "out = Inr j" by blast
  from assms have fin: "job_Status j = expect" "codes = [] \<or> (\<exists>c. job_ExitCode j = Some c \<and> c \<in> set codes)"
    by (auto simp: control_and_check_def tbind_returns ctl out j err)
  from out [unfolded j wait_terminal_def WaitForTerminalStatus_first] obtain k
    where "reported P user jid k p1 = (Some j, None)" "TerminalStatus (job_Status j)" by (rule first_answer_Inr)
  with ctl err fin show ?thesis unfolding shows_end_def by blast
qed

lemma wait_status_sound:
  assumes "wait_status P timeout user jid status p = (p', Inr j)"
  obtains k where "p' = polled P user jid (Suc k) p" "reported P user jid k p = (Some j, None)" "job_Status j = status"
  using assms unfolding wait_status_def WaitForStatus_first by (rule first_answer_Inr)

lemma RunKillJob_shows:
  assumes "passes (RunKillJob P user opts) p"
  shows "\<exists>jid q. shows_running P user (ko_Job opts) p jid q \<and>
    shows_end P user jid OperationKill (ko_ExpectStatus opts) (ko_ExpectExitCodes opts) q"
proof -
  define s0 where "s0 = \<lparr>ts_plugin = p, ts_failed = False, ts_results = []\<rparr>"
  let ?timeout = "defaultTimeout (ko_Timeout opts) (ms 30000)"
  from assms obtain s where run: "RunKillJob P user opts s0 = (s, Returned ())" "\<not> ts_failed s"
    by (auto simp: passes_def run_test_def s0_def split: prod.split_asm)
  from run(1) obtain s1 jid job' where sub: "cf_SubmitJob P user (ko_Job opts) s0 = (s1, Returned (jid, job'))"
    and rest: "tbind (on_plugin (wait_status P ?timeout user jid StatusRunning)) (\<lambda>res.
      case res of Inl err \<Rightarrow> t_Fatal | Inr _ \<Rightarrow> control_and_check P user jid OperationKill ?timeout
        (ko_ExpectStatus opts) (ko_ExpectExitCodes opts)) s1 = (s, Returned ())"
    by (auto simp: RunKillJob_def Let_def tbind_returns [of "cf_SubmitJob P user (ko_Job opts)"])
  obtain p2 out where out: "wait_status P ?timeout user jid StatusRunning (ts_plugin s1) = (p2, out)" by (metis surj_pair)
  with rest obtain j where j: "out = Inr j" by (cases out) auto
  with rest out have "control_and_check P user jid OperationKill ?timeout (ko_ExpectStatus opts) (ko_ExpectExitCodes opts)
      (s1\<lparr>ts_plugin := p2\<rparr>) = (s, Returned ())" by simp
  from control_and_check_sound [OF this run(2)]
  have fin: "shows_end P user jid OperationKill (ko_ExpectStatus opts) (ko_ExpectExitCodes opts) p2" by simp
  from out j obtain k where k: "p2 = polled P user jid (Suc k) (ts_plugin s1)"
    "reported P user jid k (ts_plugin s1) = (Some j, None)" "job_Status j = StatusRunning"
    using wait_status_sound by metis
  from sub obtain p1 cs j1 js where "lp_SubmitJob P user (ko_Job opts) p = (p1, job', cs)" "\<not> mock_HasError (mock_calls cs)"
    "mock_LastJobs (mock_calls cs) = Some (j1 # js)" "jid = job_ID j1" "jid \<noteq> JobID ''''" "ts_plugin s1 = p1"
    by (rule cf_SubmitJob_returns) (auto simp: s0_def)
  with k have "shows_running P user (ko_Job opts) p jid p2" unfolding shows_running_def by (metis (no_types, lifting))
  with fin show ?thesis by blast
qed


section \<open>Where the suite panics\<close>

lemma t_Run_panics:
  assumes "\<And>s. ts_plugin s = p \<Longrightarrow> \<exists>s'. body s = (s', Panics e)" "ts_plugin s = p"
  shows "\<exists>s'. t_Run name body s = (s', Panics e)"
proof -
  obtain s' where "body (s\<lparr>ts_failed := False, ts_results := []\<rparr>) = (s', Panics e)"
    using assms(1) [of "s\<lparr>ts_failed := False, ts_results := []\<rparr>"] assms(2) by auto
  then show ?thesis by (simp add: t_Run_def Let_def)
qed

lemma t_all_panics:
  assumes "\<exists>s'. m s = (s', Panics e)"
  shows "\<exists>s'. t_all (m # rest) s = (s', Panics e)"
  using assms by (auto simp: tbind_def)

text \<open>
  C37: The invariant tests do not survive a plugin that rejects the first job: the assertions report
  the error and go on, and the next line indexes the first of no jobs. The run then ends in a
  panic, with every later test unrun, instead of a failed test.
\<close>

theorem conf_Run_panics:
  assumes "missing_fields profile = []"
    and "lp_SubmitJob P user (the (pf_JobFactory profile) user) p = (p', job', [CError err])"
  shows "snd (run_test (conf_Run P user profile) p) = Panics IndexOutOfRange"
proof -
  let ?profile = "applyDefaults profile"
  have factory: "new_job ?profile user = the (pf_JobFactory profile) user"
    by (simp add: new_job_def applyDefaults_def Let_def)
  have empty: "mock_LastJobs (mock_calls [CError err]) = None"
    by (simp add: mock_LastJobs_def mock_calls_def mock_WriteError_def NewMockStreamResponseWriter_def)
  have "\<exists>s'. testSubmitInvariants P user ?profile s = (s', Panics IndexOutOfRange)" if "ts_plugin s = p" for s
    unfolding testSubmitInvariants_def
  proof (rule t_all_panics, rule t_Run_panics [where p = p])
    fix s :: "'a test_state"
    assume "ts_plugin s = p"
    then show "\<exists>s'. tbind (submit_mock P user (new_job ?profile user)) (\<lambda>w.
       tseq (t_check (AssertNoError w)) (tseq (t_check (AssertJobCount w 1)) (
       tbind (first_job w) (\<lambda>submitted. t_check (job_ID submitted = JobID ''''))))) s = (s', Panics IndexOutOfRange)"
      by (simp add: submit_mock_def factory assms(2) first_job_def empty nil_slice_def t_index_def t_panic_def)
  qed (rule that)
  then have submit: "\<exists>s'. t_Run ''Submit'' (testSubmitInvariants P user ?profile) s = (s', Panics IndexOutOfRange)"
    if "ts_plugin s = p" for s
    using that by (rule t_Run_panics [where p = p])
  have "\<exists>s'. conf_Run P user profile s = (s', Panics IndexOutOfRange)" if "ts_plugin s = p" for s
  proof -
    have valid: "mustValidate profile s = (s, Returned ())" by (simp add: mustValidate_def assms(1))
    have "\<exists>s'. t_Run ''Invariants'' (t_all (t_Run ''Submit'' (testSubmitInvariants P user ?profile) # rest)) s =
        (s', Panics IndexOutOfRange)" for rest
      by (rule t_Run_panics [OF _ that], rule t_all_panics, rule submit)
    then show ?thesis unfolding conf_Run_def Let_def tbind_eq(1) [where m = "mustValidate profile", OF valid] .
  qed
  then obtain s' where "run_test (conf_Run P user profile) p = (s', Panics IndexOutOfRange)"
    unfolding run_test_def by fastforce
  then show ?thesis by simp
qed

text \<open>A plugin that rejects every job, and a profile for it.\<close>

definition rejecting_plugin :: "unit launcher_plugin" where
  "rejecting_plugin = \<lparr>lp_SubmitJob = (\<lambda>user job p. (p, job, [CError (EApi ErrInvalidJobState)])),
     lp_GetJob = (\<lambda>user jid flds p. (p, [CError (EApi ErrJobNotFound)])), lp_GetJobs = (\<lambda>user flt flds p. (p, [])),
     lp_ControlJob = (\<lambda>user jid op opts p. (p, [CError (EApi ErrJobNotFound)])),
     lp_GetJobNetwork = (\<lambda>user jid p. (p, [CError (EApi ErrJobNotFound)])), lp_ClusterInfo = (\<lambda>user p. (p, [])),
     lp_Metrics = None, lp_open = (\<lambda>k user t p. (p, 0)), lp_written = (\<lambda>h p. []), lp_cancel = (\<lambda>h p. p),
     lp_await = (\<lambda>h t p. (p, True)), lp_elapse = (\<lambda>d p. p), lp_rounds = (\<lambda>i t p. 0), lp_now = (\<lambda>p. 0)\<rparr>"

definition local_profile :: "(string \<Rightarrow> Job) \<Rightarrow> (string \<Rightarrow> Job) \<Rightarrow> Profile" where
  "local_profile quick long = \<lparr>pf_JobFactory = Some quick, pf_LongRunningJob = Some long,
     pf_StopStatus = StatusFinished, pf_StopExitCodes = [143], pf_KillStatus = StatusKilled, pf_KillExitCodes = [137],
     pf_OutputAvailable = True, pf_SuspendSupported = False, pf_NetworkAvailable = True, pf_PollInterval = 0,
     pf_JobStartTimeout = 0, pf_JobCompleteTimeout = 0, pf_OutputTimeout = 0\<rparr>"

theorem conf_Run_panics_witness:
  "snd (run_test (conf_Run rejecting_plugin ''u'' (local_profile (\<lambda>u. zero_Job) (\<lambda>u. zero_Job))) ()) = Panics IndexOutOfRange"
  by (rule conf_Run_panics) (simp_all add: missing_fields_def local_profile_def rejecting_plugin_def
      StatusFinished_def StatusKilled_def)


section \<open>Passing tests\<close>

text \<open>
  \<open>goes m p Q\<close>: started on the plugin \<open>p\<close> without a failure so far, the test \<open>m\<close> comes to its end
  without one, all the subtests it ran have passed (none was skipped), and the result and the plugin
  satisfy \<open>Q\<close>. The rules below compute it along the structure of the test.
\<close>

definition goes :: "('p, 'a) test \<Rightarrow> 'p \<Rightarrow> ('a \<Rightarrow> 'p \<Rightarrow> bool) \<Rightarrow> bool" where
  "goes m p Q \<longleftrightarrow> (\<forall>s. ts_plugin s = p \<and> \<not> ts_failed s \<longrightarrow>
     (\<exists>s' x rs. m s = (s', Returned x) \<and> \<not> ts_failed s' \<and> ts_results s' = ts_results s @ rs \<and>
        list_all (\<lambda>(_, v). v = Passed) rs \<and> Q x (ts_plugin s')))"

named_theorems goes_rules \<open>rules for passing tests\<close>

lemma goesI:
  assumes "\<And>s. ts_plugin s = p \<Longrightarrow> \<not> ts_failed s \<Longrightarrow> \<exists>s' x rs. m s = (s', Returned x) \<and> \<not> ts_failed s' \<and>
    ts_results s' = ts_results s @ rs \<and> list_all (\<lambda>(_, v). v = Passed) rs \<and> Q x (ts_plugin s')"
  shows "goes m p Q"
  using assms by (simp add: goes_def)

lemma goesE:
  assumes "goes m p Q" "ts_plugin s = p" "\<not> ts_failed s"
  obtains s' x rs where "m s = (s', Returned x)" "\<not> ts_failed s'" "ts_results s' = ts_results s @ rs"
    "list_all (\<lambda>(_, v). v = Passed) rs" "Q x (ts_plugin s')"
  using assms unfolding goes_def by blast

lemma goes_ret [goes_rules]: "Q x p \<Longrightarrow> goes (tret x) p Q"
  by (rule goesI) auto

lemma goes_check [goes_rules]: "\<not> bad \<Longrightarrow> Q () p \<Longrightarrow> goes (t_check bad) p Q"
  by (rule goesI) (auto simp: exI [of _ "[]"])

lemma goes_on: "(\<And>q x. f p = (q, x) \<Longrightarrow> Q x q) \<Longrightarrow> goes (on_plugin f) p Q"
  by (rule goesI) (auto simp: exI [of _ "[]"])

lemma goes_bind [goes_rules]:
  assumes "goes m p (\<lambda>x q. goes (f x) q Q)"
  shows "goes (tbind m f) p Q"
proof (rule goesI)
  fix s :: "'a test_state"
  assume "ts_plugin s = p" "\<not> ts_failed s"
  from assms this obtain s1 x rs where m: "m s = (s1, Returned x)" "\<not> ts_failed s1" "ts_results s1 = ts_results s @ rs"
    "list_all (\<lambda>(_, v). v = Passed) rs" "goes (f x) (ts_plugin s1) Q" by (rule goesE)
  from m(5) refl m(2) obtain s2 y rs' where f: "f x s1 = (s2, Returned y)" "\<not> ts_failed s2" "ts_results s2 = ts_results s1 @ rs'"
    "list_all (\<lambda>(_, v). v = Passed) rs'" "Q y (ts_plugin s2)" by (rule goesE)
  show "\<exists>s' x rs. tbind m f s = (s', Returned x) \<and> \<not> ts_failed s' \<and> ts_results s' = ts_results s @ rs \<and>
      list_all (\<lambda>(_, v). v = Passed) rs \<and> Q x (ts_plugin s')"
    using m f by (intro exI [of _ s2] exI [of _ y] exI [of _ "rs @ rs'"]) simp
qed

lemma goes_Run [goes_rules]:
  assumes "goes body p (\<lambda>_. Q ())"
  shows "goes (t_Run name body) p Q"
proof (rule goesI)
  fix s :: "'a test_state"
  let ?s0 = "s\<lparr>ts_failed := False, ts_results := []\<rparr>"
  assume s: "ts_plugin s = p" "\<not> ts_failed s"
  then have "ts_plugin ?s0 = p" "\<not> ts_failed ?s0" by simp_all
  from assms this obtain s1 x rs where b: "body ?s0 = (s1, Returned x)" "\<not> ts_failed s1"
    "ts_results s1 = ts_results ?s0 @ rs" "list_all (\<lambda>(_, v). v = Passed) rs" "Q () (ts_plugin s1)"
    by (rule goesE)
  let ?rs = "map (\<lambda>(path, v). (name # path, v)) rs @ [([name], Passed)]"
  show "\<exists>s' x rs. t_Run name body s = (s', Returned x) \<and> \<not> ts_failed s' \<and> ts_results s' = ts_results s @ rs \<and>
      list_all (\<lambda>(_, v). v = Passed) rs \<and> Q x (ts_plugin s')"
    using b s(2) by (intro exI [of _ "s1\<lparr>ts_failed := False, ts_results := ts_results s @ ?rs\<rparr>"] exI [of _ "()"] exI [of _ ?rs])
      (simp add: t_Run_def Let_def verdict_of_def list_all_iff split_beta)
qed

lemma goes_finally [goes_rules]:
  assumes "goes m p (\<lambda>x q. goes cleanup q (\<lambda>_. Q x))"
  shows "goes (t_finally m cleanup) p Q"
proof (rule goesI)
  fix s :: "'a test_state"
  assume "ts_plugin s = p" "\<not> ts_failed s"
  from assms this obtain s1 x rs where m: "m s = (s1, Returned x)" "\<not> ts_failed s1" "ts_results s1 = ts_results s @ rs"
    "list_all (\<lambda>(_, v). v = Passed) rs" "goes cleanup (ts_plugin s1) (\<lambda>_. Q x)" by (rule goesE)
  from m(5) refl m(2) obtain s2 y rs' where f: "cleanup s1 = (s2, Returned y)" "\<not> ts_failed s2" "ts_results s2 = ts_results s1 @ rs'"
    "list_all (\<lambda>(_, v). v = Passed) rs'" "Q x (ts_plugin s2)" by (rule goesE)
  show "\<exists>s' x rs. t_finally m cleanup s = (s', Returned x) \<and> \<not> ts_failed s' \<and> ts_results s' = ts_results s @ rs \<and>
      list_all (\<lambda>(_, v). v = Passed) rs \<and> Q x (ts_plugin s')"
    using m f by (intro exI [of _ s2] exI [of _ x] exI [of _ "rs @ rs'"]) (simp add: t_finally_def)
qed

lemma goes_mono: "goes m p Q \<Longrightarrow> (\<And>x q. Q x q \<Longrightarrow> R x q) \<Longrightarrow> goes m p R"
  by (rule goesI, erule goesE) auto

lemma goes_index: "i < length xs \<Longrightarrow> Q (xs ! i) p \<Longrightarrow> goes (t_index xs i) p Q"
  by (simp add: t_index_def goes_ret)

lemma goes_deref: "Q x p \<Longrightarrow> goes (t_deref (Some x)) p Q"
  by (simp add: t_deref_def goes_ret)

lemma goes_all_Nil [goes_rules]: "Q () p \<Longrightarrow> goes (t_all []) p Q"
  by (simp add: goes_ret)

lemma goes_all_Cons [goes_rules]: "goes m p (\<lambda>_ q. goes (t_all rest) q Q) \<Longrightarrow> goes (t_all (m # rest)) p Q"
  by (simp add: goes_bind)

lemma goes_cases [goes_rules]:
  "goes (f a b) p Q \<Longrightarrow> goes (case (a, b) of (x, y) \<Rightarrow> f x y) p Q"
  "\<not> c \<Longrightarrow> goes m2 p Q \<Longrightarrow> goes (if c then m1 else m2) p Q"
  "goes (g b) p Q \<Longrightarrow> goes (case Inr b of Inl x \<Rightarrow> h x | Inr y \<Rightarrow> g y) p Q"
  "goes (g b) p Q \<Longrightarrow> goes (case Some b of None \<Rightarrow> m1 | Some y \<Rightarrow> g y) p Q"
  by simp_all

text \<open>A loop of checks that leave the plugin alone.\<close>

lemma goes_all_map:
  assumes "\<And>x. x \<in> set xs \<Longrightarrow> goes (f x) p (\<lambda>_ q. q = p)" "Q () p"
  shows "goes (t_all (map f xs)) p Q"
  using assms
proof (induction xs)
  case (Cons x xs)
  have "goes (f x) p (\<lambda>_ q. q = p)" by (rule Cons.prems) simp
  moreover have "goes (t_all (map f xs)) p Q" using Cons by simp
  ultimately show ?case by (auto intro: goes_bind goes_mono)
qed (simp add: goes_ret)

lemma goes_passes:
  assumes "goes m p (\<lambda>_ _. True)"
  shows "passes m p \<and> list_all (\<lambda>(_, v). v = Passed) (ts_results (fst (run_test m p)))"
proof -
  let ?s = "\<lparr>ts_plugin = p, ts_failed = False, ts_results = []\<rparr>"
  have "ts_plugin ?s = p" "\<not> ts_failed ?s" by simp_all
  with assms obtain s' x rs where "m ?s = (s', Returned x)" "\<not> ts_failed s'" "ts_results s' = ts_results ?s @ rs"
    "list_all (\<lambda>(_, v). v = Passed) rs" by (rule goesE)
  then show ?thesis by (simp add: passes_def run_test_def)
qed

end
