(* ===== verification/Conformance_Laws.thy ===== *)
theory Conformance_Laws
  imports Conformance_Logic
begin

text \<open>
  What a plugin has to keep for the conformance suite to pass: the laws of its methods on the jobs the
  test user can see, stated as a locale, and the proof that the invariant tests and the workflows
  pass on every plugin that keeps them.
\<close>

text \<open>What a plugin keeps of a job it accepted, and of a job in the course of time.\<close>

definition kept :: "Job \<Rightarrow> Job \<Rightarrow> bool" where
  "kept j j' \<longleftrightarrow> job_ID j' = job_ID j \<and> job_Name j' = job_Name j \<and> job_Tags j' = job_Tags j"

definition accepted :: "Job \<Rightarrow> Job \<Rightarrow> bool" where
  "accepted job j \<longleftrightarrow> job_Status j = StatusPending \<and> job_Submitted j \<noteq> None \<and>
     job_Name j = job_Name job \<and> job_Tags j = job_Tags job"

definition ages :: "Job \<Rightarrow> Job \<Rightarrow> bool" where
  "ages j j' \<longleftrightarrow> kept j j' \<and>
     (TerminalStatus (job_Status j) \<longrightarrow> job_Status j' = job_Status j \<and> job_ExitCode j' = job_ExitCode j)"

lemma pending_not_running [simp]: "StatusPending \<noteq> StatusRunning" "StatusRunning \<noteq> StatusPending"
  by (simp_all add: api_defs)

text \<open>
  A profile fit for the suite: complete, with the default timeouts, factories whose jobs carry no tags
  of the suite's own, and the outcomes the plugin promises.
\<close>

definition own_tag :: "string \<Rightarrow> bool" where
  "own_tag t \<longleftrightarrow> prefix ''conformance-'' t"

definition suite_profile ::
  "(string list \<Rightarrow> bool) \<Rightarrow> string \<Rightarrow> string \<Rightarrow> int \<Rightarrow> string \<Rightarrow> int \<Rightarrow> Profile \<Rightarrow> bool" where
  "suite_profile brief user stop_status stop_code kill_status kill_code p \<longleftrightarrow>
     missing_fields p = [] \<and> pf_PollInterval p = 0 \<and> pf_JobStartTimeout p = 0 \<and> pf_JobCompleteTimeout p = 0 \<and>
     pf_OutputTimeout p = 0 \<and> \<not> pf_SuspendSupported p \<and>
     brief (job_Tags (new_job p user)) \<and> \<not> brief (job_Tags (new_long_job p user)) \<and>
     list_all (\<lambda>t. \<not> own_tag t) (job_Tags (new_job p user)) \<and>
     list_all (\<lambda>t. \<not> own_tag t) (job_Tags (new_long_job p user)) \<and>
     pf_StopStatus p = stop_status \<and> stop_code \<in> set (pf_StopExitCodes p) \<and>
     pf_KillStatus p = kill_status \<and> kill_code \<in> set (pf_KillExitCodes p)"

lemma applyDefaults_suite:
  assumes "suite_profile brief user ss sc ks kc p"
  shows "new_job (applyDefaults p) user = new_job p user" "new_long_job (applyDefaults p) user = new_long_job p user"
    "pf_PollInterval (applyDefaults p) = ms 50" "pf_JobStartTimeout (applyDefaults p) = ms 30000"
    "pf_JobCompleteTimeout (applyDefaults p) = ms 60000" "pf_OutputTimeout (applyDefaults p) = ms 10000"
    "\<not> pf_SuspendSupported (applyDefaults p)" "pf_StopStatus (applyDefaults p) = ss" "sc \<in> set (pf_StopExitCodes (applyDefaults p))"
    "pf_KillStatus (applyDefaults p) = ks" "kc \<in> set (pf_KillExitCodes (applyDefaults p))"
  using assms by (simp_all add: suite_profile_def applyDefaults_def new_job_def new_long_job_def Let_def)

lemma goes_mustValidate: "missing_fields prof = [] \<Longrightarrow> Q () p \<Longrightarrow> goes (mustValidate prof) p Q"
  by (simp add: mustValidate_def goes_ret)

lemma goes_when: "goes m p Q \<Longrightarrow> Q () p \<Longrightarrow> goes (if c then m else tret ()) p Q"
  by (simp add: goes_ret)

lemma poll_until_found:
  assumes "k \<le> n" "c ((lp_elapse P d ^^ k) p)"
  obtains m where "poll_until n P d c p = ((lp_elapse P d ^^ m) p, True)"
  using assms
proof (induction n arbitrary: k p thesis)
  case 0
  then show ?case by (metis funpow_0 le_zero_eq poll_until.simps(1))
next
  case (Suc n)
  show ?case
  proof (cases "c p")
    case True
    then show ?thesis using Suc.prems(1) [of 0] by simp
  next
    case False
    then obtain k' where k: "k = Suc k'" using Suc.prems(3) by (cases k) auto
    then have "k' \<le> n" "c ((lp_elapse P d ^^ k') (lp_elapse P d p))" using Suc.prems by (simp_all add: funpow_swap1)
    then obtain m where "poll_until n P d c (lp_elapse P d p) = ((lp_elapse P d ^^ m) (lp_elapse P d p), True)"
      using Suc.IH by blast
    then show ?thesis using False Suc.prems(1) [of "Suc m"] by (simp add: funpow_swap1)
  qed
qed

text \<open>Searching and filtering.\<close>

lemma FindJobByID_None: "FindJobByID js i = None \<longleftrightarrow> (\<forall>j\<in>set js. job_ID j \<noteq> i)"
  by (induction js) auto

lemma two_members: "a \<in> set xs \<Longrightarrow> b \<in> set xs \<Longrightarrow> a \<noteq> b \<Longrightarrow> \<not> length xs < 2"
  by (cases xs; cases "tl xs") auto

lemma tag_filter_matches: "filter_matches (tag_filter ts) j \<longleftrightarrow> set ts \<subseteq> set (job_Tags j)"
  by (simp add: filter_matches_def tag_filter_def zero_JobFilter_def)

lemma tag_filter_simps [simp]:
  "\<not> filter_timed (tag_filter ts)" "flt_Fields (tag_filter ts) = []"
  "\<not> filter_timed (zero_JobFilter\<lparr>flt_Statuses := ss\<rparr>)" "flt_Fields (zero_JobFilter\<lparr>flt_Statuses := ss\<rparr>) = []"
  "\<not> filter_timed ((tag_filter ts)\<lparr>flt_Statuses := ss\<rparr>)" "flt_Fields ((tag_filter ts)\<lparr>flt_Statuses := ss\<rparr>) = []"
  by (simp_all add: filter_timed_def tag_filter_def zero_JobFilter_def)

lemma add_tags_simps [simp]: "job_Tags (add_tags ts job) = job_Tags job @ ts"
  by (simp add: add_tags_def)

text \<open>What the mock writer shows of a single call.\<close>

lemma mock_single [simp]:
  "mock_HasError (mock_calls [CJobs js]) = False" "mock_LastJobs (mock_calls [CJobs js]) = js"
  "mock_AllJobs (mock_calls [CJobs js]) = nil_slice js"
  "mock_HasError (mock_calls [CError e]) = True" "mock_LastError (mock_calls [CError (EApi err)]) = Some err"
  "mock_Errors (mock_calls [CError (EApi err)]) = [err]"
  "mock_HasError (mock_calls [CControlJob b m]) = False"
  "mock_ControlResults (mock_calls [CControlJob b m]) = [\<lparr>ctl_Complete = b, ctl_Message = m\<rparr>]"
  "mock_HasError (mock_calls [CJobNetwork h a]) = False" "mock_HasError (mock_calls [CClusterInfo info]) = False"
  "mk_clusterInfo (mock_calls [CClusterInfo info]) = Some info"
  by (simp_all add: mock_calls_def mock_defs mock_HasError_def mock_LastJobs_def mock_AllJobs_def nil_slice_def
      mock_LastError_def mock_Errors_def mock_ControlResults_def NewMockStreamResponseWriter_def)

lemma no_error_check [simp]: "AssertNoError w \<longleftrightarrow> mock_HasError w"
  by (simp add: AssertNoError_def mock_HasError_def)

lemma not_found_check [simp]: "err_Code e = c \<Longrightarrow> \<not> AssertErrorCode (mock_calls [CError (EApi e)]) c"
  by (simp add: AssertErrorCode_def mock_calls_def mock_defs mock_HasError_def NewMockStreamResponseWriter_def)

text \<open>
  \<open>ok n p\<close> is the invariant, with room for \<open>n\<close> more submissions; \<open>jobs\<close> are the jobs of the user;
  \<open>brief\<close> tells from its tags whether a job ends by itself. The polls are turns of the wait
  loops, 50 milliseconds apart.
\<close>

locale conforming_plugin =
  fixes P :: "'p launcher_plugin" and user :: string
    and ok :: "nat \<Rightarrow> 'p \<Rightarrow> bool" and jobs :: "'p \<Rightarrow> JobID \<Rightarrow> Job option"
    and brief :: "string list \<Rightarrow> bool"
    and start_polls complete_polls output_polls :: nat
    and stop_status kill_status :: string and stop_code kill_code :: int
  assumes submit: "ok (Suc n) p \<Longrightarrow> \<exists>p' job' j. lp_SubmitJob P user job p = (p', job', [CJobs (Some [j])]) \<and>
      ok n p' \<and> accepted job j \<and> jobs p (job_ID j) = None \<and> jobs p' = (jobs p)(job_ID j \<mapsto> j)"
    and ids: "ok n p \<Longrightarrow> jobs p i = Some j \<Longrightarrow>
      job_ID j = i \<and> i \<noteq> JobID '''' \<and> \<not> prefix ''nonexistent-'' (id_str i)"
    and get: "ok n p \<Longrightarrow> jobs p i = Some j \<Longrightarrow> lp_GetJob P user i flds p = (p, [CJobs (Some [j])])"
    and get_missing: "ok n p \<Longrightarrow> jobs p i = None \<Longrightarrow>
      \<exists>e. err_Code e = CodeJobNotFound \<and> lp_GetJob P user i flds p = (p, [CError (EApi e)])"
    and list_jobs: "ok n p \<Longrightarrow> \<not> filter_timed flt \<Longrightarrow> flt_Fields flt = [] \<Longrightarrow>
      \<exists>js. lp_GetJobs P user flt [] p = (p, [CJobs (Some js)]) \<and>
        set js = {j. \<exists>i. jobs p i = Some j \<and> filter_matches flt j}"
    and control_missing: "ok n p \<Longrightarrow> jobs p i = None \<Longrightarrow>
      \<exists>p' e. lp_ControlJob P user i op no_options p = (p', [CError e]) \<and> ok n p' \<and> jobs p' = jobs p"
    and stop: "ok n p \<Longrightarrow> jobs p i = Some j \<Longrightarrow> job_Status j = StatusRunning \<Longrightarrow>
      \<exists>p' b m j'. lp_ControlJob P user i OperationStop no_options p = (p', [CControlJob b m]) \<and> ok n p' \<and>
        kept j j' \<and> job_Status j' = stop_status \<and> job_ExitCode j' = Some stop_code \<and> jobs p' = (jobs p)(i \<mapsto> j')"
    and kill: "ok n p \<Longrightarrow> jobs p i = Some j \<Longrightarrow> job_Status j = StatusRunning \<Longrightarrow>
      \<exists>p' b m j'. lp_ControlJob P user i OperationKill no_options p = (p', [CControlJob b m]) \<and> ok n p' \<and>
        kept j j' \<and> job_Status j' = kill_status \<and> job_ExitCode j' = Some kill_code \<and> jobs p' = (jobs p)(i \<mapsto> j')"
    and cancel: "ok n p \<Longrightarrow> jobs p i = Some j \<Longrightarrow> job_Status j = StatusPending \<Longrightarrow>
      \<exists>p' b m j'. lp_ControlJob P user i OperationCancel no_options p = (p', [CControlJob b m]) \<and> ok n p' \<and>
        kept j j' \<and> job_Status j' = StatusCanceled \<and> jobs p' = (jobs p)(i \<mapsto> j')"
    and ends: "TerminalStatus stop_status" "TerminalStatus kill_status"
    and elapse: "ok n p \<Longrightarrow> 0 < d \<Longrightarrow>
      ok n (lp_elapse P d p) \<and> rel_option ages (jobs p i) (jobs (lp_elapse P d p) i)"
    and starts: "ok n p \<Longrightarrow> jobs p i = Some j \<Longrightarrow> job_Status j = StatusPending \<Longrightarrow>
      \<exists>k < start_polls. map_option job_Status (jobs ((lp_elapse P defaultPollInterval ^^ Suc k) p) i) = Some StatusRunning \<and>
        (\<forall>m<k. map_option job_Status (jobs ((lp_elapse P defaultPollInterval ^^ Suc m) p) i) = Some StatusPending)"
    and completes: "ok n p \<Longrightarrow> jobs p i = Some j \<Longrightarrow> brief (job_Tags j) \<Longrightarrow>
      \<exists>k < complete_polls. \<exists>j'. jobs ((lp_elapse P defaultPollInterval ^^ Suc k) p) i = Some j' \<and> TerminalStatus (job_Status j')"
    and stays: "ok n p \<Longrightarrow> jobs p i = Some j \<Longrightarrow> \<not> brief (job_Tags j) \<Longrightarrow> job_Status j = StatusRunning \<Longrightarrow>
      0 < d \<Longrightarrow> map_option job_Status (jobs (lp_elapse P d p) i) = Some StatusRunning"
    and brief_tags: "(\<And>t. t \<in> set us \<Longrightarrow> prefix ''conformance-'' t) \<Longrightarrow> brief (ts @ us) = brief ts"
    and network: "ok n p \<Longrightarrow> jobs p i = Some j \<Longrightarrow> \<exists>h a. lp_GetJobNetwork P user i p = (p, [CJobNetwork h a])"
    and cluster: "ok n p \<Longrightarrow> \<exists>info. lp_ClusterInfo P user p = (p, [CClusterInfo info]) \<and>
      (\<forall>l\<in>set (nil_slice (co_Limits info)). rl_Type l \<noteq> '''')"
    and open_status: "ok n p \<Longrightarrow> \<exists>p' h. lp_open P StatusStream user t p = (p', h) \<and> ok n p' \<and> jobs p' = jobs p"
    and open_output: "ok n p \<Longrightarrow> jobs p i = Some j \<Longrightarrow>
      \<exists>p' h k. lp_open P (OutputStream i OutputStdout) user (Some (ms 10000)) p = (p', h) \<and> ok n p' \<and> jobs p' = jobs p \<and>
        k \<le> output_polls \<and> mock_OutputCount (stream_writer P h ((lp_elapse P (ms 50) ^^ k) p')) > 0"
    and close: "ok n p \<Longrightarrow> \<exists>p'. lp_await P h None (lp_cancel P h p) = (p', True) \<and> ok n p' \<and> jobs p' = jobs p"
    and rounds: "start_polls \<le> lp_rounds P defaultPollInterval (ms 30000) p"
      "complete_polls \<le> lp_rounds P defaultPollInterval (ms 60000) p"
      "output_polls \<le> lp_rounds P (ms 50) (ms 10000) p"
begin

text \<open>The plugin in the middle of the suite: no job carries the tag one of the tests looks for in vain.\<close>

definition at_work :: "nat \<Rightarrow> 'p \<Rightarrow> bool" where
  "at_work n p \<longleftrightarrow> ok n p \<and>
     (\<forall>i j t. jobs p i = Some j \<and> t \<in> set (job_Tags j) \<longrightarrow> \<not> prefix ''conformance-nomatch-'' t)"

abbreviation next_poll :: "'p \<Rightarrow> 'p" where
  "next_poll \<equiv> lp_elapse P defaultPollInterval"

lemma poll_positive [simp]: "0 < defaultPollInterval" "0 < ms 50" "0 < ms 200" "0 < ms 100"
  by (simp_all add: defaultPollInterval_def ms_def)

lemma elapse_jobs:
  assumes "ok n p" "0 < d" "jobs p i = Some j"
  obtains j' where "jobs (lp_elapse P d p) i = Some j'" "ages j j'"
  using elapse [OF assms(1,2), of i] assms(3) by (cases "jobs (lp_elapse P d p) i") auto

lemma at_work_elapse:
  assumes "at_work n p" "0 < d"
  shows "at_work n (lp_elapse P d p)"
proof -
  have ok: "ok n p" using assms(1) by (simp add: at_work_def)
  have "\<not> prefix ''conformance-nomatch-'' t" if "jobs (lp_elapse P d p) i = Some j" "t \<in> set (job_Tags j)" for i j t
  proof -
    have "rel_option ages (jobs p i) (Some j)" using elapse [OF ok assms(2), of i] that(1) by simp
    then obtain j0 where "jobs p i = Some j0" "ages j0 j" by (cases "jobs p i") auto
    with assms(1) that(2) show ?thesis unfolding at_work_def ages_def kept_def by metis
  qed
  then show ?thesis using elapse [OF ok assms(2)] by (auto simp: at_work_def)
qed

lemma ok_polls: "ok n p \<Longrightarrow> ok n ((next_poll ^^ k) p)"
  by (induction k) (simp_all add: elapse)

lemma at_work_polls: "at_work n p \<Longrightarrow> at_work n ((next_poll ^^ k) p)"
  by (induction k) (simp_all add: at_work_elapse)

lemma kept_trans: "kept a b \<Longrightarrow> kept b c \<Longrightarrow> kept a c"
  by (simp add: kept_def)

lemma polls_jobs:
  assumes "ok n p" "jobs p i = Some j"
  obtains j' where "jobs ((next_poll ^^ k) p) i = Some j'" "ages j j'"
  using assms
proof (induction k arbitrary: thesis)
  case 0
  then show ?case by (auto simp: ages_def kept_def)
next
  case (Suc k)
  then obtain j1 where j1: "jobs ((next_poll ^^ k) p) i = Some j1" "ages j j1" by metis
  from elapse_jobs [OF ok_polls [OF Suc.prems(2)] _ j1(1)] obtain j2 where
    "jobs (next_poll ((next_poll ^^ k) p)) i = Some j2" "ages j1 j2" by (metis poll_positive(1))
  moreover then have "ages j j2" using j1(2) kept_trans unfolding ages_def by fastforce
  ultimately show ?case using Suc.prems(1) by simp
qed

lemma cf_GetJob_found:
  assumes "ok n p" "jobs p i = Some j"
  shows "cf_GetJob P user i flds p = (p, Some j, None)"
  by (simp add: cf_GetJob_def get [OF assms] nil_slice_def)

lemma poll_found:
  assumes "ok n p" "jobs p i = Some j"
  shows "poll_job P user i p = (next_poll p, jobs (next_poll p) i, None)"
proof -
  obtain j' where "jobs (next_poll p) i = Some j'" using elapse_jobs [OF assms(1) _ assms(2)] by (metis poll_positive(1))
  then show ?thesis using cf_GetJob_found [of n "next_poll p" i j'] elapse [OF assms(1) poll_positive(1)]
    by (simp add: poll_job_def)
qed

lemma polled_found:
  assumes "ok n p" "jobs p i = Some j"
  shows "polled P user i k p = (next_poll ^^ k) p" "reported P user i k p = (jobs ((next_poll ^^ Suc k) p) i, None)"
proof -
  have "polled P user i k p = (next_poll ^^ k) p \<and> reported P user i k p = (jobs ((next_poll ^^ Suc k) p) i, None)"
    using assms
  proof (induction k arbitrary: p j)
    case 0
    then show ?case using poll_found by simp
  next
    case (Suc k)
    from elapse_jobs [OF Suc.prems(1) _ Suc.prems(2)] obtain j' where "jobs (next_poll p) i = Some j'"
      by (metis poll_positive(1))
    from Suc.IH [OF _ this] elapse [OF Suc.prems(1) poll_positive(1)] poll_found [OF Suc.prems]
    show ?case by (simp add: funpow_swap1)
  qed
  then show "polled P user i k p = (next_poll ^^ k) p" "reported P user i k p = (jobs ((next_poll ^^ Suc k) p) i, None)"
    by simp_all
qed

lemma find_first: "k < n \<Longrightarrow> c k \<Longrightarrow> (\<And>m. m < k \<Longrightarrow> \<not> c m) \<Longrightarrow> find c [0..<n] = Some k"
  by (auto simp: find_Some_iff intro!: exI [of _ k])

lemma wait_running:
  assumes p: "at_work n p" and i: "jobs p i = Some j" "job_Status j = StatusPending"
  obtains q j' where "wait_status P (ms 30000) user i StatusRunning p = (q, Inr j')" "at_work n q"
    "jobs q i = Some j'" "job_Status j' = StatusRunning" "job_Tags j' = job_Tags j"
proof -
  have ok: "ok n p" using p by (simp add: at_work_def)
  note found = polled_found [OF ok i(1)]
  from starts [OF ok i] obtain k where k: "k < start_polls"
    "map_option job_Status (jobs ((next_poll ^^ Suc k) p) i) = Some StatusRunning"
    "\<And>m. m < k \<Longrightarrow> map_option job_Status (jobs ((next_poll ^^ Suc m) p) i) = Some StatusPending" by blast
  from k(2) obtain j' where j': "jobs ((next_poll ^^ Suc k) p) i = Some j'" "job_Status j' = StatusRunning" by auto
  have "\<not> decisive (stops_at StatusRunning) (reported P user i m p)" if "m < k" for m
    using k(3) [OF that] by (auto simp: found(2) stops_at_def)
  moreover have "decisive (stops_at StatusRunning) (reported P user i k p)"
    using j' by (simp add: found(2) stops_at_def del: funpow.simps)
  ultimately have "find (\<lambda>k. decisive (stops_at StatusRunning) (reported P user i k p))
      [0..<lp_rounds P defaultPollInterval (ms 30000) p] = Some k"
    by (intro find_first) (use k(1) rounds(1) [of p] in auto)
  then have "wait_status P (ms 30000) user i StatusRunning p = ((next_poll ^^ Suc k) p, Inr j')"
    using j' by (simp add: wait_status_def WaitForStatus_first first_answer_def found del: funpow.simps polled_simps)
  moreover have "job_Tags j' = job_Tags j"
    by (rule polls_jobs [OF ok i(1), of "Suc k"]) (use j' in \<open>simp add: ages_def kept_def del: funpow.simps\<close>)
  ultimately show thesis using that at_work_polls [OF p, of "Suc k"] j' by blast
qed

lemma wait_ended:
  assumes p: "at_work n p" and i: "jobs p i = Some j" and k: "k < lp_rounds P defaultPollInterval t p"
    and e: "jobs ((next_poll ^^ Suc k) p) i = Some e" "TerminalStatus (job_Status e)"
  obtains q m j' where "wait_terminal P t user i p = (q, Inr j')" "at_work n q" "q = (next_poll ^^ m) p"
    "jobs q i = Some j'" "TerminalStatus (job_Status j')"
proof -
  have ok: "ok n p" using p by (simp add: at_work_def)
  note found = polled_found [OF ok i(1)]
  have some: "\<exists>j'. reported P user i m p = (Some j', None) \<and> jobs ((next_poll ^^ Suc m) p) i = Some j'" for m
    using polls_jobs [OF ok i(1), of "Suc m"] by (metis found(2))
  have "decisive TerminalStatus (reported P user i k p)" using e by (simp add: found(2) del: funpow.simps)
  then have "find (\<lambda>k. decisive TerminalStatus (reported P user i k p)) [0..<lp_rounds P defaultPollInterval t p] \<noteq> None"
    using k by (auto simp: find_None_iff)
  then obtain m where m: "find (\<lambda>k. decisive TerminalStatus (reported P user i k p))
      [0..<lp_rounds P defaultPollInterval t p] = Some m" by blast
  then have dec: "decisive TerminalStatus (reported P user i m p)" by (auto simp: find_Some_iff)
  from some [of m] obtain j' where j': "reported P user i m p = (Some j', None)" "jobs ((next_poll ^^ Suc m) p) i = Some j'" by blast
  have "wait_terminal P t user i p = ((next_poll ^^ Suc m) p, Inr j')"
    using m dec j' by (simp add: wait_terminal_def WaitForTerminalStatus_first first_answer_def found(1) del: funpow.simps polled_simps)
  moreover have "TerminalStatus (job_Status j')" using dec j' by simp
  ultimately show thesis using that [OF _ at_work_polls [OF p, of "Suc m"] refl j'(2)] by blast
qed

lemma wait_brief:
  assumes p: "at_work n p" and i: "jobs p i = Some j" "brief (job_Tags j)"
  obtains q m j' where "wait_terminal P (ms 60000) user i p = (q, Inr j')" "at_work n q" "q = (next_poll ^^ m) p"
    "jobs q i = Some j'" "TerminalStatus (job_Status j')"
proof -
  have ok: "ok n p" using p by (simp add: at_work_def)
  from completes [OF ok i] obtain k e where "k < complete_polls" "jobs ((next_poll ^^ Suc k) p) i = Some e"
    "TerminalStatus (job_Status e)" by blast
  with wait_ended [OF p i(1), of k "ms 60000" e] rounds(2) [of p] show thesis using that by fastforce
qed

text \<open>The steps the tests are made of.\<close>

definition plain_tags :: "Job \<Rightarrow> bool" where
  "plain_tags job \<longleftrightarrow> list_all (\<lambda>t. \<not> prefix ''conformance-nomatch-'' t) (job_Tags job)"

lemma at_work_submit:
  assumes "at_work (Suc n) p" "plain_tags job"
  obtains q job' j where "lp_SubmitJob P user job p = (q, job', [CJobs (Some [j])])" "at_work n q" "accepted job j"
    "jobs p (job_ID j) = None" "jobs q = (jobs p)(job_ID j \<mapsto> j)" "job_ID j \<noteq> JobID ''''"
proof -
  have "ok (Suc n) p" using assms(1) by (simp add: at_work_def)
  from submit [OF this, of job] obtain q job' j where q: "lp_SubmitJob P user job p = (q, job', [CJobs (Some [j])])"
    "ok n q" "accepted job j" "jobs p (job_ID j) = None" "jobs q = (jobs p)(job_ID j \<mapsto> j)" by blast
  have "job_ID j \<noteq> JobID ''''" using ids [OF q(2), of "job_ID j" j] q(5) by simp
  moreover have "at_work n q"
    using assms q(2,3,5) by (auto simp: at_work_def plain_tags_def accepted_def list_all_iff split: if_split_asm)
  ultimately show thesis using that q by blast
qed

lemma goes_submit:
  assumes "at_work (Suc n) p" "plain_tags job"
    and "\<And>q job' j. at_work n q \<Longrightarrow> accepted job j \<Longrightarrow> jobs p (job_ID j) = None \<Longrightarrow>
      jobs q = (jobs p)(job_ID j \<mapsto> j) \<Longrightarrow> job_ID j \<noteq> JobID '''' \<Longrightarrow> Q (job_ID j, job') q"
  shows "goes (cf_SubmitJob P user job) p Q"
proof -
  obtain q job' j where q: "lp_SubmitJob P user job p = (q, job', [CJobs (Some [j])])" "at_work n q" "accepted job j"
    "jobs p (job_ID j) = None" "jobs q = (jobs p)(job_ID j \<mapsto> j)" "job_ID j \<noteq> JobID ''''"
    by (rule at_work_submit [OF assms(1,2)])
  show ?thesis unfolding cf_SubmitJob_def
    by (rule goes_bind, rule goes_on) (auto simp: q(1,6) nil_slice_def t_index_def intro!: goes_rules assms(3) q)
qed

lemma goes_submit_mock:
  assumes "at_work (Suc n) p" "plain_tags job"
    and "\<And>q j. at_work n q \<Longrightarrow> accepted job j \<Longrightarrow> jobs p (job_ID j) = None \<Longrightarrow>
      jobs q = (jobs p)(job_ID j \<mapsto> j) \<Longrightarrow> job_ID j \<noteq> JobID '''' \<Longrightarrow> Q (mock_calls [CJobs (Some [j])]) q"
  shows "goes (submit_mock P user job) p Q"
proof -
  obtain q job' j where q: "lp_SubmitJob P user job p = (q, job', [CJobs (Some [j])])" "at_work n q" "accepted job j"
    "jobs p (job_ID j) = None" "jobs q = (jobs p)(job_ID j \<mapsto> j)" "job_ID j \<noteq> JobID ''''"
    by (rule at_work_submit [OF assms(1,2)])
  have "Q (mock_calls [CJobs (Some [j])]) q" by (rule assms(3)) (rule q)+
  then show ?thesis unfolding submit_mock_def by (auto simp: q(1) intro!: goes_on)
qed

lemma goes_first [goes_rules]: "Q j p \<Longrightarrow> goes (first_job (mock_calls [CJobs (Some [j])])) p Q"
  by (simp add: first_job_def nil_slice_def t_index_def goes_ret)

lemma goes_get:
  assumes "at_work n p" "jobs p i = Some j" "Q (Some j, None) p"
  shows "goes (on_plugin (cf_GetJob P user i flds)) p Q"
  using assms by (auto simp: at_work_def cf_GetJob_found intro!: goes_on)

lemma goes_list:
  assumes "at_work n p" "\<not> filter_timed flt" "flt_Fields flt = []"
    and "\<And>js. set js = {j. \<exists>i. jobs p i = Some j \<and> filter_matches flt j} \<Longrightarrow> Q js p"
  shows "goes (on_plugin (cf_GetJobs P user flt)) p Q"
proof -
  have "ok n p" using assms(1) by (simp add: at_work_def)
  from list_jobs [OF this assms(2,3)] obtain js where "lp_GetJobs P user flt [] p = (p, [CJobs (Some js)])"
    "set js = {j. \<exists>i. jobs p i = Some j \<and> filter_matches flt j}" by blast
  with assms(4) [of js] show ?thesis by (auto simp: cf_GetJobs_def nil_slice_def intro!: goes_on)
qed

lemma goes_list_mock:
  assumes "at_work n p" "\<not> filter_timed flt" "flt_Fields flt = []"
    and "\<And>js. set js = {j. \<exists>i. jobs p i = Some j \<and> filter_matches flt j} \<Longrightarrow> Q (mock_calls [CJobs (Some js)]) p"
  shows "goes (call_mock (lp_GetJobs P user flt [])) p Q"
proof -
  have "ok n p" using assms(1) by (simp add: at_work_def)
  from list_jobs [OF this assms(2,3)] obtain js where "lp_GetJobs P user flt [] p = (p, [CJobs (Some js)])"
    "set js = {j. \<exists>i. jobs p i = Some j \<and> filter_matches flt j}" by blast
  with assms(4) [of js] show ?thesis by (auto simp: call_mock_def intro!: goes_on)
qed

lemma goes_missing:
  assumes "at_work n p" "prefix ''nonexistent-'' (id_str i)"
    and "\<And>e. err_Code e = CodeJobNotFound \<Longrightarrow> Q (mock_calls [CError (EApi e)]) p"
  shows "goes (call_mock (lp_GetJob P user i flds)) p Q"
proof -
  have ok: "ok n p" using assms(1) by (simp add: at_work_def)
  have "jobs p i = None" using ids [OF ok, of i] assms(2) by (cases "jobs p i") auto
  from get_missing [OF ok this, of flds] obtain e where
    e: "err_Code e = CodeJobNotFound" "lp_GetJob P user i flds p = (p, [CError (EApi e)])" by blast
  with assms(3) [OF e(1)] show ?thesis by (auto simp: call_mock_def intro!: goes_on)
qed

lemma goes_control_missing:
  assumes "at_work n p" "prefix ''nonexistent-'' (id_str i)" "\<And>e q. at_work n q \<Longrightarrow> Q (mock_calls [CError e]) q"
  shows "goes (call_mock (lp_ControlJob P user i op no_options)) p Q"
proof -
  have ok: "ok n p" using assms(1) by (simp add: at_work_def)
  have "jobs p i = None" using ids [OF ok, of i] assms(2) by (cases "jobs p i") auto
  from control_missing [OF ok this, of op] obtain p' e where
    "lp_ControlJob P user i op no_options p = (p', [CError e])" "ok n p'" "jobs p' = jobs p" by blast
  with assms(1) assms(3) [of p' e] show ?thesis by (auto simp: call_mock_def at_work_def intro!: goes_on)
qed

lemma goes_cluster:
  assumes "at_work n p" and "\<And>info. (\<forall>l\<in>set (nil_slice (co_Limits info)). rl_Type l \<noteq> '''') \<Longrightarrow> Q (mock_calls [CClusterInfo info]) p"
  shows "goes (call_mock (lp_ClusterInfo P user)) p Q"
proof -
  have "ok n p" using assms(1) by (simp add: at_work_def)
  from cluster [OF this] show ?thesis by (auto simp: call_mock_def intro!: goes_on assms(2))
qed

lemma goes_stamp: "Q (pre @ int_dec (lp_now P p)) p \<Longrightarrow> goes (stamp_tag P pre) p Q"
  by (auto simp: stamp_tag_def intro!: goes_on)

lemma goes_sleep:
  assumes "at_work n p" "0 < d" "at_work n (lp_elapse P d p) \<Longrightarrow> Q () (lp_elapse P d p)"
  shows "goes (t_sleep P d) p Q"
  using assms(3) at_work_elapse [OF assms(1,2)] by (auto simp: t_sleep_def intro!: goes_on)

lemma goes_wait_brief:
  assumes "at_work n p" "jobs p i = Some j" "brief (job_Tags j)"
    and "\<And>q m j'. at_work n q \<Longrightarrow> q = (next_poll ^^ m) p \<Longrightarrow> jobs q i = Some j' \<Longrightarrow> TerminalStatus (job_Status j') \<Longrightarrow> Q (Inr j') q"
  shows "goes (on_plugin (wait_terminal P (ms 60000) user i)) p Q"
  by (rule wait_brief [OF assms(1-3)]) (auto intro!: goes_on assms(4))

lemma goes_wait_running:
  assumes "at_work n p" "jobs p i = Some j" "job_Status j = StatusPending"
    and "\<And>q j'. at_work n q \<Longrightarrow> jobs q i = Some j' \<Longrightarrow> job_Status j' = StatusRunning \<Longrightarrow> job_Tags j' = job_Tags j \<Longrightarrow> Q (Inr j') q"
  shows "goes (on_plugin (wait_status P (ms 30000) user i StatusRunning)) p Q"
  by (rule wait_running [OF assms(1-3)]) (auto intro!: goes_on assms(4))

lemma goes_testSubmit:
  assumes "at_work (Suc (Suc (Suc (Suc (Suc (Suc n)))))) p" "plain_tags (new_job profile user)"
    and "\<And>q. at_work n q \<Longrightarrow> Q () q"
  shows "goes (testSubmitInvariants P user profile) p Q"
proof -
  have tags: "plain_tags (new_job profile user\<lparr>job_Name := nm\<rparr>)"
    "plain_tags (new_job profile user\<lparr>job_Tags := [''conformance-tag-a'', ''conformance-tag-b'']\<rparr>)" for nm
    using assms(2) by (simp_all add: plain_tags_def)
  show ?thesis unfolding testSubmitInvariants_def
    by ((rule goes_rules goes_submit_mock assms tags | assumption
      | force simp: AssertJobCount_def AssertJobHasTag_def nil_slice_def accepted_def)+)
qed

lemma goes_testGetJob:
  assumes "at_work (Suc n) p" "plain_tags (new_job profile user)" "\<And>q. at_work n q \<Longrightarrow> Q () q"
  shows "goes (testGetJobInvariants P user profile) p Q"
  unfolding testGetJobInvariants_def
  by ((rule goes_rules goes_submit goes_get goes_missing assms | assumption
    | force simp: AssertJobID_def)+)

lemma goes_testErrors:
  assumes "at_work n p" "\<And>q. at_work n q \<Longrightarrow> Q () q"
  shows "goes (testErrorInvariants P user) p Q"
  unfolding testErrorInvariants_def
  by ((rule goes_rules goes_missing goes_control_missing assms | assumption | force simp: AssertError_def)+)

lemma goes_testClusterInfo:
  assumes "at_work n p" "Q () p"
  shows "goes (testClusterInfoInvariants P user) p Q"
  unfolding testClusterInfoInvariants_def
  by (rule goes_rules goes_cluster assms | assumption | simp)+ (rule goes_all_map; (rule goes_rules assms | force)+)

lemma goes_testLifecycle:
  assumes "at_work (Suc (Suc n)) p" "plain_tags (new_job profile user)" "brief (job_Tags (new_job profile user))"
    "pf_JobCompleteTimeout profile = ms 60000" "\<And>q. at_work n q \<Longrightarrow> Q () q"
  shows "goes (testLifecycleInvariants P user profile) p Q"
proof -
  have later: "goes (tseq (t_sleep P (ms 200)) (tbind (on_plugin (cf_GetJob P user i [])) (\<lambda>(job2, apiErr).
      if apiErr \<noteq> None then t_Fatal
      else tbind (t_deref job2) (\<lambda>j2. t_check (job_Status j2 \<noteq> job_Status j))))) q Q'"
    if q: "at_work m q" "jobs q i = Some j" "TerminalStatus (job_Status j)" and Q': "\<And>q. at_work m q \<Longrightarrow> Q' () q" for m q i j Q'
  proof -
    have ok: "ok m q" using q(1) by (simp add: at_work_def)
    from elapse_jobs [OF ok _ q(2), of "ms 200"] obtain j' where j': "jobs (lp_elapse P (ms 200) q) i = Some j'" "ages j j'"
      by (metis poll_positive(3))
    with q(3) have st: "job_Status j' = job_Status j" by (simp add: ages_def)
    show ?thesis
      by ((rule goes_rules goes_deref goes_sleep goes_get q(1) j'(1) Q' poll_positive | assumption | (simp add: st; fail))+)
  qed
  show ?thesis unfolding testLifecycleInvariants_def assms(4)
    by ((rule goes_rules goes_submit goes_wait_brief later assms | assumption
      | (simp add: accepted_def assms(3); fail))+)
qed

lemma plain_add_tags:
  "plain_tags job \<Longrightarrow> list_all (\<lambda>t. \<not> prefix ''conformance-nomatch-'' t) ts \<Longrightarrow> plain_tags (add_tags ts job)"
  by (simp add: plain_tags_def)

lemma submitted_listed:
  assumes "jobs q (job_ID j) = Some j" "filter_matches flt j" "set js = {j. \<exists>i. jobs q i = Some j \<and> filter_matches flt j}"
  shows "j \<in> set js" "FindJobByID js (job_ID j) \<noteq> None"
  using assms by (auto simp: FindJobByID_None)

lemma goes_testGetJobs:
  assumes p: "at_work (Suc (Suc (Suc (Suc n)))) p" and tags: "plain_tags (new_job profile user)"
    and Q: "\<And>q. at_work n q \<Longrightarrow> Q () q"
  shows "goes (testGetJobsInvariants P user profile) p Q"
proof -
  have own: "plain_tags (add_tags [''conformance-get-jobs-'' @ t] (new_job profile user))"
    "plain_tags (add_tags [''conformance-and-a-'' @ t, ''conformance-and-b-'' @ u] (new_job profile user))"
    "plain_tags (add_tags [''conformance-and-a-'' @ t] (new_job profile user))" for t u
    using tags by (simp_all add: plain_add_tags)
  have find: "\<not> length js < 2" "\<not> FindJobByID js (job_ID j1) = None" "\<not> FindJobByID js (job_ID j2) = None"
    if js: "set js = {j. \<exists>i. jobs q2 i = Some j \<and> filter_matches (tag_filter [t]) j}"
      and q2: "jobs q2 = (jobs q1)(job_ID j2 \<mapsto> j2)" "jobs q1 = (jobs p1)(job_ID j1 \<mapsto> j1)" "jobs q1 (job_ID j2) = None"
      and acc: "accepted (add_tags [t] job) j1" "accepted (add_tags [t] job) j2" for js j1 j2 p1 q1 q2 t job
  proof -
    have id: "job_ID j1 \<noteq> job_ID j2" using q2(2,3) by auto
    have 1: "jobs q2 (job_ID j1) = Some j1" "jobs q2 (job_ID j2) = Some j2" using q2(1,2) id by auto
    have 2: "filter_matches (tag_filter [t]) j1" "filter_matches (tag_filter [t]) j2"
      using acc by (simp_all add: tag_filter_matches accepted_def)
    note 3 = submitted_listed [OF 1(1) 2(1) js] submitted_listed [OF 1(2) 2(2) js]
    show "\<not> FindJobByID js (job_ID j1) = None" "\<not> FindJobByID js (job_ID j2) = None" using 3 by simp_all
    show "\<not> length js < 2" using 3(1,3) id by (intro two_members [of j1 js j2]) auto
  qed
  have find2: "\<not> FindJobByID js (job_ID j1) = None"
    if js: "set js = {j. \<exists>i. jobs q2 i = Some j \<and> filter_matches (tag_filter ts) j}"
      and q2: "jobs q2 = (jobs q1)(job_ID j2 \<mapsto> j2)" "jobs q1 = (jobs p1)(job_ID j1 \<mapsto> j1)" "jobs q1 (job_ID j2) = None"
      and acc: "accepted (add_tags ts job) j1" for js j1 j2 p1 q1 q2 ts job
  proof -
    have "jobs q2 (job_ID j1) = Some j1" using q2 by auto
    from submitted_listed [OF this _ js] acc show ?thesis by (simp add: tag_filter_matches accepted_def)
  qed
  have both: "goes (t_all (map (\<lambda>j. tseq (t_check (AssertJobHasTag (Some j) a)) (t_check (AssertJobHasTag (Some j) b))) js)) q Q'"
    if "set js = {j. \<exists>i. jobs q i = Some j \<and> filter_matches (tag_filter [a, b]) j}" "Q' () q" for js q a b Q'
    by (rule goes_all_map; (rule goes_rules that | (use that(1) in \<open>auto simp: tag_filter_matches AssertJobHasTag_def list_ex_iff\<close>; fail))+)
  have none: "\<not> length js \<noteq> 0"
    if js: "set js = {j. \<exists>i. jobs q i = Some j \<and> filter_matches (tag_filter [''conformance-nomatch-'' @ t]) j}"
      and q: "at_work m q"
    for js m q t
  proof -
    have "j \<notin> set js" for j
    proof
      assume "j \<in> set js"
      then obtain i where "jobs q i = Some j" "''conformance-nomatch-'' @ t \<in> set (job_Tags j)"
        using js by (auto simp: tag_filter_matches)
      with q show False unfolding at_work_def by (metis prefixI)
    qed
    then show ?thesis by (cases js) auto
  qed
  show ?thesis unfolding testGetJobsInvariants_def
    by (rule goes_rules both goes_stamp goes_submit goes_list goes_list_mock p Q own tag_filter_simps
      | assumption | (rule find(1), assumption, assumption, assumption, assumption, assumption, assumption)
      | (rule find(2), assumption, assumption, assumption, assumption, assumption, assumption)
      | (rule find(3), assumption, assumption, assumption, assumption, assumption, assumption)
      | (rule find2, assumption, assumption, assumption, assumption, assumption) | (simp; fail) | (rule none, assumption, assumption))+
qed

text \<open>Control operations, and the wait for the end of the controlled job.\<close>

lemma goes_control:
  assumes "lp_ControlJob P user i op no_options p = (q, [CControlJob b m])" "\<And>r. Q (Some r, None) q"
  shows "goes (on_plugin (cf_ControlJob P user i op)) p Q"
  using assms by (auto simp: cf_ControlJob_def intro!: goes_on)

lemma at_work_control:
  assumes "at_work n p" "jobs p i = Some j" "ok n q" "kept j j'" "jobs q = (jobs p)(i \<mapsto> j')"
  shows "at_work n q"
  using assms by (auto simp: at_work_def kept_def split: if_split_asm)

lemma goes_wait_ended:
  assumes p: "at_work n p" and j: "jobs p i = Some j" "TerminalStatus (job_Status j)"
    and r: "0 < lp_rounds P defaultPollInterval t p"
    and Q: "\<And>q j'. at_work n q \<Longrightarrow> job_Status j' = job_Status j \<Longrightarrow> job_ExitCode j' = job_ExitCode j \<Longrightarrow> Q (Inr j') q"
  shows "goes (on_plugin (wait_terminal P t user i)) p Q"
proof -
  have ok: "ok n p" using p by (simp add: at_work_def)
  obtain j1 where j1: "jobs ((next_poll ^^ Suc 0) p) i = Some j1" "ages j j1" by (rule polls_jobs [OF ok j(1)])
  have "TerminalStatus (job_Status j1)" using j1(2) j(2) by (simp add: ages_def)
  from wait_ended [OF p j(1) r j1(1) this] obtain q m j' where w: "wait_terminal P t user i p = (q, Inr j')"
    "at_work n q" "q = (next_poll ^^ m) p" "jobs q i = Some j'" by metis
  obtain j2 where "jobs ((next_poll ^^ m) p) i = Some j2" "ages j j2" by (rule polls_jobs [OF ok j(1)])
  with w(3,4) have "ages j j'" by simp
  with j(2) have "job_Status j' = job_Status j" "job_ExitCode j' = job_ExitCode j" by (simp_all add: ages_def)
  with Q w(1,2) show ?thesis by (auto intro!: goes_on)
qed

lemma start_rounds: "at_work n p \<Longrightarrow> jobs p i = Some j \<Longrightarrow> job_Status j = StatusPending \<Longrightarrow>
    0 < lp_rounds P defaultPollInterval (ms 30000) q"
  using starts [of n p i j] rounds(1) [of q] by (auto simp: at_work_def)

lemma goes_assertExitCode [goes_rules]:
  "job_ExitCode j = Some c \<Longrightarrow> c \<in> set codes \<Longrightarrow> Q () p \<Longrightarrow> goes (assertExitCode j codes) p Q"
  by (rule goesI) (auto simp: exI [of _ "[]"])

lemma goes_control_and_check:
  assumes p: "at_work n p" "jobs p i = Some j" "job_Status j = StatusRunning"
    and ctl: "\<exists>q b m j'. lp_ControlJob P user i op no_options p = (q, [CControlJob b m]) \<and> ok n q \<and>
        kept j j' \<and> job_Status j' = expect \<and> job_ExitCode j' = Some c \<and> jobs q = (jobs p)(i \<mapsto> j')"
    and c: "TerminalStatus expect" "c \<in> set codes" and r: "\<And>q. 0 < lp_rounds P defaultPollInterval t q"
    and Q: "\<And>q. at_work n q \<Longrightarrow> Q () q"
  shows "goes (control_and_check P user i op t expect codes) p Q"
proof -
  from ctl obtain q b m j' where q: "lp_ControlJob P user i op no_options p = (q, [CControlJob b m])" "ok n q"
    "kept j j'" "job_Status j' = expect" "job_ExitCode j' = Some c" "jobs q = (jobs p)(i \<mapsto> j')" by blast
  have aw: "at_work n q" by (rule at_work_control [OF p(1,2) q(2,3,6)])
  have j': "jobs q i = Some j'" "TerminalStatus (job_Status j')" using q(4,6) c(1) by auto
  show ?thesis unfolding control_and_check_def
    by ((rule goes_rules goes_control [OF q(1)] goes_wait_ended [OF aw j'] r Q c(2) | assumption | (simp add: q(4,5); fail))+)
qed

lemma goes_end_stream [goes_rules]:
  assumes "at_work n p" "\<And>q. at_work n q \<Longrightarrow> jobs q = jobs p \<Longrightarrow> Q () q"
  shows "goes (end_stream P h) p Q"
proof -
  have "ok n p" using assms(1) by (simp add: at_work_def)
  from close [OF this, of h] obtain q where q: "lp_await P h None (lp_cancel P h p) = (q, True)" "ok n q" "jobs q = jobs p" by blast
  then have "at_work n q" using assms(1) by (simp add: at_work_def)
  with assms(2) q show ?thesis unfolding end_stream_def by (auto intro!: goes_bind goes_on goes_ret)
qed

lemma goes_RunKillJob:
  assumes p: "at_work (Suc n) p" "plain_tags (ko_Job opts)"
    and opts: "ko_ExpectStatus opts = kill_status" "kill_code \<in> set (ko_ExpectExitCodes opts)" "ko_Timeout opts = ms 30000"
    and Q: "\<And>q. at_work n q \<Longrightarrow> Q () q"
  shows "goes (RunKillJob P user opts) p Q"
proof -
  have t: "defaultTimeout (ko_Timeout opts) (ms 30000) = ms 30000" by (simp add: opts(3) defaultTimeout_def)
  show ?thesis unfolding RunKillJob_def Let_def t
  proof (rule goes_bind, rule goes_submit [OF p])
    fix q job' j
    assume q: "at_work n q" "accepted (ko_Job opts) j" "jobs q = (jobs p)(job_ID j \<mapsto> j)"
    have j: "jobs q (job_ID j) = Some j" "job_Status j = StatusPending" using q by (simp_all add: accepted_def)
    note r = start_rounds [OF q(1) j]
    have run: "goes (control_and_check P user (job_ID j) OperationKill (ms 30000) (ko_ExpectStatus opts) (ko_ExpectExitCodes opts)) q1 Q"
      if q1: "at_work n q1" "jobs q1 (job_ID j) = Some j1" "job_Status j1 = StatusRunning" for q1 j1
    proof (rule goes_control_and_check [OF q1, where c = kill_code])
      have "ok n q1" using q1(1) by (simp add: at_work_def)
      from kill [OF this q1(2,3)] show "\<exists>q b m j'. lp_ControlJob P user (job_ID j) OperationKill no_options q1 = (q, [CControlJob b m]) \<and>
        ok n q \<and> kept j1 j' \<and> job_Status j' = ko_ExpectStatus opts \<and> job_ExitCode j' = Some kill_code \<and>
        jobs q = (jobs q1)(job_ID j \<mapsto> j')" by (simp add: opts(1))
    qed (simp_all add: opts ends r Q)
    show "goes (case (job_ID j, job') of (jid, _) \<Rightarrow> tbind (on_plugin (wait_status P (ms 30000) user jid StatusRunning)) (\<lambda>res.
        case res of Inl err \<Rightarrow> t_Fatal | Inr _ \<Rightarrow>
          control_and_check P user jid OperationKill (ms 30000) (ko_ExpectStatus opts) (ko_ExpectExitCodes opts))) q Q"
      by (rule goes_rules goes_wait_running [OF q(1) j] run | assumption)+
  qed
qed

lemma goes_open_status [goes_rules]:
  assumes "at_work n p" "\<And>q h. at_work n q \<Longrightarrow> jobs q = jobs p \<Longrightarrow> Q h q"
  shows "goes (CollectStatusStream P user t) p Q"
proof -
  have "ok n p" using assms(1) by (simp add: at_work_def)
  from open_status [OF this, of t] obtain q h where q: "lp_open P StatusStream user t p = (q, h)" "ok n q" "jobs q = jobs p" by blast
  then have "at_work n q" using assms(1) by (simp add: at_work_def)
  with assms(2) q show ?thesis unfolding CollectStatusStream_def by (auto intro!: goes_on)
qed

lemma goes_RunStopJob:
  assumes p: "at_work (Suc n) p" "plain_tags (so_Job opts)" "\<not> brief (job_Tags (so_Job opts))"
    and opts: "so_ExpectStatus opts = stop_status" "stop_code \<in> set (so_ExpectExitCodes opts)" "so_Timeout opts = ms 30000"
    and Q: "\<And>q. at_work n q \<Longrightarrow> Q () q"
  shows "goes (RunStopJob P user opts) p Q"
proof -
  have t: "defaultTimeout (so_Timeout opts) (ms 30000) = ms 30000" by (simp add: opts(3) defaultTimeout_def)
  let ?check = "\<lambda>jid. control_and_check P user jid OperationStop (ms 30000) (so_ExpectStatus opts) (so_ExpectExitCodes opts)"
  show ?thesis unfolding RunStopJob_def Let_def t
  proof (rule goes_bind, rule goes_submit [OF p(1,2)])
    fix q job' j
    assume q: "at_work n q" "accepted (so_Job opts) j" "jobs q = (jobs p)(job_ID j \<mapsto> j)"
    have j: "jobs q (job_ID j) = Some j" "job_Status j = StatusPending" "\<not> brief (job_Tags j)"
      using q p(3) by (simp_all add: accepted_def)
    note r = start_rounds [OF q(1) j(1,2)]
    have run: "goes (?check (job_ID j)) q1 Q'"
      if q1: "at_work n q1" "jobs q1 (job_ID j) = Some j1" "job_Status j1 = StatusRunning" and Q': "\<And>q. at_work n q \<Longrightarrow> Q' () q"
      for q1 j1 Q'
    proof (rule goes_control_and_check [OF q1, where c = stop_code])
      have "ok n q1" using q1(1) by (simp add: at_work_def)
      from stop [OF this q1(2,3)] show "\<exists>q b m j'. lp_ControlJob P user (job_ID j) OperationStop no_options q1 = (q, [CControlJob b m]) \<and>
        ok n q \<and> kept j1 j' \<and> job_Status j' = so_ExpectStatus opts \<and> job_ExitCode j' = Some stop_code \<and>
        jobs q = (jobs q1)(job_ID j \<mapsto> j')" by (simp add: opts(1))
    qed (simp_all add: opts ends r Q')
    have nap: "goes (tseq (t_sleep P (ms 50)) (?check (job_ID j))) q1 Q'"
      if q1: "at_work n q1" "jobs q1 = jobs q0" "jobs q0 (job_ID j) = Some j1" "job_Status j1 = StatusRunning" "job_Tags j1 = job_Tags j"
        and Q': "\<And>q. at_work n q \<Longrightarrow> Q' () q" for q1 q0 j1 Q'
    proof (rule goes_bind, rule goes_sleep [OF q1(1)])
      assume q2: "at_work n (lp_elapse P (ms 50) q1)"
      have ok: "ok n q1" using q1(1) by (simp add: at_work_def)
      have "map_option job_Status (jobs (lp_elapse P (ms 50) q1) (job_ID j)) = Some StatusRunning"
        by (rule stays [OF ok, of _ j1]) (use q1 j(3) in simp_all)
      then obtain j2 where "jobs (lp_elapse P (ms 50) q1) (job_ID j) = Some j2" "job_Status j2 = StatusRunning" by auto
      then show "goes (?check (job_ID j)) (lp_elapse P (ms 50) q1) Q'" by (rule run [OF q2]) (rule Q')
    qed simp
    show "goes (case (job_ID j, job') of (jid, _) \<Rightarrow> tbind (on_plugin (wait_status P (ms 30000) user jid StatusRunning)) (\<lambda>res.
        case res of Inl err \<Rightarrow> t_Fatal | Inr _ \<Rightarrow> tbind (CollectStatusStream P user None) (\<lambda>h.
          t_finally (tseq (t_sleep P (ms 50)) (?check jid)) (end_stream P h)))) q Q"
      by (rule goes_cases goes_wait_running [OF q(1) j(1,2)] nap goes_finally goes_open_status goes_end_stream goes_bind Q | assumption)+
  qed
qed

lemma goes_RunCancelJob:
  assumes p: "at_work (Suc n) p" "plain_tags (cco_Job opts)" and opts: "cco_Timeout opts = ms 30000"
    and Q: "\<And>q. at_work n q \<Longrightarrow> Q () q"
  shows "goes (RunCancelJob P user opts) p Q"
proof -
  have t: "defaultTimeout (cco_Timeout opts) (ms 30000) = ms 30000" by (simp add: opts defaultTimeout_def)
  show ?thesis unfolding RunCancelJob_def Let_def t
  proof (rule goes_bind, rule goes_submit [OF p])
    fix q job' j
    assume q: "at_work n q" "accepted (cco_Job opts) j" "jobs q = (jobs p)(job_ID j \<mapsto> j)"
    have j: "jobs q (job_ID j) = Some j" "job_Status j = StatusPending" using q by (simp_all add: accepted_def)
    note r = start_rounds [OF q(1) j]
    have ok: "ok n q" using q(1) by (simp add: at_work_def)
    from cancel [OF ok j] obtain q1 b m j1 where q1: "lp_ControlJob P user (job_ID j) OperationCancel no_options q = (q1, [CControlJob b m])"
      "ok n q1" "kept j j1" "job_Status j1 = StatusCanceled" "jobs q1 = (jobs q)(job_ID j \<mapsto> j1)" by blast
    have aw: "at_work n q1" by (rule at_work_control [OF q(1) j(1) q1(2,3,5)])
    have j1: "jobs q1 (job_ID j) = Some j1" using q1(5) by simp
    obtain j2 where j2: "jobs (next_poll q1) (job_ID j) = Some j2" "ages j1 j2"
      using elapse_jobs [OF q1(2) _ j1] by (metis poll_positive(1))
    then have st: "job_Status j2 = StatusCanceled" using q1(4) by (simp add: ages_def)
    obtain k where k: "lp_rounds P defaultPollInterval (ms 30000) q1 = Suc k"
      using r [of q1] by (cases "lp_rounds P defaultPollInterval (ms 30000) q1") auto
    have w: "wait_status P (ms 30000) user (job_ID j) StatusCanceled q1 = (next_poll q1, Inr j2)"
      by (simp add: wait_status_def k WaitForStatus_first poll_found [OF q1(2) j1] j2(1) st stops_at_def)
    have wait: "goes (on_plugin (wait_status P (ms 30000) user (job_ID j) StatusCanceled)) q1 Q'"
      if "Q' (Inr j2) (next_poll q1)" for Q' using that w by (auto intro!: goes_on)
    show "goes (case (job_ID j, job') of (jid, _) \<Rightarrow> tbind (on_plugin (cf_ControlJob P user jid OperationCancel)) (\<lambda>(_, apiErr).
        if apiErr \<noteq> None then t_Skip
        else tbind (on_plugin (wait_status P (ms 30000) user jid StatusCanceled)) (\<lambda>res.
          case res of Inl err \<Rightarrow> t_Fatal | Inr finalJob \<Rightarrow> t_check (AssertJobStatus (Some finalJob) StatusCanceled)))) q Q"
      by (rule goes_rules goes_control [OF q1(1)] wait Q at_work_elapse aw poll_positive
        | (simp add: AssertJobStatus_def st; fail))+
  qed
qed

lemma goes_network:
  assumes "at_work n p" "jobs p i = Some j" "\<And>h a. Q (mock_calls [CJobNetwork h a]) p"
  shows "goes (call_mock (lp_GetJobNetwork P user i)) p Q"
proof -
  have "ok n p" using assms(1) by (simp add: at_work_def)
  from network [OF this assms(2)] show ?thesis by (auto simp: call_mock_def intro!: goes_on assms(3))
qed

lemma goes_output:
  assumes p: "at_work n p" "jobs p i = Some j" and Q: "\<And>q. at_work n q \<Longrightarrow> Q () q"
  shows "goes (tbind (CollectOutputStream P user i OutputStdout (Some (ms 10000))) (\<lambda>h.
    t_finally (expect_on_stream P (ms 50) (ms 10000) (\<lambda>p. mock_OutputCount (stream_writer P h p) > 0)) (end_stream P h))) p Q"
proof -
  have ok: "ok n p" using p(1) by (simp add: at_work_def)
  from open_output [OF ok p(2)] obtain q h k where q: "lp_open P (OutputStream i OutputStdout) user (Some (ms 10000)) p = (q, h)"
    "ok n q" "jobs q = jobs p" "k \<le> output_polls" "mock_OutputCount (stream_writer P h ((lp_elapse P (ms 50) ^^ k) q)) > 0" by blast
  have aw: "at_work n q" using q(2,3) p(1) by (simp add: at_work_def)
  have "k \<le> lp_rounds P (ms 50) (ms 10000) q" using q(4) rounds(3) [of q] by simp
  from poll_until_found [where c = "\<lambda>p. mock_OutputCount (stream_writer P h p) > 0", OF this q(5)] obtain m where
    m: "poll_until (lp_rounds P (ms 50) (ms 10000) q) P (ms 50) (\<lambda>p. mock_OutputCount (stream_writer P h p) > 0) q =
      ((next_poll ^^ m) q, True)" unfolding defaultPollInterval_def by blast
  have seen: "goes (expect_on_stream P (ms 50) (ms 10000) (\<lambda>p. mock_OutputCount (stream_writer P h p) > 0)) q Q'"
    if "Q' () ((next_poll ^^ m) q)" for Q'
    unfolding expect_on_stream_def using m that by (auto intro!: goes_bind goes_on goes_check)
  have "goes (t_finally (expect_on_stream P (ms 50) (ms 10000) (\<lambda>p. mock_OutputCount (stream_writer P h p) > 0)) (end_stream P h)) q Q"
    by (rule goes_finally, rule seen, rule goes_end_stream [OF at_work_polls [OF aw]], rule Q)
  then show ?thesis unfolding CollectOutputStream_def using q(1) by (auto intro!: goes_bind goes_on)
qed

lemma goes_testLaunch:
  assumes p: "at_work (Suc n) p" "plain_tags (new_job profile user)"
    and opts: "pf_JobStartTimeout profile = ms 30000" "pf_PollInterval profile = ms 50" "pf_OutputTimeout profile = ms 10000"
    and Q: "\<And>q. at_work n q \<Longrightarrow> Q () q"
  shows "goes (testLaunchWorkflow P user profile) p Q"
proof -
  have tags: "plain_tags (add_tags [''conformance-launch''] (new_job profile user))" using p(2) by (simp add: plain_add_tags)
  have status: "job_Status j = StatusPending" if "accepted job j" for job j using that by (simp add: accepted_def)
  have found: "jobs q (job_ID j) = Some j" if "jobs q = (jobs p)(job_ID j \<mapsto> j)" for q j using that by simp
  show ?thesis unfolding testLaunchWorkflow_def opts
    by (rule goes_bind goes_Run goes_cluster goes_submit goes_output goes_network goes_when goes_check goes_cases(1)
        goes_all_Cons goes_all_Nil goes_wait_running p tags Q | assumption
      | (erule found) | (erule status) | (simp; fail))+
qed

lemma goes_testList:
  assumes p: "at_work (Suc (Suc n)) p" "list_all (\<lambda>t. \<not> own_tag t) (job_Tags (new_job profile user))"
    "brief (job_Tags (new_job profile user))"
    and opts: "pf_JobCompleteTimeout profile = ms 60000" and Q: "\<And>q. at_work n q \<Longrightarrow> Q () q"
  shows "goes (testListWorkflow P user profile) p Q"
proof -
  define tag where "tag = ''conformance-list-'' @ int_dec (lp_now P p)"
  let ?job = "\<lambda>t. add_tags [tag, tag @ t] (new_job profile user)"
  have own: "own_tag tag" "own_tag (tag @ t)" for t by (simp_all add: own_tag_def tag_def)
  have own_not: "\<not> prefix ''conformance-nomatch-'' tag" "\<not> prefix ''conformance-nomatch-'' (tag @ t)" for t
    by (simp_all add: tag_def)
  have plain: "plain_tags (new_job profile user)"
    using p(2) by (auto simp: plain_tags_def own_tag_def list_all_iff prefix_def)
  have tags: "plain_tags (?job t)" for t by (rule plain_add_tags [OF plain]) (simp add: own_not)
  have brf: "brief (job_Tags (?job t))" for t
  proof -
    have "brief (job_Tags (new_job profile user) @ [tag, tag @ t]) = brief (job_Tags (new_job profile user))"
      by (rule brief_tags) (use own in \<open>auto simp: own_tag_def\<close>)
    then show ?thesis using p(3) by simp
  qed
  have terminal: "goes (t_all (map (\<lambda>j. t_check (\<not> TerminalStatus (job_Status j))) (mock_AllJobs (mock_calls [CJobs (Some js)])))) q Q'"
    if "set js = {j. \<exists>i. jobs q i = Some j \<and> filter_matches ((tag_filter [tag])\<lparr>flt_Statuses := terminal_statuses\<rparr>) j}" "Q' () q"
    for js q Q'
    by (rule goes_all_map; (rule goes_check refl that
        | (use that(1) in \<open>auto simp: nil_slice_def filter_matches_def terminal_statuses_def TerminalStatus_def\<close>; fail))+)
  show ?thesis unfolding testListWorkflow_def Let_def opts
  proof (rule goes_bind, rule goes_stamp, fold tag_def, rule goes_bind, rule goes_submit [OF p(1) tags])
    fix q1 job1 j1
    assume q1: "at_work (Suc n) q1" "accepted (?job ''-a'') j1" "jobs q1 = (jobs p)(job_ID j1 \<mapsto> j1)"
    show "goes (case (job_ID j1, job1) of (id1, _) \<Rightarrow>
        tbind (cf_SubmitJob P user (?job ''-b'')) (\<lambda>(id2, _). t_all
          [t_Run ''FilterByStatusReturnsSubset'' (
             tbind (on_plugin (wait_terminal P (ms 60000) user id1)) (\<lambda>_.
             tbind (call_mock (lp_GetJobs P user ((tag_filter [tag])\<lparr>flt_Statuses := terminal_statuses\<rparr>) [])) (\<lambda>w.
             tseq (t_check (AssertNoError w))
               (t_all (map (\<lambda>j. t_check (\<not> TerminalStatus (job_Status j))) (mock_AllJobs w)))))),
           t_Run ''FilterByTagReturnsSubset'' (
             tbind (on_plugin (cf_GetJobs P user (tag_filter [tag @ ''-a'']))) (\<lambda>jobs.
             tseq (t_check (FindJobByID jobs id1 = None)) (t_check (FindJobByID jobs id2 \<noteq> None))))])) q1 Q"
    proof (rule goes_cases, rule goes_bind, rule goes_submit [OF q1(1) tags])
      fix q2 job2 j2
      assume q2: "at_work n q2" "accepted (?job ''-b'') j2" "jobs q1 (job_ID j2) = None" "jobs q2 = (jobs q1)(job_ID j2 \<mapsto> j2)"
      have id: "job_ID j1 \<noteq> job_ID j2" using q1(3) q2(3) by auto
      have j: "jobs q2 (job_ID j1) = Some j1" "jobs q2 (job_ID j2) = Some j2" "brief (job_Tags j1)"
        using q1(2,3) q2(4) id brf by (auto simp: accepted_def)
      have ok2: "ok n q2" using q2(1) by (simp add: at_work_def)
      have find: "\<not> FindJobByID js (job_ID j1) = None" "\<not> FindJobByID js (job_ID j2) \<noteq> None"
        if js: "set js = {j. \<exists>i. jobs q i = Some j \<and> filter_matches (tag_filter [tag @ ''-a'']) j}" and q: "q = (next_poll ^^ m) q2"
        for js q m
      proof -
        have ok: "ok n q" unfolding q by (rule ok_polls [OF ok2])
        obtain k1 where k1: "jobs q (job_ID j1) = Some k1" "ages j1 k1" unfolding q by (rule polls_jobs [OF ok2 j(1)])
        obtain k2 where k2: "jobs q (job_ID j2) = Some k2" "ages j2 k2" unfolding q by (rule polls_jobs [OF ok2 j(2)])
        have "job_ID k1 = job_ID j1" "tag @ ''-a'' \<in> set (job_Tags k1)"
          using k1(2) q1(2) by (auto simp: ages_def kept_def accepted_def)
        then show "\<not> FindJobByID js (job_ID j1) = None"
          using js k1(1) by (auto simp: FindJobByID_None tag_filter_matches)
        have "tag @ ''-a'' \<notin> set (job_Tags k2)"
          using k2(2) q2(2) p(2) own(2) [of "''-a''"] by (auto simp: ages_def kept_def accepted_def list_all_iff)
        then show "\<not> FindJobByID js (job_ID j2) \<noteq> None"
          using js k2(1) ids [OF ok] by (auto simp: FindJobByID_None tag_filter_matches)
      qed
      show "goes (case (job_ID j2, job2) of (id2, _) \<Rightarrow> t_all
          [t_Run ''FilterByStatusReturnsSubset'' (
             tbind (on_plugin (wait_terminal P (ms 60000) user (job_ID j1))) (\<lambda>_.
             tbind (call_mock (lp_GetJobs P user ((tag_filter [tag])\<lparr>flt_Statuses := terminal_statuses\<rparr>) [])) (\<lambda>w.
             tseq (t_check (AssertNoError w))
               (t_all (map (\<lambda>j. t_check (\<not> TerminalStatus (job_Status j))) (mock_AllJobs w)))))),
           t_Run ''FilterByTagReturnsSubset'' (
             tbind (on_plugin (cf_GetJobs P user (tag_filter [tag @ ''-a'']))) (\<lambda>jobs.
             tseq (t_check (FindJobByID jobs (job_ID j1) = None)) (t_check (FindJobByID jobs id2 \<noteq> None))))]) q2 Q"
        by (rule goes_cases(1) goes_bind goes_Run goes_wait_brief [OF q2(1) j(1,3)] terminal goes_list_mock goes_list goes_check
            goes_all_Cons goes_all_Nil Q tag_filter_simps | assumption | (erule find, assumption) | (simp; fail))+
    qed
  qed
qed

lemma plain_not_own: "list_all (\<lambda>t. \<not> own_tag t) (job_Tags job) \<Longrightarrow> plain_tags job"
  by (auto simp: plain_tags_def own_tag_def list_all_iff prefix_def)

text \<open>The whole suite: thirteen jobs for the invariants, six for the workflows.\<close>

lemma goes_conf_Run:
  assumes prof: "suite_profile brief user stop_status stop_code kill_status kill_code profile"
    and p: "at_work (13 + n) p" and Q: "\<And>q. at_work n q \<Longrightarrow> Q () q"
  shows "goes (conf_Run P user profile) p Q"
proof -
  note d = applyDefaults_suite [OF prof]
  have sucs: "13 + n = Suc (Suc (Suc (Suc (Suc (Suc (Suc (Suc (Suc (Suc (Suc (Suc (Suc n))))))))))))" by simp
  have tags: "plain_tags (new_job (applyDefaults profile) user)" "brief (job_Tags (new_job (applyDefaults profile) user))"
    using prof by (simp_all add: d plain_not_own suite_profile_def)
  have "missing_fields profile = []" using prof by (simp add: suite_profile_def)
  then show ?thesis unfolding conf_Run_def Let_def
    by (rule goes_bind [OF goes_mustValidate])
      (rule goes_Run goes_all_Cons goes_all_Nil goes_testSubmit goes_testGetJob goes_testGetJobs goes_testClusterInfo
        goes_testLifecycle goes_testErrors Q tags d(5) p [unfolded sucs] | assumption)+
qed

lemma goes_RunWorkflows:
  assumes prof: "suite_profile brief user stop_status stop_code kill_status kill_code profile"
    and p: "at_work (6 + n) p" and Q: "\<And>q. at_work n q \<Longrightarrow> Q () q"
  shows "goes (RunWorkflows P user profile) p Q"
proof -
  note d = applyDefaults_suite [OF prof]
  have sucs: "6 + n = Suc (Suc (Suc (Suc (Suc (Suc n)))))" by simp
  have tags: "plain_tags (new_job (applyDefaults profile) user)" "brief (job_Tags (new_job (applyDefaults profile) user))"
    "list_all (\<lambda>t. \<not> own_tag t) (job_Tags (new_job (applyDefaults profile) user))"
    and long: "plain_tags (new_long_job (applyDefaults profile) user)"
      "\<not> brief (job_Tags (new_long_job (applyDefaults profile) user))"
    using prof by (simp_all add: d plain_not_own suite_profile_def)
  have "missing_fields profile = []" using prof by (simp add: suite_profile_def)
  then show ?thesis unfolding RunWorkflows_def Let_def
    by (rule goes_bind [OF goes_mustValidate])
      (rule goes_Run goes_all_Cons goes_all_Nil goes_testLaunch goes_RunStopJob goes_RunKillJob goes_RunCancelJob
        goes_testList goes_cases(2) goes_ret Q tags d p [unfolded sucs] | assumption | (simp add: d long [unfolded d]; fail))+
qed

end

end
