(* ===== verification/Example_Inmemory.thy ===== *)
theory Example_Inmemory
  imports Job_Cache
begin

text \<open>
  The in-memory example plugin (\<^verbatim>\<open>src/examples/inmemory/main.go\<close>): its methods over the job cache,
  giving the calls they make on the response writer, and the goroutines that move a job through
  its life. The parts of a method that wait (tickers, sleeps) separate its definitions.
\<close>

record InMemoryPlugin =
  im_cache :: JobCache
  im_nextID :: "32 word"

definition new_InMemoryPlugin :: InMemoryPlugin where
  "new_InMemoryPlugin = \<lparr>im_cache = NewJobCache, im_nextID = 0\<rparr>"

definition job_name :: "32 word \<Rightarrow> JobID" where
  "job_name n = JobID (''job-'' @ int_dec (sint n))"

definition prepared_job :: "instant \<Rightarrow> string \<Rightarrow> JobID \<Rightarrow> Job \<Rightarrow> Job" where
  "prepared_job now user jid job = job\<lparr>job_ID := jid, job_User := user, job_Submitted := Some now,
     job_LastUpdated := Some now, job_Status := StatusPending\<rparr>"

text \<open>
  \<^verbatim>\<open>SubmitJob\<close>: the plugin afterwards, the calls on the writer, and the arguments of the goroutine it
  starts. Adding to the cache does not fail, so its error branch is never taken.
\<close>

definition im_SubmitJob ::
  "instant \<Rightarrow> bool \<Rightarrow> string \<Rightarrow> Job \<Rightarrow> InMemoryPlugin \<Rightarrow>
   (InMemoryPlugin \<times> writer_call list \<times> string \<times> JobID \<times> bool) go" where
  "im_SubmitJob now pick user job p =
     (let n = im_nextID p + 1; jid = job_name n; job1 = prepared_job now user jid job in
      andThen (AddOrUpdate now pick job1 (im_cache p)) (\<lambda>c.
        Inr (\<lparr>im_cache = c, im_nextID = n\<rparr>, cache_WriteJob user jid c,
          user, jid, ''long-running'' \<in> set (job_Tags job1))))"

text \<open>The two updates of \<^verbatim>\<open>simulateJobLifecycle\<close>; their errors are ignored.\<close>

definition start_job :: "Job \<Rightarrow> Job" where
  "start_job job = (if job_Status job = StatusPending then job\<lparr>job_Status := StatusRunning\<rparr> else job)"

definition finish_job :: "Job \<Rightarrow> Job" where
  "finish_job job = (if job_Status job = StatusRunning
     then job\<lparr>job_Status := StatusFinished, job_ExitCode := Some 0\<rparr> else job)"

definition update_cache ::
  "instant \<Rightarrow> bool \<Rightarrow> string \<Rightarrow> JobID \<Rightarrow> (Job \<Rightarrow> Job) \<Rightarrow> InMemoryPlugin \<Rightarrow> (InMemoryPlugin \<times> Error option) go" where
  "update_cache now pick user jid fn p =
     andThen (cache_Update now pick user jid (\<lambda>j. Some (fn j)) (im_cache p)) (\<lambda>(c, err).
       Inr (p\<lparr>im_cache := c\<rparr>, err))"

text \<open>What is left of a goroutine: both updates, or the second one; the second is skipped for long-running jobs.\<close>

datatype phase = Sleeping | Started

definition lifecycle_step ::
  "instant \<Rightarrow> bool \<Rightarrow> string \<times> JobID \<times> bool \<times> phase \<Rightarrow> InMemoryPlugin \<Rightarrow>
   (InMemoryPlugin \<times> (string \<times> JobID \<times> bool \<times> phase) option) go" where
  "lifecycle_step now pick g p = (case g of (user, jid, longRunning, ph) \<Rightarrow> (case ph of
     Sleeping \<Rightarrow> andThen (update_cache now pick user jid start_job p) (\<lambda>(p', _).
       Inr (p', if longRunning then None else Some (user, jid, longRunning, Started)))
   | Started \<Rightarrow> andThen (update_cache now pick user jid finish_job p) (\<lambda>(p', _). Inr (p', None))))"

definition im_GetJob :: "string \<Rightarrow> JobID \<Rightarrow> string list \<Rightarrow> InMemoryPlugin \<Rightarrow> writer_call list" where
  "im_GetJob user jid flds p = cache_WriteJob user jid (im_cache p)"

definition im_GetJobs ::
  "string list \<Rightarrow> string \<Rightarrow> JobFilter option \<Rightarrow> string list \<Rightarrow> InMemoryPlugin \<Rightarrow> writer_call list go" where
  "im_GetJobs ks user flt flds p = cache_WriteJobs ks user flt (im_cache p)"

text \<open>\<^verbatim>\<open>GetJobOutput\<close>: the check, and the goroutine with the ticks (at most three) before the context ends.\<close>

definition output_line :: "JobOutput \<Rightarrow> nat \<Rightarrow> string" where
  "output_line ot i = (let out = ''Line '' @ nat_dec (i + 1) @ '' from stdout'' @ [CHR 0x0A];
       err = ''Line '' @ nat_dec (i + 1) @ '' from stderr'' @ [CHR 0x0A] in
     if ot = OutputStdout then out else if ot = OutputStderr then err else out @ err)"

definition im_GetJobOutput ::
  "string \<Rightarrow> JobID \<Rightarrow> JobOutput \<Rightarrow> nat \<Rightarrow> InMemoryPlugin \<Rightarrow> writer_call list" where
  "im_GetJobOutput user jid ot ticks p = (case Lookup user jid (im_cache p) of
     Inl err \<Rightarrow> [CError (EApi err)]
   | Inr job \<Rightarrow> map (\<lambda>i. CJobOutput (output_line ot i) ot) [0..<min ticks 3] @ [CClose])"

definition im_GetJobStatus :: "string \<Rightarrow> JobID \<Rightarrow> InMemoryPlugin \<Rightarrow> writer_call list \<times> bool" where
  "im_GetJobStatus user jid p = StreamJobStatus_init user jid (im_cache p)"

definition im_GetJobStatuses :: "string list \<Rightarrow> string \<Rightarrow> InMemoryPlugin \<Rightarrow> writer_call list go" where
  "im_GetJobStatuses ks user p = StreamJobStatuses_init ks user (im_cache p)"

text \<open>\<^verbatim>\<open>GetJobResourceUtil\<close>: one turn of its loop, and the loop over the caches each turn finds.\<close>

definition resource_turn :: "string \<Rightarrow> JobID \<Rightarrow> JobCache \<Rightarrow> writer_call list \<times> bool" where
  "resource_turn user jid c = (case Lookup user jid c of
     Inl err \<Rightarrow> ([CError (EApi err)], False)
   | Inr job \<Rightarrow> (CJobResourceUtil 15 100 350 80 #
       (if TerminalStatus (job_Status job) then [CClose] else []), True))"

fun im_GetJobResourceUtil :: "string \<Rightarrow> JobID \<Rightarrow> JobCache list \<Rightarrow> writer_call list" where
  "im_GetJobResourceUtil user jid [] = []"
| "im_GetJobResourceUtil user jid (c # cs) = (case resource_turn user jid c of
     (calls, go_on) \<Rightarrow> calls @ (if go_on then im_GetJobResourceUtil user jid cs else []))"

text \<open>\<^verbatim>\<open>ControlJob\<close>: what the callback makes of the job and the error it records, and the method.\<close>

definition control_callback :: "JobOperation \<Rightarrow> ControlJobOptions \<Rightarrow> Job \<Rightarrow> Job \<times> Error option" where
  "control_callback op opts job =
     (let expectedStatus = ValidForStatus op in
      if expectedStatus \<noteq> job_Status job then
        (job, Some (Errorf CodeInvalidJobState (''Job must be '' @ expectedStatus @ '' to '' @
           JobOperation_String op @ '' it (current status: '' @ job_Status job @ '')'')))
      else if op = OperationSuspend \<or> op = OperationResume then
        (job, Some (Errorf CodeRequestNotSupported (''Operation '' @ JobOperation_String op @
           '' is not supported by this plugin'')))
      else if op = OperationStop then
        (job\<lparr>job_Status := StatusFinished, job_ExitCode := Some 143\<rparr>, None)
      else if op = OperationKill then
        (job\<lparr>job_Status := StatusKilled, job_ExitCode := Some 137,
           job_StatusMsg := cjo_StatusMessage opts, job_StatusCode := cjo_StatusCode opts\<rparr>, None)
      else if op = OperationCancel then (job\<lparr>job_Status := StatusCanceled\<rparr>, None)
      else (job, None))"

definition im_ControlJob ::
  "instant \<Rightarrow> bool \<Rightarrow> string \<Rightarrow> JobID \<Rightarrow> JobOperation \<Rightarrow> ControlJobOptions \<Rightarrow> InMemoryPlugin \<Rightarrow>
   (InMemoryPlugin \<times> writer_call list) go" where
  "im_ControlJob now pick user jid op opts p =
     andThen (update_cache now pick user jid (\<lambda>j. fst (control_callback op opts j)) p) (\<lambda>(p', err).
       Inr (p', case err of
           Some e \<Rightarrow> [CError (EApi e)]
         | None \<Rightarrow>
             (case Option.bind (store_View (ca_store (im_cache p)) (id_str jid))
                (\<lambda>j. snd (control_callback op opts j)) of
                Some e \<Rightarrow> [CError (EApi e)]
              | None \<Rightarrow> [CControlJob True (''Job '' @ JobOperation_String op @ '' successful'')])))"

definition im_GetJobNetwork :: "string \<Rightarrow> string \<Rightarrow> JobID \<Rightarrow> InMemoryPlugin \<Rightarrow> writer_call list" where
  "im_GetJobNetwork hostname user jid p = (case Lookup user jid (im_cache p) of
     Inl err \<Rightarrow> [CError (EApi err)]
   | Inr job \<Rightarrow> [CJobNetwork hostname (Some [''127.0.0.1''])])"

definition im_ClusterInfo :: "string \<Rightarrow> writer_call list" where
  "im_ClusterInfo user = [CClusterInfo \<lparr>
     co_Constraints = Some [],
     co_Queues = Some [''default'', ''high-priority'', ''batch''],
     co_DefaultQueue = ''default'',
     co_Limits = Some [\<lparr>rl_Type = ''cpuCount'', rl_Value = '''', rl_Default = '''', rl_Max = ''32''\<rparr>,
       \<lparr>rl_Type = ''memory'', rl_Value = '''', rl_Default = '''', rl_Max = ''128GB''\<rparr>],
     co_ImageOpt = \<lparr>io_Default = '''', io_Images = None, io_AllowUnknown = False, io_HostNetwork = False,
       io_InitContainers = False\<rparr>,
     co_Configs = Some [\<lparr>jc_Name = ''email'', jc_Type = ''string'', jc_Value = ''''\<rparr>,
       \<lparr>jc_Name = ''notifications'', jc_Type = ''bool'', jc_Value = ''''\<rparr>],
     co_Profiles = Some []\<rparr>]"


section \<open>The plugin at work\<close>

text \<open>
  Requests, the goroutines of the submitted jobs, and whatever else happens to the cache without
  touching its store (its service goroutine, subscriptions), in any order. The number of
  submissions is recorded.
\<close>

record sim =
  si_plugin :: InMemoryPlugin
  si_routines :: "(string \<times> JobID \<times> bool \<times> phase) list"
  si_submits :: nat

definition sim_start :: "sim \<Rightarrow> bool" where
  "sim_start s \<longleftrightarrow> s = \<lparr>si_plugin = new_InMemoryPlugin, si_routines = [], si_submits = 0\<rparr>"

inductive sim_step :: "sim \<Rightarrow> sim \<Rightarrow> bool" where
  sim_submit: "im_SubmitJob now pick user job (si_plugin s) = Inr (p, calls, u, jid, lr) \<Longrightarrow>
    sim_step s (s\<lparr>si_plugin := p, si_routines := si_routines s @ [(u, jid, lr, Sleeping)],
      si_submits := Suc (si_submits s)\<rparr>)"
| sim_routine: "si_routines s = xs @ g # ys \<Longrightarrow> lifecycle_step now pick g (si_plugin s) = Inr (p, g') \<Longrightarrow>
    sim_step s (s\<lparr>si_plugin := p, si_routines := xs @ (case g' of None \<Rightarrow> [] | Some h \<Rightarrow> [h]) @ ys\<rparr>)"
| sim_control: "im_ControlJob now pick user jid op opts (si_plugin s) = Inr (p, calls) \<Longrightarrow>
    sim_step s (s\<lparr>si_plugin := p\<rparr>)"
| sim_cache: "ca_store c = ca_store (im_cache (si_plugin s)) \<Longrightarrow> \<not> chan_closed (ca_ch c) \<Longrightarrow>
    sim_step s (s\<lparr>si_plugin := (si_plugin s)\<lparr>im_cache := c\<rparr>\<rparr>)"

text \<open>The abstract view: which jobs there are, and the status of each, moving along its life.\<close>

inductive life_step :: "string \<Rightarrow> string \<Rightarrow> bool" where
  life_run: "life_step StatusPending StatusRunning"
| life_cancel: "life_step StatusPending StatusCanceled"
| life_finish: "life_step StatusRunning StatusFinished"
| life_kill: "life_step StatusRunning StatusKilled"

inductive jobs_step :: "(string \<rightharpoonup> string) \<Rightarrow> (string \<rightharpoonup> string) \<Rightarrow> bool" where
  jobs_new: "m k = None \<Longrightarrow> jobs_step m (m(k \<mapsto> StatusPending))"
| jobs_move: "m k = Some st \<Longrightarrow> life_step st st' \<Longrightarrow> jobs_step m (m(k \<mapsto> st'))"

definition statuses :: "sim \<Rightarrow> string \<rightharpoonup> string" where
  "statuses s k = map_option job_Status (store_View (ca_store (im_cache (si_plugin s))) k)"



section \<open>Refinement of the job life cycle\<close>

definition sim_ok :: "sim \<Rightarrow> bool" where
  "sim_ok s \<longleftrightarrow> \<not> chan_closed (ca_ch (im_cache (si_plugin s))) \<and>
     im_nextID (si_plugin s) = of_nat (si_submits s) \<and>
     dom (store_View (ca_store (im_cache (si_plugin s)))) \<subseteq>
       (\<lambda>i. id_str (job_name (of_nat i))) ` {1..si_submits s}"

definition moves :: "(Job \<Rightarrow> Job) \<Rightarrow> bool" where
  "moves fn \<longleftrightarrow> (\<forall>j. job_Status (fn j) = job_Status j \<or> life_step (job_Status j) (job_Status (fn j)))"

lemma syncJob2_status: "job_Status (fst (syncJob2 now old job)) = job_Status job"
  by (simp add: syncJob2_merged merged_same) (simp add: merged_def)

lemma posted_closed [simp]: "chan_closed (posted change pick job c) = chan_closed (ca_ch c)"
  by (simp add: posted_def offered_def)

lemma moves_methods:
  "moves start_job" "moves finish_job" "moves (\<lambda>j. fst (control_callback op opts j))"
proof -
  show "moves start_job" "moves finish_job"
    by (auto simp: moves_def start_job_def finish_job_def intro: life_step.intros)
  show "moves (\<lambda>j. fst (control_callback op opts j))"
    by (auto simp: moves_def control_callback_def Let_def ValidForStatus_def OperationSuspend_def
        OperationResume_def OperationStop_def OperationKill_def OperationCancel_def)
       (metis life_step.intros)+
qed

lemma update_cache_moves:
  assumes "\<not> chan_closed (ca_ch (im_cache p))" "moves fn" "update_cache now pick user jid fn p = Inr (p', err)"
  shows "im_nextID p' = im_nextID p \<and> \<not> chan_closed (ca_ch (im_cache p')) \<and>
    (let v = store_View (ca_store (im_cache p)); v' = store_View (ca_store (im_cache p')) in dom v' = dom v \<and>
      ((\<lambda>k. map_option job_Status (v' k)) = (\<lambda>k. map_option job_Status (v k)) \<or>
       jobs_step (\<lambda>k. map_option job_Status (v k)) (\<lambda>k. map_option job_Status (v' k))))"
proof -
  let ?v = "store_View (ca_store (im_cache p))"
  let ?st = "\<lambda>k. map_option job_Status (?v k)"
  obtain c where c: "cache_Update now pick user jid (\<lambda>j. Some (fn j)) (im_cache p) = Inr (c, err)"
    and p': "p' = p\<lparr>im_cache := c\<rparr>" using assms(3) by (auto simp: update_cache_def)
  show ?thesis
  proof (cases "may_see user (?v (id_str jid))")
    case False
    from cache_Update_not_found [OF this, of now pick "\<lambda>j. Some (fn j)"] c p' assms(1) show ?thesis
      by auto
  next
    case True
    then obtain old where old: "?v (id_str jid) = Some old" "user = ''*'' \<or> job_User old = user"
      by (auto simp: may_see_def)
    from cache_Update_found [where fn = "\<lambda>j. Some (fn j)", OF assms(1) old refl, of now pick] c
    have cl: "\<not> chan_closed (ca_ch c)"
      and v': "store_View (ca_store c) = ?v(id_str jid \<mapsto> fst (syncJob2 now old (fn old)))"
      using assms(1) by auto
    have st: "(\<lambda>k. map_option job_Status (store_View (ca_store c) k)) = ?st(id_str jid \<mapsto> job_Status (fn old))"
      by (auto simp: v' fun_eq_iff syncJob2_status)
    have "job_Status (fn old) = job_Status old \<or> life_step (job_Status old) (job_Status (fn old))"
      using assms(2) by (simp add: moves_def)
    then have "?st(id_str jid \<mapsto> job_Status (fn old)) = ?st \<or> jobs_step ?st (?st(id_str jid \<mapsto> job_Status (fn old)))"
      using old(1) by (auto simp: fun_eq_iff intro: jobs_move)
    moreover have "dom (store_View (ca_store c)) = dom ?v" using old(1) by (auto simp: v' dom_def)
    ultimately show ?thesis using cl p' unfolding Let_def by (simp add: st)
  qed
qed

lemma job_name_inj:
  assumes "id_str (job_name (of_nat i)) = id_str (job_name (of_nat j))" "i < 2 ^ 32" "j < 2 ^ 32"
  shows "i = j"
proof -
  from assms(1) have "sint (of_nat i :: 32 word) = sint (of_nat j :: 32 word)"
    by (auto simp: job_name_def dest: int_dec_inj)
  then have "(of_nat i :: 32 word) = of_nat j" by (simp add: signed_word_eqI)
  then have "unat (of_nat i :: 32 word) = unat (of_nat j :: 32 word)" by simp
  then show ?thesis using assms(2,3) by (simp add: unsigned_of_nat take_bit_nat_eq_self)
qed

lemma submit_refines:
  assumes ok: "sim_ok s" and sub: "im_SubmitJob now pick user job (si_plugin s) = Inr (p, calls, u, jid, lr)"
    and small: "Suc (si_submits s) < 2 ^ 32"
  shows "sim_ok (s\<lparr>si_plugin := p, si_routines := rs, si_submits := Suc (si_submits s)\<rparr>) \<and>
    jobs_step (statuses s) (statuses (s\<lparr>si_plugin := p, si_routines := rs, si_submits := Suc (si_submits s)\<rparr>))"
proof -
  define n :: "32 word" where "n = of_nat (Suc (si_submits s))"
  let ?c = "im_cache (si_plugin s)" and ?t = "s\<lparr>si_plugin := p, si_routines := rs, si_submits := Suc (si_submits s)\<rparr>"
  let ?job = "prepared_job now user (job_name n) job" and ?k = "id_str (job_name n)"
  have "im_nextID (si_plugin s) + 1 = n" using ok by (simp add: sim_ok_def n_def)
  then obtain c where add: "AddOrUpdate now pick ?job ?c = Inr c" and p: "p = \<lparr>im_cache = c, im_nextID = n\<rparr>"
    using sub by (auto simp: im_SubmitJob_def Let_def)
  have id: "job_ID ?job = job_name n" by (simp add: prepared_job_def)
  have none: "store_View (ca_store ?c) ?k = None"
  proof (rule ccontr)
    assume "store_View (ca_store ?c) ?k \<noteq> None"
    then have "?k \<in> dom (store_View (ca_store ?c))" by blast
    with ok obtain i where "i \<in> {1..si_submits s}" "?k = id_str (job_name (of_nat i))"
      unfolding sim_ok_def by blast
    with job_name_inj [of "Suc (si_submits s)" i] small show False unfolding n_def by auto
  qed
  have op: "\<not> chan_closed (ca_ch ?c)" using ok by (simp add: sim_ok_def)
  from AddOrUpdate_runs [OF op, of now pick ?job] add none op have
    v: "store_View (ca_store c) = (store_View (ca_store ?c))(?k \<mapsto> ?job)" and cl: "\<not> chan_closed (ca_ch c)"
    unfolding id by (auto simp: stored_def)
  have "?k \<in> (\<lambda>i. id_str (job_name (of_nat i))) ` {1..Suc (si_submits s)}"
    unfolding n_def by (rule image_eqI [OF refl]) simp
  moreover have "dom (store_View (ca_store ?c)) \<subseteq> (\<lambda>i. id_str (job_name (of_nat i))) ` {1..Suc (si_submits s)}"
  proof (rule subset_trans)
    show "dom (store_View (ca_store ?c)) \<subseteq> (\<lambda>i. id_str (job_name (of_nat i))) ` {1..si_submits s}"
      using ok by (simp add: sim_ok_def)
  qed (rule image_mono, simp)
  ultimately have dom: "dom (store_View (ca_store c)) \<subseteq> (\<lambda>i. id_str (job_name (of_nat i))) ` {1..Suc (si_submits s)}"
    unfolding v by auto
  have st: "statuses ?t = (statuses s)(?k \<mapsto> StatusPending)"
    by (auto simp: statuses_def fun_eq_iff p v prepared_job_def)
  have "jobs_step (statuses s) ((statuses s)(?k \<mapsto> StatusPending))"
    by (rule jobs_new) (simp add: statuses_def none)
  moreover have "sim_ok ?t" using cl dom unfolding sim_ok_def by (simp add: p n_def)
  ultimately show ?thesis by (simp add: st)
qed

lemma update_refines:
  assumes ok: "sim_ok s" and "moves fn" "update_cache now pick user jid fn (si_plugin s) = Inr (p, err)"
  shows "sim_ok (s\<lparr>si_plugin := p, si_routines := rs\<rparr>) \<and>
    (statuses (s\<lparr>si_plugin := p, si_routines := rs\<rparr>) = statuses s \<or>
     jobs_step (statuses s) (statuses (s\<lparr>si_plugin := p, si_routines := rs\<rparr>)))"
proof -
  have "\<not> chan_closed (ca_ch (im_cache (si_plugin s)))" using ok by (simp add: sim_ok_def)
  from update_cache_moves [OF this assms(2,3)] ok show ?thesis
    unfolding statuses_def sim_ok_def Let_def by (simp add: statuses_def [abs_def])
qed

lemma sim_step_refines:
  assumes "sim_ok s" "sim_step s t" "si_submits t < 2 ^ 32"
  shows "sim_ok t \<and> (statuses t = statuses s \<or> jobs_step (statuses s) (statuses t))"
  using assms(2)
proof cases
  case (sim_submit now pick user job p calls u jid lr)
  with submit_refines [OF assms(1) sim_submit(2)] assms(3) show ?thesis by simp
next
  case (sim_routine xs g ys now pick p g')
  obtain user jid lr ph where g: "g = (user, jid, lr, ph)" by (cases g) auto
  with sim_routine(3) obtain fn err where "moves fn" "update_cache now pick user jid fn (si_plugin s) = Inr (p, err)"
    using moves_methods(1,2) by (auto simp: lifecycle_step_def split: phase.split_asm)
  from update_refines [OF assms(1) this] sim_routine(1) show ?thesis by simp
next
  case (sim_control now pick user jid op opts p calls)
  then obtain err where "update_cache now pick user jid (\<lambda>j. fst (control_callback op opts j)) (si_plugin s) = Inr (p, err)"
    by (auto simp: im_ControlJob_def)
  from update_refines [OF assms(1) moves_methods(3) this, of "si_routines s"] sim_control(1) show ?thesis
    by simp
next
  case (sim_cache c)
  with assms(1) show ?thesis by (auto simp: sim_ok_def statuses_def fun_eq_iff)
qed


lemma sim_submits_mono: "sim_step s t \<Longrightarrow> si_submits s \<le> si_submits t"
  by (auto elim: sim_step.cases)

lemma new_view: "store_View (ca_store NewJobCache) = Map.empty"
  by (simp add: fun_eq_iff)

lemma sim_reachable_ok:
  assumes "reachable sim_start sim_step s" "si_submits s < 2 ^ 32"
  shows "sim_ok s"
  using assms
proof (induction rule: reachable.induct)
  case (reach_start s)
  then show ?case by (auto simp: sim_start_def sim_ok_def new_InMemoryPlugin_def new_view)
next
  case (reach_step s t)
  then show ?case using sim_submits_mono [of s t] sim_step_refines [of s t] by simp
qed

text \<open>
  C5: The plugin refines the life cycle of jobs. As long as fewer than \<open>2^32\<close> jobs were submitted,
  every step (a request, a turn of a job's goroutine, work of the cache) either leaves all
  statuses alone, or adds one new job that is pending, or moves one job along an edge of its life
  cycle: pending to running or canceled, running to finished or killed.
\<close>

theorem inmemory_refines:
  assumes "reachable sim_start sim_step s" "sim_step s t" "si_submits t < 2 ^ 32"
  shows "statuses t = statuses s \<or> jobs_step (statuses s) (statuses t)"
proof -
  have "si_submits s < 2 ^ 32" using sim_submits_mono [OF assms(2)] assms(3) by simp
  from sim_step_refines [OF sim_reachable_ok [OF assms(1) this] assms(2,3)] show ?thesis by simp
qed

definition sim_zero :: sim where
  "sim_zero = \<lparr>si_plugin = new_InMemoryPlugin, si_routines = [], si_submits = 0\<rparr>"

lemma sim_zero_ok: "sim_ok sim_zero" "reachable sim_start sim_step sim_zero"
proof -
  show "sim_ok sim_zero" by (simp add: sim_zero_def sim_ok_def new_InMemoryPlugin_def new_view)
  show "reachable sim_start sim_step sim_zero"
    by (rule reachable.reach_start) (simp add: sim_start_def sim_zero_def)
qed

lemma job_name_1: "id_str (job_name 1) = ''job-1''"
  by (simp add: job_name_def int_dec_def nat_dec.simps digit_char_def char_of_def bit_0)

lemma sim_first_submit:
  "\<exists>s. sim_step sim_zero s \<and> si_submits s = 1 \<and> statuses s ''job-1'' = Some StatusPending"
proof -
  let ?job = "prepared_job 0 ''ann'' (job_name 1) zero_Job"
  have id: "job_ID ?job = job_name 1" by (simp add: prepared_job_def)
  from AddOrUpdate_runs [OF new_cache_open(1), of 0 True ?job] obtain c where
    c: "AddOrUpdate 0 True ?job NewJobCache = Inr c"
    "store_View (ca_store c) = (store_View (ca_store NewJobCache))(''job-1'' \<mapsto> ?job)"
    unfolding id job_name_1 by (auto simp: stored_def)
  have "im_SubmitJob 0 True ''ann'' zero_Job (si_plugin sim_zero) =
      Inr (\<lparr>im_cache = c, im_nextID = 1\<rparr>, cache_WriteJob ''ann'' (job_name 1) c, ''ann'', job_name 1,
        ''long-running'' \<in> set (job_Tags ?job))"
    using c(1) by (simp add: im_SubmitJob_def sim_zero_def new_InMemoryPlugin_def Let_def)
  from sim_submit [OF this] c(2) show ?thesis
    by (intro exI conjI) (assumption, simp_all add: sim_zero_def statuses_def prepared_job_def)
qed

theorem inmemory_refines_witness:
  "\<exists>s. sim_step sim_zero s \<and> statuses s \<noteq> statuses sim_zero \<and> jobs_step (statuses sim_zero) (statuses s)"
proof -
  obtain s where s: "sim_step sim_zero s" "si_submits s = 1" "statuses s ''job-1'' = Some StatusPending"
    using sim_first_submit by blast
  moreover have "statuses sim_zero ''job-1'' = None"
    by (simp add: sim_zero_def statuses_def new_InMemoryPlugin_def)
  ultimately have "statuses s \<noteq> statuses sim_zero" by (metis option.distinct(1))
  with inmemory_refines [OF sim_zero_ok(2) s(1)] s show ?thesis by auto
qed

lemma life_step_active: "life_step st st' \<Longrightarrow> \<not> TerminalStatus st"
  by (auto elim!: life_step.cases simp: TerminalStatus_def api_defs)

lemma jobs_step_terminal:
  "jobs_step m m' \<Longrightarrow> m k = Some st \<Longrightarrow> TerminalStatus st \<Longrightarrow> m' k = Some st"
  by (elim jobs_step.cases) (auto simp: life_step_active dest: life_step_active)

text \<open>
  A terminal status is final: once a job is finished, killed or canceled, no later requests
  (however many, in whatever order with the goroutines that still want to start or finish it)
  change its status, as long as fewer than \<open>2^32\<close> jobs were submitted.
\<close>

theorem inmemory_terminal_final:
  assumes "reachable sim_start sim_step s" "sim_step\<^sup>*\<^sup>* s t" "si_submits t < 2 ^ 32"
    and "statuses s k = Some st" "TerminalStatus st"
  shows "statuses t k = Some st"
  using assms(2,3)
proof (induction rule: rtranclp_induct)
  case base
  then show ?case using assms(4) by simp
next
  case (step u t)
  then have u: "si_submits u < 2 ^ 32" using sim_submits_mono [of u t] by simp
  with step.IH have st: "statuses u k = Some st" by blast
  have "sim_ok u" by (rule sim_reachable_ok [OF reachable_rtranclp [OF step.hyps(1) assms(1)] u])
  from sim_step_refines [OF this step.hyps(2) step.prems] st assms(5) show ?case
    by (auto dest: jobs_step_terminal)
qed

lemma control_cancels:
  assumes "sim_ok s" "statuses s ''job-1'' = Some StatusPending"
  shows "\<exists>t. sim_step s t \<and> si_submits t = si_submits s \<and> statuses t ''job-1'' = Some StatusCanceled"
proof -
  let ?c = "im_cache (si_plugin s)" and ?opts = "\<lparr>cjo_StatusMessage = '''', cjo_StatusCode = ''''\<rparr>"
  let ?fn = "\<lambda>j. fst (control_callback OperationCancel ?opts j)"
  from assms obtain old where old: "store_View (ca_store ?c) ''job-1'' = Some old" "job_Status old = StatusPending"
    "\<not> chan_closed (ca_ch ?c)" by (auto simp: statuses_def sim_ok_def)
  then have new: "job_Status (?fn old) = StatusCanceled"
    by (simp add: control_callback_def ValidForStatus_def api_defs)
  have "store_View (ca_store ?c) (id_str (JobID ''job-1'')) = Some old" using old by simp
  from cache_Update_found [where fn = "\<lambda>j. Some (?fn j)", OF old(3) this _ refl, of "''*''" 0 True] obtain c where
    c: "cache_Update 0 True ''*'' (JobID ''job-1'') (\<lambda>j. Some (?fn j)) ?c = Inr (c, None)"
    "store_View (ca_store c) = (store_View (ca_store ?c))(''job-1'' \<mapsto> fst (syncJob2 0 old (?fn old)))"
    by auto
  then have "\<exists>calls. im_ControlJob 0 True ''*'' (JobID ''job-1'') OperationCancel ?opts (si_plugin s) =
      Inr ((si_plugin s)\<lparr>im_cache := c\<rparr>, calls)" by (simp add: im_ControlJob_def update_cache_def)
  then obtain calls where "im_ControlJob 0 True ''*'' (JobID ''job-1'') OperationCancel ?opts (si_plugin s) =
      Inr ((si_plugin s)\<lparr>im_cache := c\<rparr>, calls)" ..
  from sim_control [OF this] c(2) new show ?thesis
    by (intro exI conjI) (assumption, simp_all add: statuses_def syncJob2_status)
qed

theorem inmemory_terminal_final_witness:
  "\<exists>s t. reachable sim_start sim_step s \<and> statuses s ''job-1'' = Some StatusCanceled \<and>
     sim_step s t \<and> si_submits t = 1 \<and> statuses t ''job-1'' = Some StatusCanceled"
proof -
  obtain r where r: "sim_step sim_zero r" "si_submits r = 1" "statuses r ''job-1'' = Some StatusPending"
    using sim_first_submit by blast
  have rr: "reachable sim_start sim_step r" by (rule reachable.reach_step [OF sim_zero_ok(2) r(1)])
  have "sim_ok r" by (rule sim_reachable_ok [OF rr]) (simp add: r(2))
  from control_cancels [OF this r(3)] obtain s where
    s: "sim_step r s" "si_submits s = 1" "statuses s ''job-1'' = Some StatusCanceled" using r(2) by auto
  have rs: "reachable sim_start sim_step s" by (rule reachable.reach_step [OF rr s(1)])
  have "sim_ok s" by (rule sim_reachable_ok [OF rs]) (simp add: s(2))
  then have "sim_step s (s\<lparr>si_plugin := (si_plugin s)\<lparr>im_cache := im_cache (si_plugin s)\<rparr>\<rparr>)"
    by (intro sim_cache) (simp_all add: sim_ok_def)
  then have st: "sim_step s s" by simp
  moreover have "statuses s ''job-1'' = Some StatusCanceled"
    by (rule inmemory_terminal_final [OF rs r_into_rtranclp [of sim_step, OF st]])
       (simp_all add: s TerminalStatus_def)
  ultimately show ?thesis using rs s by blast
qed

text \<open>
  A job with a terminal status does not end its resource stream: every turn sends another sample
  and another end-of-stream response, until the client cancels.
\<close>

lemma resource_stream_goes_on:
  assumes "\<forall>c\<in>set cs. \<exists>job. Lookup user jid c = Inr job \<and> TerminalStatus (job_Status job)"
  shows "im_GetJobResourceUtil user jid cs =
    concat (map (\<lambda>_. [CJobResourceUtil 15 100 350 80, CClose]) cs)"
  using assms by (induction cs) (auto simp: resource_turn_def)

end
