(* ===== verification/Conformance_Inmemory.thy ===== *)
theory Conformance_Inmemory
  imports Conformance_Laws Example_Inmemory
begin

text \<open>
  The in-memory example plugin under the conformance suite. Its methods are those of the example; its
  surroundings are a clock and the goroutines that sleep until their time, which run when the clock
  passes it, so that calls take no time and sleeps are exact. The laws of a conforming plugin
  are proved of it, and with them that it passes the suite.
\<close>

section \<open>The plugin and its clock\<close>

record im_stream =
  is_kind :: stream_kind
  is_user :: string
  is_opened :: int
  is_deadline :: "int option"
  is_cancelled :: "int option"
  is_plugin :: InMemoryPlugin

type_synonym routine = "int \<times> string \<times> JobID \<times> bool \<times> phase"

record im_world =
  iw_plugin :: InMemoryPlugin
  iw_now :: int
  iw_routines :: "routine list"
  iw_streams :: "im_stream list"

text \<open>
  What is left open: the order in which a map is visited, the number of turns of a loop before its
  timeout (one less than the exact number when both cases of a \<^verbatim>\<open>select\<close> are ready at the end), and
  the host name.
\<close>

record surround =
  sr_keys :: "inMemoryStore \<Rightarrow> string list"
  sr_rounds :: "int \<Rightarrow> int \<Rightarrow> nat"
  sr_host :: string

definition surround_ok :: "surround \<Rightarrow> bool" where
  "surround_ok S \<longleftrightarrow> (\<forall>s. enumerates (sr_keys S s) s) \<and> (\<forall>i t. nat (t div i) \<le> Suc (sr_rounds S i t))"

text \<open>A goroutine whose time has come runs up to its next sleep; it has at most two steps.\<close>

definition due_step :: "int \<Rightarrow> routine option \<Rightarrow> InMemoryPlugin \<Rightarrow> InMemoryPlugin \<times> routine option" where
  "due_step T r p = (case r of
     None \<Rightarrow> (p, None)
   | Some (t, g) \<Rightarrow>
       if t \<le> T then (case lifecycle_step t True g p of
           Inr (p', g') \<Rightarrow> (p', map_option (\<lambda>h. (t + ms 4500, h)) g')
         | Inl _ \<Rightarrow> (p, None))
       else (p, Some (t, g)))"

definition advance :: "int \<Rightarrow> routine \<Rightarrow> InMemoryPlugin \<Rightarrow> InMemoryPlugin \<times> routine option" where
  "advance T r p = (case due_step T (Some r) p of (p', r') \<Rightarrow> due_step T r' p')"

fun run_due :: "int \<Rightarrow> routine list \<Rightarrow> InMemoryPlugin \<Rightarrow> InMemoryPlugin \<times> routine list" where
  "run_due T [] p = (p, [])"
| "run_due T (r # rs) p = (case advance T r p of (p1, r1) \<Rightarrow> (case run_due T rs p1 of (p2, rs') \<Rightarrow>
     (p2, (case r1 of None \<Rightarrow> [] | Some r' \<Rightarrow> [r']) @ rs')))"

definition iw_elapse :: "int \<Rightarrow> im_world \<Rightarrow> im_world" where
  "iw_elapse d w = (case run_due (iw_now w + d) (iw_routines w) (iw_plugin w) of (p, rs) \<Rightarrow>
     w\<lparr>iw_plugin := p, iw_now := iw_now w + d, iw_routines := rs\<rparr>)"

definition iw_SubmitJob :: "string \<Rightarrow> Job \<Rightarrow> im_world \<Rightarrow> im_world \<times> Job \<times> writer_call list" where
  "iw_SubmitJob user job w = (case im_SubmitJob (iw_now w) True user job (iw_plugin w) of
     Inr (p, calls, u, jid, lr) \<Rightarrow>
       (w\<lparr>iw_plugin := p, iw_routines := iw_routines w @ [(iw_now w + ms 500, u, jid, lr, Sleeping)]\<rparr>,
        prepared_job (iw_now w) user jid job, calls)
   | Inl _ \<Rightarrow> (w, job, []))"

definition iw_ControlJob :: "string \<Rightarrow> JobID \<Rightarrow> JobOperation \<Rightarrow> ControlJobOptions \<Rightarrow> im_world \<Rightarrow> im_world \<times> writer_call list" where
  "iw_ControlJob user jid op opts w = (case im_ControlJob (iw_now w) True user jid op opts (iw_plugin w) of
     Inr (p, calls) \<Rightarrow> (w\<lparr>iw_plugin := p\<rparr>, calls) | Inl _ \<Rightarrow> (w, []))"

definition iw_GetJobs :: "surround \<Rightarrow> string \<Rightarrow> JobFilter \<Rightarrow> string list \<Rightarrow> im_world \<Rightarrow> im_world \<times> writer_call list" where
  "iw_GetJobs S user flt flds w =
     (w, case im_GetJobs (sr_keys S (ca_store (im_cache (iw_plugin w)))) user (Some flt) flds (iw_plugin w) of
           Inr calls \<Rightarrow> calls | Inl _ \<Rightarrow> [])"

text \<open>
  The calls made on a stream's writer so far. The output goroutine ticks every second until the
  context ends, three times at most. Of a status stream only the listing at its start is shown; its
  method returns when the context is cancelled.
\<close>

definition stream_end :: "im_stream \<Rightarrow> int \<Rightarrow> int" where
  "stream_end st now = (let e = (case is_deadline st of None \<Rightarrow> now | Some t \<Rightarrow> min now t) in
     case is_cancelled st of None \<Rightarrow> e | Some t \<Rightarrow> min e t)"

definition iw_written :: "surround \<Rightarrow> nat \<Rightarrow> im_world \<Rightarrow> writer_call list" where
  "iw_written S h w = (if h < length (iw_streams w) then
     (let st = iw_streams w ! h; e = stream_end st (iw_now w); ticks = nat ((e - is_opened st) div ms 1000) in
      case is_kind st of
        OutputStream jid ot \<Rightarrow>
          (let calls = im_GetJobOutput (is_user st) jid ot ticks (is_plugin st) in
           if ticks \<ge> 3 \<or> e < iw_now w then calls else filter (\<lambda>c. c \<noteq> CClose) calls)
      | StatusStream \<Rightarrow>
          (case im_GetJobStatuses (sr_keys S (ca_store (im_cache (is_plugin st)))) (is_user st) (is_plugin st) of
             Inr calls \<Rightarrow> calls | Inl _ \<Rightarrow> [])) else [])"

definition iw_open :: "stream_kind \<Rightarrow> string \<Rightarrow> int option \<Rightarrow> im_world \<Rightarrow> im_world \<times> nat" where
  "iw_open kind user timeout w =
     (w\<lparr>iw_streams := iw_streams w @ [\<lparr>is_kind = kind, is_user = user, is_opened = iw_now w,
        is_deadline = map_option (\<lambda>t. iw_now w + t) timeout, is_cancelled = None, is_plugin = iw_plugin w\<rparr>]\<rparr>,
      length (iw_streams w))"

definition iw_cancel :: "nat \<Rightarrow> im_world \<Rightarrow> im_world" where
  "iw_cancel h w = w\<lparr>iw_streams := (iw_streams w)[h := (iw_streams w ! h)\<lparr>is_cancelled := Some (iw_now w)\<rparr>]\<rparr>"

definition iw_await :: "nat \<Rightarrow> int option \<Rightarrow> im_world \<Rightarrow> im_world \<times> bool" where
  "iw_await h timeout w = (w, h < length (iw_streams w) \<longrightarrow>
     (case is_kind (iw_streams w ! h) of OutputStream _ _ \<Rightarrow> True
      | StatusStream \<Rightarrow> is_cancelled (iw_streams w ! h) \<noteq> None))"

definition im_launcher_plugin :: "surround \<Rightarrow> im_world launcher_plugin" where
  "im_launcher_plugin S = \<lparr>
     lp_SubmitJob = iw_SubmitJob,
     lp_GetJob = (\<lambda>user jid flds w. (w, im_GetJob user jid flds (iw_plugin w))),
     lp_GetJobs = iw_GetJobs S,
     lp_ControlJob = iw_ControlJob,
     lp_GetJobNetwork = (\<lambda>user jid w. (w, im_GetJobNetwork (sr_host S) user jid (iw_plugin w))),
     lp_ClusterInfo = (\<lambda>user w. (w, im_ClusterInfo user)),
     lp_Metrics = None,
     lp_open = iw_open,
     lp_written = iw_written S,
     lp_cancel = iw_cancel,
     lp_await = iw_await,
     lp_elapse = iw_elapse,
     lp_rounds = (\<lambda>i t w. sr_rounds S i t),
     lp_now = iw_now\<rparr>"

definition new_im_world :: "int \<Rightarrow> im_world" where
  "new_im_world now = \<lparr>iw_plugin = new_InMemoryPlugin, iw_now = now, iw_routines = [], iw_streams = []\<rparr>"


section \<open>One goroutine\<close>

abbreviation pview :: "InMemoryPlugin \<Rightarrow> string \<Rightarrow> Job option" where
  "pview p \<equiv> store_View (ca_store (im_cache p))"

definition plugin_ok :: "InMemoryPlugin \<Rightarrow> bool" where
  "plugin_ok p \<longleftrightarrow> \<not> chan_closed (ca_ch (im_cache p)) \<and> store_ok (ca_store (im_cache p))"

definition long_tags :: "string list \<Rightarrow> bool" where
  "long_tags ts \<longleftrightarrow> ''long-running'' \<in> set ts"

lemma sync_keeps:
  "kept old (fst (syncJob2 now old j))" "job_User (fst (syncJob2 now old j)) = job_User old"
  "job_Status (fst (syncJob2 now old j)) = job_Status j"
  "job_ExitCode (fst (syncJob2 now old j)) = or_else (job_ExitCode j) (job_ExitCode old)"
proof -
  show "job_Status (fst (syncJob2 now old j)) = job_Status j" by (rule syncJob2_status)
  show "job_ExitCode (fst (syncJob2 now old j)) = or_else (job_ExitCode j) (job_ExitCode old)"
    by (simp add: syncJob2_merged merged_same) (simp add: merged_def)
qed (simp_all add: syncJob2_merged merged_def kept_def)

lemma update_cache_runs:
  assumes "plugin_ok p" "pview p (id_str jid) = Some old" "user = ''*'' \<or> job_User old = user"
  obtains p' where "update_cache now True user jid fn p = Inr (p', None)" "plugin_ok p'" "im_nextID p' = im_nextID p"
    "pview p' = (pview p)(id_str jid \<mapsto> fst (syncJob2 now old (fn old)))"
proof -
  from cache_Update_found [where fn = "\<lambda>j. Some (fn j)", OF _ assms(2,3) refl, of now True] assms(1)
  show thesis by (auto simp: plugin_ok_def update_cache_def intro!: that)
qed

text \<open>What a goroutine has done to its job by the time \<open>T\<close>, and what is left of it.\<close>

definition started :: "string \<Rightarrow> string" where
  "started st = (if st = StatusPending then StatusRunning else st)"

definition finished :: "string \<Rightarrow> string" where
  "finished st = (if st = StatusRunning then StatusFinished else st)"

definition tracked :: "int \<Rightarrow> routine \<Rightarrow> Job \<Rightarrow> Job \<Rightarrow> routine option \<Rightarrow> bool" where
  "tracked T r j j' r' \<longleftrightarrow> ages j j' \<and> job_User j' = job_User j \<and>
     (case r of (t, u, jid, lr, ph) \<Rightarrow>
        if T < t then j' = j \<and> r' = Some r
        else (case ph of
            Started \<Rightarrow> r' = None \<and> job_Status j' = finished (job_Status j)
          | Sleeping \<Rightarrow>
              if lr then r' = None \<and> job_Status j' = started (job_Status j)
              else if T < t + ms 4500 then r' = Some (t + ms 4500, u, jid, lr, Started) \<and> job_Status j' = started (job_Status j)
              else r' = None \<and> job_Status j' = finished (started (job_Status j))))"

definition sees_job :: "string \<Rightarrow> Job \<Rightarrow> bool" where
  "sees_job u j \<longleftrightarrow> u = ''*'' \<or> job_User j = u"

lemma ages_refl [simp]: "ages j j"
  by (simp add: ages_def kept_def)

lemma ages_trans: "ages a b \<Longrightarrow> ages b c \<Longrightarrow> ages a c"
  by (auto simp: ages_def kept_def)

lemma life_status [simp]: "job_Status (start_job j) = started (job_Status j)" "job_Status (finish_job j) = finished (job_Status j)"
  by (simp_all add: start_job_def started_def finish_job_def finished_def)

lemma start_ages: "ages j (fst (syncJob2 t j (start_job j)))"
  "job_Status (fst (syncJob2 t j (start_job j))) = started (job_Status j)"
  using sync_keeps [where old = j and now = t and j = "start_job j"] by (auto simp: ages_def start_job_def started_def)

lemma finish_ages: "ages j (fst (syncJob2 t j (finish_job j)))"
  "job_Status (fst (syncJob2 t j (finish_job j))) = finished (job_Status j)"
  using sync_keeps [where old = j and now = t and j = "finish_job j"] by (auto simp: ages_def finish_job_def finished_def)

lemma due_step_runs:
  assumes "plugin_ok p" "pview p (id_str jid) = Some j" "sees_job u j" "t \<le> T"
  obtains p' where "due_step T (Some (t, u, jid, lr, ph)) p =
      (p', if ph = Sleeping \<and> \<not> lr then Some (t + ms 4500, u, jid, lr, Started) else None)"
    "plugin_ok p'" "im_nextID p' = im_nextID p"
    "pview p' = (pview p)(id_str jid \<mapsto> fst (syncJob2 t j ((if ph = Sleeping then start_job else finish_job) j)))"
proof (cases ph)
  case Sleeping
  obtain p' where "update_cache t True u jid start_job p = Inr (p', None)" "plugin_ok p'" "im_nextID p' = im_nextID p"
    "pview p' = (pview p)(id_str jid \<mapsto> fst (syncJob2 t j (start_job j)))"
    using update_cache_runs [OF assms(1,2)] assms(3) unfolding sees_job_def by metis
  with Sleeping assms(4) show thesis by (intro that [of p']) (simp_all add: due_step_def lifecycle_step_def)
next
  case Started
  obtain p' where "update_cache t True u jid finish_job p = Inr (p', None)" "plugin_ok p'" "im_nextID p' = im_nextID p"
    "pview p' = (pview p)(id_str jid \<mapsto> fst (syncJob2 t j (finish_job j)))"
    using update_cache_runs [OF assms(1,2)] assms(3) unfolding sees_job_def by metis
  with Started assms(4) show thesis by (intro that [of p']) (simp_all add: due_step_def lifecycle_step_def)
qed

lemma advance_runs:
  assumes p: "plugin_ok p" "pview p (id_str jid) = Some j" "sees_job u j"
  obtains p' j' r' where "advance T (t, u, jid, lr, ph) p = (p', r')" "plugin_ok p'" "im_nextID p' = im_nextID p"
    "pview p' = (pview p)(id_str jid \<mapsto> j')" "tracked T (t, u, jid, lr, ph) j j' r'"
proof (cases "T < t")
  case True
  then show thesis using p by (intro that [of p "Some (t, u, jid, lr, ph)" j])
      (auto simp: advance_def due_step_def tracked_def map_upd_triv)
next
  case False
  then have le: "t \<le> T" by simp
  let ?j1 = "fst (syncJob2 t j ((if ph = Sleeping then start_job else finish_job) j))"
  obtain p1 where p1: "due_step T (Some (t, u, jid, lr, ph)) p =
      (p1, if ph = Sleeping \<and> \<not> lr then Some (t + ms 4500, u, jid, lr, Started) else None)"
    "plugin_ok p1" "im_nextID p1 = im_nextID p" "pview p1 = (pview p)(id_str jid \<mapsto> ?j1)"
    by (rule due_step_runs [OF p le])
  have j1: "ages j ?j1" "job_User ?j1 = job_User j"
    "job_Status ?j1 = (if ph = Sleeping then started (job_Status j) else finished (job_Status j))"
    by (simp_all add: start_ages finish_ages sync_keeps)
  show thesis
  proof (cases "ph = Sleeping \<and> \<not> lr \<and> \<not> T < t + ms 4500")
    case True
    have "pview p1 (id_str jid) = Some ?j1" "sees_job u ?j1" "t + ms 4500 \<le> T"
      using p1(4) p(3) j1(2) True by (simp_all add: sees_job_def)
    from due_step_runs [OF p1(2) this, where lr = lr and ph = Started] obtain p2 where
      p2: "due_step T (Some (t + ms 4500, u, jid, lr, Started)) p1 = (p2, None)" "plugin_ok p2" "im_nextID p2 = im_nextID p1"
      "pview p2 = (pview p1)(id_str jid \<mapsto> fst (syncJob2 (t + ms 4500) ?j1 (finish_job ?j1)))" by auto
    let ?j2 = "fst (syncJob2 (t + ms 4500) ?j1 (finish_job ?j1))"
    have "ages j ?j2" "job_User ?j2 = job_User j" "job_Status ?j2 = finished (started (job_Status j))"
      using ages_trans [OF j1(1) finish_ages(1)] j1 True by (simp_all add: finish_ages sync_keeps)
    then have "tracked T (t, u, jid, lr, ph) j ?j2 None" using True False by (simp add: tracked_def)
    with p1 p2 True show thesis by (intro that [of p2 None ?j2]) (simp_all add: advance_def)
  next
    case False
    let ?r = "if ph = Sleeping \<and> \<not> lr then Some (t + ms 4500, u, jid, lr, Started) else None"
    have "advance T (t, u, jid, lr, ph) p = (p1, ?r)" using p1(1) False by (auto simp: advance_def due_step_def)
    moreover have "tracked T (t, u, jid, lr, ph) j ?j1 ?r"
      using False \<open>\<not> T < t\<close> j1 by (cases ph) (auto simp: tracked_def)
    ultimately show thesis using that p1 by blast
  qed
qed


section \<open>All goroutines\<close>

definition rkey :: "routine \<Rightarrow> string" where
  "rkey r = (case r of (t, u, jid, lr, ph) \<Rightarrow> id_str jid)"

definition ruser :: "routine \<Rightarrow> string" where
  "ruser r = (case r of (t, u, jid, lr, ph) \<Rightarrow> u)"

lemma rkey_simps [simp]: "rkey (t, u, jid, lr, ph) = id_str jid" "ruser (t, u, jid, lr, ph) = u"
  by (simp_all add: rkey_def ruser_def)

lemma tracked_key: "tracked T r j j' (Some q) \<Longrightarrow> rkey q = rkey r \<and> ruser q = ruser r"
  by (cases r) (auto simp: tracked_def split: phase.splits if_splits)

text \<open>Every goroutine works on its own job, so what each does to its job can be told apart.\<close>

definition ran :: "int \<Rightarrow> routine list \<Rightarrow> InMemoryPlugin \<Rightarrow> InMemoryPlugin \<Rightarrow> routine list \<Rightarrow> bool" where
  "ran T rs p p' rs' \<longleftrightarrow> plugin_ok p' \<and> im_nextID p' = im_nextID p \<and>
    (\<forall>k. k \<notin> rkey ` set rs \<longrightarrow> pview p' k = pview p k) \<and>
    (\<forall>r\<in>set rs. \<exists>j j' r'. pview p (rkey r) = Some j \<and> pview p' (rkey r) = Some j' \<and> tracked T r j j' r' \<and>
       (\<forall>q. r' = Some q \<longrightarrow> q \<in> set rs')) \<and>
    (\<forall>q\<in>set rs'. \<exists>r\<in>set rs. \<exists>j j'. pview p (rkey r) = Some j \<and> pview p' (rkey r) = Some j' \<and> tracked T r j j' (Some q)) \<and>
    distinct (map rkey rs') \<and> rkey ` set rs' \<subseteq> rkey ` set rs"

lemma ranD:
  assumes "ran T rs p p' rs'"
  shows "plugin_ok p'" "im_nextID p' = im_nextID p" "k \<notin> rkey ` set rs \<Longrightarrow> pview p' k = pview p k"
    "r \<in> set rs \<Longrightarrow> \<exists>j j' r'. pview p (rkey r) = Some j \<and> pview p' (rkey r) = Some j' \<and> tracked T r j j' r' \<and>
       (\<forall>q. r' = Some q \<longrightarrow> q \<in> set rs')"
    "q \<in> set rs' \<Longrightarrow> \<exists>r\<in>set rs. \<exists>j j'. pview p (rkey r) = Some j \<and> pview p' (rkey r) = Some j' \<and> tracked T r j j' (Some q)"
    "distinct (map rkey rs')" "rkey ` set rs' \<subseteq> rkey ` set rs"
  using assms unfolding ran_def by simp_all

lemma ran_Cons:
  assumes r: "pview p (rkey r) = Some j" "pview p1 = (pview p)(rkey r \<mapsto> j1)" "tracked T r j j1 r1" "im_nextID p1 = im_nextID p"
    and rs: "ran T rs p1 p' rs'" "rkey r \<notin> rkey ` set rs"
  shows "ran T (r # rs) p p' ((case r1 of None \<Rightarrow> [] | Some r' \<Rightarrow> [r']) @ rs')" (is "ran _ _ _ _ ?rs")
proof -
  have other: "pview p1 (rkey q) = pview p (rkey q)" if "q \<in> set rs" for q
  proof -
    have "rkey q \<noteq> rkey r" using that rs(2) by (metis image_eqI)
    then show ?thesis using r(2) by simp
  qed
  have here: "pview p' (rkey r) = Some j1" using ranD(3) [OF rs(1,2)] r(2) by simp
  have key: "rkey x = rkey r" if "r1 = Some x" for x using tracked_key [OF r(3) [unfolded that]] by simp
  have outside: "pview p' k = pview p k" if "k \<notin> rkey ` set (r # rs)" for k
    using that ranD(3) [OF rs(1), of k] r(2) by auto
  have done1: "\<exists>j j' r'. pview p (rkey q) = Some j \<and> pview p' (rkey q) = Some j' \<and> tracked T q j j' r' \<and>
      (\<forall>x. r' = Some x \<longrightarrow> x \<in> set ?rs)" if "q \<in> set (r # rs)" for q
  proof (cases "q = r")
    case True
    have "\<forall>x. r1 = Some x \<longrightarrow> x \<in> set ?rs" by auto
    with here r(1,3) True show ?thesis by blast
  next
    case False
    with that have q: "q \<in> set rs" by simp
    from ranD(4) [OF rs(1) q] obtain j0 j' r' where "pview p1 (rkey q) = Some j0" "pview p' (rkey q) = Some j'"
      "tracked T q j0 j' r'" "\<forall>x. r' = Some x \<longrightarrow> x \<in> set rs'" by blast
    then show ?thesis using other [OF q] by (intro exI [of _ j0] exI [of _ j'] exI [of _ r']) auto
  qed
  have left: "\<exists>q\<in>set (r # rs). \<exists>j j'. pview p (rkey q) = Some j \<and> pview p' (rkey q) = Some j' \<and> tracked T q j j' (Some x)"
    if "x \<in> set ?rs" for x
  proof (cases "r1 = Some x")
    case True
    with here r(1,3) show ?thesis by (intro bexI [of _ r]) auto
  next
    case False
    with that have "x \<in> set rs'" by (cases r1) auto
    from ranD(5) [OF rs(1) this] obtain q j0 j' where q: "q \<in> set rs" "pview p1 (rkey q) = Some j0" "pview p' (rkey q) = Some j'"
      "tracked T q j0 j' (Some x)" by blast
    then show ?thesis using other [OF q(1)] by (intro bexI [of _ q] exI [of _ j0] exI [of _ j']) auto
  qed
  have "distinct (map rkey ?rs) \<and> rkey ` set ?rs \<subseteq> rkey ` set (r # rs)"
  proof (cases r1)
    case None
    then show ?thesis using ranD(6,7) [OF rs(1)] by (simp add: subset_insertI2)
  next
    case (Some x)
    have "rkey r \<notin> rkey ` set rs'" using ranD(7) [OF rs(1)] rs(2) by blast
    then show ?thesis using Some key ranD(6,7) [OF rs(1)] by (simp add: subset_insertI2)
  qed
  moreover have "im_nextID p' = im_nextID p" using ranD(2) [OF rs(1)] r(4) by simp
  ultimately show ?thesis
    unfolding ran_def using ranD(1) [OF rs(1)] outside done1 left by (intro conjI allI impI ballI) simp_all
qed

lemma run_due_runs:
  assumes "plugin_ok p" "distinct (map rkey rs)"
    and "\<And>r. r \<in> set rs \<Longrightarrow> \<exists>j. pview p (rkey r) = Some j \<and> sees_job (ruser r) j"
  shows "\<exists>p' rs'. run_due T rs p = (p', rs') \<and> ran T rs p p' rs'"
  using assms
proof (induction rs arbitrary: p)
  case Nil
  then show ?case by (simp add: ran_def)
next
  case (Cons r rs)
  obtain t u jid lr ph where r: "r = (t, u, jid, lr, ph)" by (cases r) auto
  from Cons.prems(3) [of r] obtain j where j: "pview p (id_str jid) = Some j" "sees_job u j" by (auto simp: r)
  obtain p1 j1 r1 where p1: "advance T r p = (p1, r1)" "plugin_ok p1" "im_nextID p1 = im_nextID p"
    "pview p1 = (pview p)(rkey r \<mapsto> j1)" "tracked T r j j1 r1"
    unfolding r rkey_simps by (rule advance_runs [OF Cons.prems(1) j])
  have fresh: "rkey r \<notin> rkey ` set rs" using Cons.prems(2) by simp
  have "\<exists>j. pview p1 (rkey q) = Some j \<and> sees_job (ruser q) j" if "q \<in> set rs" for q
  proof -
    have "rkey q \<noteq> rkey r" using that fresh by (metis image_eqI)
    then show ?thesis using Cons.prems(3) [of q] that p1(4) by simp
  qed
  from Cons.IH [OF p1(2) _ this] Cons.prems(2) obtain p' rs' where
    rs: "run_due T rs p1 = (p', rs')" "ran T rs p1 p' rs'" by auto
  have "pview p (rkey r) = Some j" using j(1) by (simp add: r)
  from ran_Cons [OF this p1(4,5,3) rs(2) fresh] show ?case by (simp add: p1(1) rs(1))
qed


section \<open>The invariant\<close>

text \<open>
  A goroutine belongs to a job it can see; it sleeps towards a time in the future, within the length
  of its sleep; the second sleep is only for a job that does not run for long and has been started.
  A pending job has a goroutine that will start it, and a running job that does not run for long one
  that will finish it.
\<close>

fun routine_ok :: "int \<Rightarrow> (string \<Rightarrow> Job option) \<Rightarrow> routine \<Rightarrow> bool" where
  "routine_ok now v (t, u, jid, lr, ph) \<longleftrightarrow> now < t \<and>
     (\<exists>j. v (id_str jid) = Some j \<and> sees_job u j \<and> lr = long_tags (job_Tags j) \<and>
        (case ph of Sleeping \<Rightarrow> t \<le> now + ms 500
         | Started \<Rightarrow> t \<le> now + ms 4500 \<and> \<not> lr \<and> job_Status j \<noteq> StatusPending))"

definition rphase :: "routine \<Rightarrow> phase" where
  "rphase r = (case r of (t, u, jid, lr, ph) \<Rightarrow> ph)"

definition job_ok :: "routine set \<Rightarrow> string \<Rightarrow> Job \<Rightarrow> bool" where
  "job_ok rs k j \<longleftrightarrow>
     (job_Status j = StatusPending \<longrightarrow> (\<exists>r\<in>rs. rkey r = k \<and> rphase r = Sleeping)) \<and>
     (job_Status j = StatusRunning \<longrightarrow> \<not> long_tags (job_Tags j) \<longrightarrow> (\<exists>r\<in>rs. rkey r = k \<and> rphase r = Started)) \<and>
     (job_Status j = StatusPending \<or> job_Status j = StatusRunning \<or> TerminalStatus (job_Status j))"

definition names_ok :: "nat \<Rightarrow> InMemoryPlugin \<Rightarrow> bool" where
  "names_ok n p \<longleftrightarrow> (\<exists>c. im_nextID p = of_nat c \<and> c + n < 2 ^ 32 \<and>
     dom (pview p) \<subseteq> (\<lambda>i. id_str (job_name (of_nat i))) ` {1..c})"

definition timers_ok :: "im_world \<Rightarrow> bool" where
  "timers_ok w \<longleftrightarrow> plugin_ok (iw_plugin w) \<and> distinct (map rkey (iw_routines w)) \<and>
     (\<forall>r\<in>set (iw_routines w). routine_ok (iw_now w) (pview (iw_plugin w)) r) \<and>
     (\<forall>k j. pview (iw_plugin w) k = Some j \<longrightarrow> job_ok (set (iw_routines w)) k j)"

definition world_ok :: "nat \<Rightarrow> im_world \<Rightarrow> bool" where
  "world_ok n w \<longleftrightarrow> timers_ok w \<and> names_ok n (iw_plugin w)"

abbreviation wjob :: "im_world \<Rightarrow> string \<Rightarrow> Job option" where
  "wjob w \<equiv> pview (iw_plugin w)"

lemma routine_unique:
  assumes "distinct (map rkey rs)" "r \<in> set rs" "q \<in> set rs" "rkey r = rkey q"
  shows "r = q"
  using assms by (metis distinct_map inj_onD)

lemma routine_okD: "routine_ok now v r \<Longrightarrow> \<exists>j. v (rkey r) = Some j \<and> sees_job (ruser r) j"
  by (cases r) auto

lemma elapse_ran:
  assumes "timers_ok w"
  shows "ran (iw_now w + d) (iw_routines w) (iw_plugin w) (iw_plugin (iw_elapse d w)) (iw_routines (iw_elapse d w))"
    "iw_now (iw_elapse d w) = iw_now w + d"
proof -
  from assms have "plugin_ok (iw_plugin w)" "distinct (map rkey (iw_routines w))"
    "\<And>r. r \<in> set (iw_routines w) \<Longrightarrow> \<exists>j. wjob w (rkey r) = Some j \<and> sees_job (ruser r) j"
    by (auto simp: timers_ok_def dest: routine_okD)
  from run_due_runs [OF this] obtain p rs where "run_due (iw_now w + d) (iw_routines w) (iw_plugin w) = (p, rs)"
    "ran (iw_now w + d) (iw_routines w) (iw_plugin w) p rs" by metis
  then show "ran (iw_now w + d) (iw_routines w) (iw_plugin w) (iw_plugin (iw_elapse d w)) (iw_routines (iw_elapse d w))"
    "iw_now (iw_elapse d w) = iw_now w + d"
    by (simp_all add: iw_elapse_def)
qed

text \<open>A job in the course of time: left alone by all goroutines, or moved by its own.\<close>

lemma elapse_job:
  assumes "timers_ok w" "wjob w k = Some j"
  obtains (own) r j' r' where "r \<in> set (iw_routines w)" "rkey r = k" "wjob (iw_elapse d w) k = Some j'"
      "tracked (iw_now w + d) r j j' r'" "\<And>q. r' = Some q \<Longrightarrow> q \<in> set (iw_routines (iw_elapse d w))"
  | (alone) "k \<notin> rkey ` set (iw_routines w)" "wjob (iw_elapse d w) k = Some j"
proof (cases "k \<in> rkey ` set (iw_routines w)")
  case True
  then obtain r where r: "r \<in> set (iw_routines w)" "rkey r = k" by blast
  from ranD(4) [OF elapse_ran(1) [OF assms(1)] r(1), of d] assms(2) r(2) obtain j' r' where
    "wjob (iw_elapse d w) k = Some j'" "tracked (iw_now w + d) r j j' r'" "\<forall>q. r' = Some q \<longrightarrow> q \<in> set (iw_routines (iw_elapse d w))"
    by auto
  with r show thesis using own by blast
next
  case False
  with ranD(3) [OF elapse_ran(1) [OF assms(1)] False, of d] assms(2) show thesis by (intro alone) auto
qed

lemma elapse_dom: "timers_ok w \<Longrightarrow> wjob (iw_elapse d w) k = None \<longleftrightarrow> wjob w k = None"
proof -
  assume ok: "timers_ok w"
  show ?thesis
  proof (cases "k \<in> rkey ` set (iw_routines w)")
    case True
    then obtain r where "r \<in> set (iw_routines w)" "rkey r = k" by blast
    with ranD(4) [OF elapse_ran(1) [OF ok], of r d] show ?thesis by auto
  next
    case False
    with ranD(3) [OF elapse_ran(1) [OF ok] False, of d] show ?thesis by simp
  qed
qed

lemma tracked_ages: "tracked T r j j' r' \<Longrightarrow> ages j j' \<and> job_User j' = job_User j"
  by (simp add: tracked_def)

lemma tracked_routine_ok:
  assumes "routine_ok now v r" "v (rkey r) = Some j" "tracked T r j j' (Some q)" "v' (rkey r) = Some j'" "now \<le> T"
  shows "routine_ok T v' q"
proof -
  obtain t u jid lr ph where r: "r = (t, u, jid, lr, ph)" by (cases r) auto
  have tags: "job_Tags j' = job_Tags j" "job_User j' = job_User j" using assms(3) by (auto simp: tracked_def ages_def kept_def)
  show ?thesis
  proof (cases "T < t")
    case True
    then have "q = r" "j' = j" using assms(3) by (auto simp: r tracked_def)
    with assms True show ?thesis by (cases ph) (auto simp: r)
  next
    case False
    then have "ph = Sleeping" "\<not> lr" "T < t + ms 4500" "q = (t + ms 4500, u, jid, lr, Started)" "job_Status j' = started (job_Status j)"
      using assms(3) by (auto simp: r tracked_def split: phase.splits if_splits)
    with assms False tags show ?thesis by (auto simp: r sees_job_def started_def)
  qed
qed

lemma terminal_distinct:
  "StatusFinished \<noteq> StatusRunning" "StatusFinished \<noteq> StatusPending" "TerminalStatus StatusFinished"
  "TerminalStatus StatusKilled" "TerminalStatus StatusCanceled" "\<not> TerminalStatus StatusRunning" "\<not> TerminalStatus StatusPending"
  by (simp_all add: TerminalStatus_def api_defs)

lemma tracked_job_ok:
  assumes r: "routine_ok now v r" "v (rkey r) = Some j" "tracked T r j j' r'" "\<And>q. r' = Some q \<Longrightarrow> q \<in> rs'"
    and j: "job_ok rs (rkey r) j" "\<And>q. q \<in> rs \<Longrightarrow> rkey q = rkey r \<Longrightarrow> q = r"
  shows "job_ok rs' (rkey r) j'"
proof -
  obtain t u jid lr ph where r': "r = (t, u, jid, lr, ph)" by (cases r) auto
  have tags: "job_Tags j' = job_Tags j" using r(3) by (auto simp: tracked_def ages_def kept_def)
  have lr: "lr = long_tags (job_Tags j)" using r(1,2) by (auto simp: r')
  have ph: "job_Status j = StatusPending \<Longrightarrow> ph = Sleeping" "job_Status j = StatusRunning \<Longrightarrow> \<not> lr \<Longrightarrow> ph = Started"
    using j lr by (auto simp: job_ok_def r' rphase_def)
  have st: "job_Status j = StatusPending \<or> job_Status j = StatusRunning \<or> TerminalStatus (job_Status j)"
    using j(1) by (simp add: job_ok_def)
  show ?thesis
  proof (cases "T < t")
    case True
    then have "j' = j" "r' = Some r" using r(3) by (auto simp: r' tracked_def)
    then have "r \<in> rs'" using r(4) by simp
    with \<open>j' = j\<close> ph st lr show ?thesis by (auto simp: job_ok_def r' rphase_def intro!: bexI [of _ r])
  next
    case False
    then show ?thesis using r(3,4) ph st lr tags
      by (cases ph; cases lr; cases "T < t + ms 4500")
        (auto simp: job_ok_def r' tracked_def rphase_def started_def finished_def terminal_distinct
          intro!: bexI [of _ "(t + ms 4500, u, jid, False, Started)"])
  qed
qed

lemma job_ok_mono: "job_ok rs k j \<Longrightarrow> rs \<subseteq> rs' \<Longrightarrow> job_ok rs' k j"
  by (auto simp: job_ok_def)

lemma job_ok_terminal: "TerminalStatus (job_Status j) \<Longrightarrow> job_ok rs k j"
  by (auto simp: job_ok_def terminal_distinct)

lemma timers_elapse:
  assumes "timers_ok w" "0 \<le> d"
  shows "timers_ok (iw_elapse d w)"
proof -
  let ?w = "iw_elapse d w"
  note ran = elapse_ran(1) [OF assms(1), of d]
  have "routine_ok (iw_now w + d) (wjob ?w) q" if "q \<in> set (iw_routines ?w)" for q
  proof -
    from ranD(5) [OF ran that] obtain r j j' where r: "r \<in> set (iw_routines w)" "wjob w (rkey r) = Some j"
      "wjob ?w (rkey r) = Some j'" "tracked (iw_now w + d) r j j' (Some q)" by blast
    have "routine_ok (iw_now w) (wjob w) r" using assms(1) r(1) by (simp add: timers_ok_def)
    from tracked_routine_ok [where v' = "wjob ?w", OF this r(2,4,3)] assms(2) show ?thesis by simp
  qed
  moreover have "job_ok (set (iw_routines ?w)) k j'" if j': "wjob ?w k = Some j'" for k j'
  proof -
    obtain j where j: "wjob w k = Some j" using elapse_dom [OF assms(1), of d k] j' by fastforce
    have jok: "job_ok (set (iw_routines w)) k j" using assms(1) j by (simp add: timers_ok_def)
    from assms(1) j show ?thesis
    proof (cases rule: elapse_job [where d = d])
      case (own r j1 r1)
      have "routine_ok (iw_now w) (wjob w) r" "distinct (map rkey (iw_routines w))" using assms(1) own(1) by (simp_all add: timers_ok_def)
      from tracked_job_ok [OF this(1) _ own(4,5), of "set (iw_routines w)"] routine_unique [OF this(2)] own jok j j'
      show ?thesis by auto
    next
      case alone
      with jok j' show ?thesis by (auto simp: job_ok_def)
    qed
  qed
  ultimately show ?thesis using ranD(1,6) [OF ran] elapse_ran(2) [OF assms(1)] by (simp add: timers_ok_def)
qed

lemma world_elapse:
  assumes "world_ok n w" "0 \<le> d"
  shows "world_ok n (iw_elapse d w)"
proof -
  have t: "timers_ok w" using assms(1) by (simp add: world_ok_def)
  have "dom (wjob (iw_elapse d w)) = dom (wjob w)" using elapse_dom [OF t, of d] by (auto simp: dom_def)
  then show ?thesis using assms timers_elapse [OF t assms(2)] ranD(2) [OF elapse_ran(1) [OF t]]
    by (simp add: world_ok_def names_ok_def)
qed

lemma elapse_ages:
  assumes "timers_ok w" "wjob w k = Some j"
  obtains j' where "wjob (iw_elapse d w) k = Some j'" "ages j j'" "job_User j' = job_User j"
  using assms
proof (cases rule: elapse_job [where d = d])
  case (own r j' r')
  with tracked_ages [OF own(4)] that show thesis by blast
next
  case alone
  with that show thesis by simp
qed


section \<open>Starting and ending\<close>

abbreviation poll :: "im_world \<Rightarrow> im_world" where
  "poll \<equiv> iw_elapse (ms 50)"

definition status_of :: "im_world \<Rightarrow> string \<Rightarrow> string option" where
  "status_of w k = map_option job_Status (wjob w k)"

definition rtime :: "routine \<Rightarrow> int" where
  "rtime r = (case r of (t, u, jid, lr, ph) \<Rightarrow> t)"

lemma own_routine:
  assumes "timers_ok w" "wjob w k = Some j" "r \<in> set (iw_routines w)" "rkey r = k"
  obtains j' r' where "wjob (iw_elapse d w) k = Some j'" "tracked (iw_now w + d) r j j' r'"
    "\<forall>q. r' = Some q \<longrightarrow> q \<in> set (iw_routines (iw_elapse d w))"
proof -
  have "distinct (map rkey (iw_routines w))" using assms(1) by (simp add: timers_ok_def)
  note unique = routine_unique [OF this]
  from assms(1,2) show thesis
  proof (cases rule: elapse_job [where d = d])
    case (own q j' q')
    have "q = r" using unique [OF own(1) assms(3)] own(2) assms(4) by simp
    then show thesis by (intro that [OF own(3)]) (use own(4,5) in auto)
  next
    case alone
    then show thesis using assms(3,4) by blast
  qed
qed

lemma starts_within:
  assumes "timers_ok w" "wjob w k = Some j" "job_Status j = StatusPending"
    and "r \<in> set (iw_routines w)" "rkey r = k" "rphase r = Sleeping" "rtime r \<le> iw_now w + ms 50 * int N"
  shows "\<exists>m<N. status_of ((poll ^^ Suc m) w) k = Some StatusRunning \<and> (\<forall>i<m. status_of ((poll ^^ Suc i) w) k = Some StatusPending)"
  using assms
proof (induction N arbitrary: w j)
  case 0
  then show ?case by (cases r) (auto simp: timers_ok_def rtime_def)
next
  case (Suc N)
  obtain t u jid lr where r: "r = (t, u, jid, lr, Sleeping)" using Suc.prems(6) by (cases r) (auto simp: rphase_def)
  obtain j' r' where j': "wjob (poll w) k = Some j'" "tracked (iw_now w + ms 50) r j j' r'"
    "\<forall>q. r' = Some q \<longrightarrow> q \<in> set (iw_routines (poll w))"
    by (rule own_routine [where d = "ms 50", OF Suc.prems(1,2,4,5)])
  have t: "iw_now w < t" using Suc.prems(1,4) by (auto simp: timers_ok_def r)
  show ?case
  proof (cases "iw_now w + ms 50 < t")
    case True
    then have same: "j' = j" "r' = Some r" using j'(2) by (auto simp: r tracked_def)
    have "timers_ok (poll w)" by (rule timers_elapse [OF Suc.prems(1)]) (simp add: ms_def)
    moreover have "rtime r \<le> iw_now (poll w) + ms 50 * int N"
      using Suc.prems(7) elapse_ran(2) [OF Suc.prems(1), of "ms 50"] by (simp add: algebra_simps)
    ultimately obtain m where m: "m < N" "status_of ((poll ^^ Suc m) (poll w)) k = Some StatusRunning"
      "\<forall>i<m. status_of ((poll ^^ Suc i) (poll w)) k = Some StatusPending"
      using Suc.IH [of "poll w" j] Suc.prems(3,5,6) j'(1,3) same by blast
    have "status_of ((poll ^^ Suc i) w) k = Some StatusPending" if "i < Suc m" for i
    proof (cases i)
      case 0
      then show ?thesis using j'(1) same Suc.prems(3) by (simp add: status_of_def)
    next
      case (Suc i')
      then show ?thesis using m(3) that by (simp add: funpow_swap1)
    qed
    with m show ?thesis by (intro exI [of _ "Suc m"]) (simp add: funpow_swap1)
  next
    case False
    then have "job_Status j' = StatusRunning"
      using j'(2) t Suc.prems(3) by (auto simp: r tracked_def started_def ms_def split: if_splits)
    with j'(1) show ?thesis by (intro exI [of _ 0]) (simp add: status_of_def)
  qed
qed

text \<open>The time by which the goroutine of a job has ended it.\<close>

definition rend :: "routine \<Rightarrow> int" where
  "rend r = (case rphase r of Sleeping \<Rightarrow> rtime r + ms 4500 | Started \<Rightarrow> rtime r)"

lemma rend_simps [simp]: "rend (t, u, jid, lr, Sleeping) = t + ms 4500" "rend (t, u, jid, lr, Started) = t"
  by (simp_all add: rend_def rphase_def rtime_def)

lemma ends_within:
  assumes "timers_ok w" "wjob w k = Some j" "\<not> long_tags (job_Tags j)"
    and "TerminalStatus (job_Status j) \<or> (\<exists>r\<in>set (iw_routines w). rkey r = k \<and> rend r \<le> iw_now w + ms 50 * int N)"
  shows "\<exists>m\<le>N. \<exists>j'. wjob ((poll ^^ m) w) k = Some j' \<and> TerminalStatus (job_Status j')"
  using assms
proof (induction N arbitrary: w j)
  case 0
  have "iw_now w < rend r" if "r \<in> set (iw_routines w)" for r
    using 0(1) that by (cases r) (auto simp: timers_ok_def rend_def rtime_def rphase_def ms_def split: phase.splits)
  with 0 show ?case by force
next
  case (Suc N)
  show ?case
  proof (cases "TerminalStatus (job_Status j)")
    case True
    with Suc.prems(2) show ?thesis by (intro exI [of _ 0]) simp
  next
    case False
    then obtain r where r: "r \<in> set (iw_routines w)" "rkey r = k" "rend r \<le> iw_now w + ms 50 * int (Suc N)"
      using Suc.prems(4) by blast
    obtain j' r' where j': "wjob (poll w) k = Some j'" "tracked (iw_now w + ms 50) r j j' r'"
      "\<forall>q. r' = Some q \<longrightarrow> q \<in> set (iw_routines (poll w))"
      by (rule own_routine [where d = "ms 50", OF Suc.prems(1,2) r(1,2)])
    have ok: "routine_ok (iw_now w) (wjob w) r" "job_ok (set (iw_routines w)) k j"
      using Suc.prems(1,2) r(1) by (simp_all add: timers_ok_def)
    have tags: "\<not> long_tags (job_Tags j')" using tracked_ages [OF j'(2)] Suc.prems(3) by (simp add: ages_def kept_def)
    have st: "job_Status j = StatusPending \<or> job_Status j = StatusRunning" using ok(2) False by (auto simp: job_ok_def)
    obtain t u jid lr ph where r': "r = (t, u, jid, lr, ph)" by (cases r) auto
    have "lr = long_tags (job_Tags j)" "ph = Started \<longrightarrow> job_Status j \<noteq> StatusPending"
      using ok(1) Suc.prems(2) r(2) by (auto simp: r' split: phase.splits)
    then have nxt: "TerminalStatus (job_Status j') \<or> (\<exists>q. r' = Some q \<and> rkey q = k \<and> rend q = rend r)"
      using j'(2) st Suc.prems(3) r(2) by (cases "r'"; cases ph)
        (auto simp: r' tracked_def started_def finished_def terminal_distinct split: if_splits)
    have "timers_ok (poll w)" by (rule timers_elapse [OF Suc.prems(1)]) (simp add: ms_def)
    moreover have "TerminalStatus (job_Status j') \<or> (\<exists>q\<in>set (iw_routines (poll w)). rkey q = k \<and> rend q \<le> iw_now (poll w) + ms 50 * int N)"
    proof -
      have "rend r \<le> iw_now (poll w) + ms 50 * int N"
        using r(3) elapse_ran(2) [OF Suc.prems(1), of "ms 50"] by (simp add: algebra_simps)
      with nxt j'(3) show ?thesis by metis
    qed
    ultimately obtain m where "m \<le> N" "\<exists>j'. wjob ((poll ^^ m) (poll w)) k = Some j' \<and> TerminalStatus (job_Status j')"
      using Suc.IH [OF _ j'(1) tags] by blast
    then show ?thesis by (intro exI [of _ "Suc m"]) (simp add: funpow_swap1)
  qed
qed


section \<open>Requests\<close>

lemma worldD: "world_ok n w \<Longrightarrow> timers_ok w" "world_ok n w \<Longrightarrow> plugin_ok (iw_plugin w)"
  by (simp_all add: world_ok_def timers_ok_def)

lemma name_of_job:
  assumes "world_ok n w" "wjob w k = Some j"
  shows "id_str (job_ID j) = k" "prefix ''job-'' k"
proof -
  have "plugin_ok (iw_plugin w)" by (rule worldD [OF assms(1)])
  then show "id_str (job_ID j) = k" using assms(2) by (simp add: plugin_ok_def store_ok_def store_View_def)
  have "k \<in> dom (wjob w)" using assms(2) by blast
  then show "prefix ''job-'' k" using assms(1) by (auto simp: world_ok_def names_ok_def job_name_def)
qed

lemma routine_ok_other: "routine_ok now v r \<Longrightarrow> rkey r \<noteq> k \<Longrightarrow> routine_ok now (v(k \<mapsto> j)) r"
  by (cases r) auto

lemma submit_runs:
  assumes "world_ok (Suc n) w"
  obtains w' jid where
    "iw_SubmitJob user job w = (w', prepared_job (iw_now w) user jid job, [CJobs (Some [prepared_job (iw_now w) user jid job])])"
    "world_ok n w'" "wjob w (id_str jid) = None" "wjob w' = (wjob w)(id_str jid \<mapsto> prepared_job (iw_now w) user jid job)"
proof -
  obtain c where c: "im_nextID (iw_plugin w) = of_nat c" "c + Suc n < 2 ^ 32"
    "dom (wjob w) \<subseteq> (\<lambda>i. id_str (job_name (of_nat i))) ` {1..c}" using assms by (auto simp: world_ok_def names_ok_def)
  define jid where "jid = job_name (of_nat (Suc c))"
  let ?job = "prepared_job (iw_now w) user jid job"
  let ?r = "(iw_now w + ms 500, user, jid, long_tags (job_Tags job), Sleeping)"
  have id [simp]: "job_ID ?job = jid" "job_User ?job = user" "job_Status ?job = StatusPending" "job_Tags ?job = job_Tags job"
    by (simp_all add: prepared_job_def)
  have none: "wjob w (id_str jid) = None"
  proof (rule ccontr)
    assume "wjob w (id_str jid) \<noteq> None"
    then have "id_str jid \<in> dom (wjob w)" by blast
    with c(3) obtain i where "i \<in> {1..c}" "id_str jid = id_str (job_name (of_nat i))" by blast
    with job_name_inj [of "Suc c" i] c(2) show False unfolding jid_def by auto
  qed
  have ok: "plugin_ok (iw_plugin w)" "timers_ok w" using worldD [OF assms] by blast+
  then have op: "\<not> chan_closed (ca_ch (im_cache (iw_plugin w)))" by (simp add: plugin_ok_def)
  from AddOrUpdate_runs [OF op, of "iw_now w" True ?job] ok(1) none obtain c' where
    add: "AddOrUpdate (iw_now w) True ?job (im_cache (iw_plugin w)) = Inr c'" and
    v: "store_View (ca_store c') = (wjob w)(id_str jid \<mapsto> ?job)" "\<not> chan_closed (ca_ch c')" "store_ok (ca_store c')"
    by (auto simp: plugin_ok_def stored_def)
  let ?p = "\<lparr>im_cache = c', im_nextID = of_nat (Suc c)\<rparr>"
  let ?w = "w\<lparr>iw_plugin := ?p, iw_routines := iw_routines w @ [?r]\<rparr>"
  have n: "im_nextID (iw_plugin w) + 1 = of_nat (Suc c)" using c(1) by simp
  have run: "iw_SubmitJob user job w = (?w, ?job, [CJobs (Some [?job])])"
    using add v(1) unfolding iw_SubmitJob_def im_SubmitJob_def Let_def n jid_def [symmetric]
    by (simp add: long_tags_def cache_WriteJob_def Lookup_def)
  have keys: "rkey q \<noteq> id_str jid" if "q \<in> set (iw_routines w)" for q
    using that ok(2) none routine_okD [of "iw_now w" "wjob w" q] by (auto simp: timers_ok_def)
  have "routine_ok (iw_now w) ((wjob w)(id_str jid \<mapsto> ?job)) q" if "q \<in> set (iw_routines w)" for q
    using that ok(2) by (intro routine_ok_other keys) (simp_all add: timers_ok_def)
  moreover have "job_ok (set (iw_routines ?w)) k j" if "((wjob w)(id_str jid \<mapsto> ?job)) k = Some j" for k j
  proof (cases "k = id_str jid")
    case True
    then have "j = ?job" using that by simp
    then show ?thesis using True by (auto simp: job_ok_def rphase_def)
  next
    case False
    then have "job_ok (set (iw_routines w)) k j" using that ok(2) by (simp add: timers_ok_def)
    then show ?thesis by (rule job_ok_mono) auto
  qed
  moreover have "routine_ok (iw_now w) ((wjob w)(id_str jid \<mapsto> ?job)) ?r" by (simp add: sees_job_def ms_def)
  moreover have "id_str jid \<notin> rkey ` set (iw_routines w)" using keys by (metis imageE)
  ultimately have "timers_ok ?w" using v ok(2) by (simp add: timers_ok_def plugin_ok_def)
  moreover have "names_ok n ?p"
  proof -
    have "id_str jid \<in> (\<lambda>i. id_str (job_name (of_nat i))) ` {1..Suc c}"
      unfolding jid_def by (rule image_eqI [OF refl]) simp
    moreover have "dom (wjob w) \<subseteq> (\<lambda>i. id_str (job_name (of_nat i))) ` {1..Suc c}"
      by (rule subset_trans [OF c(3)], rule image_mono) simp
    ultimately have "dom (pview ?p) \<subseteq> (\<lambda>i. id_str (job_name (of_nat i))) ` {1..Suc c}" by (simp add: v(1))
    then show ?thesis using c(2) unfolding names_ok_def by (intro exI [of _ "Suc c"]) simp
  qed
  ultimately show thesis using run none v(1) by (intro that [of ?w jid]) (simp_all add: world_ok_def)
qed

text \<open>The jobs a user can see, and what a control operation makes of one of them.\<close>

definition user_job :: "string \<Rightarrow> im_world \<Rightarrow> JobID \<Rightarrow> Job option" where
  "user_job user w i = (case wjob w (id_str i) of None \<Rightarrow> None | Some j \<Rightarrow> if sees_job user j then Some j else None)"

lemma user_job_Some: "user_job user w i = Some j \<longleftrightarrow> wjob w (id_str i) = Some j \<and> sees_job user j"
  by (auto simp: user_job_def split: option.splits)

lemma user_job_upd:
  assumes "wjob w' = (wjob w)(id_str i \<mapsto> j)" "sees_job user j"
  shows "user_job user w' = (user_job user w)(i \<mapsto> j)"
proof
  fix i'
  show "user_job user w' i' = ((user_job user w)(i \<mapsto> j)) i'"
    using assms by (cases i; cases i') (simp add: user_job_def)
qed

lemma control_runs:
  assumes w: "world_ok n w" and j: "user_job user w i = Some j" and cb: "control_callback op opts j = (j1, None)"
    and st: "TerminalStatus (job_Status j1)"
  shows "\<exists>w' b m j'. iw_ControlJob user i op opts w = (w', [CControlJob b m]) \<and> world_ok n w' \<and>
    kept j j' \<and> job_Status j' = job_Status j1 \<and> job_ExitCode j' = or_else (job_ExitCode j1) (job_ExitCode j) \<and>
    user_job user w' = (user_job user w)(i \<mapsto> j')"
proof -
  let ?fn = "\<lambda>j. fst (control_callback op opts j)" and ?j' = "fst (syncJob2 (iw_now w) j j1)"
  have view: "wjob w (id_str i) = Some j" "sees_job user j" using j by (simp_all add: user_job_Some)
  obtain p where p: "update_cache (iw_now w) True user i ?fn (iw_plugin w) = Inr (p, None)" "plugin_ok p"
    "im_nextID p = im_nextID (iw_plugin w)" "pview p = (wjob w)(id_str i \<mapsto> fst (syncJob2 (iw_now w) j (?fn j)))"
    using update_cache_runs [OF worldD(2) [OF w] view(1)] view(2) unfolding sees_job_def by metis
  have v: "pview p = (wjob w)(id_str i \<mapsto> ?j')" using p(4) cb by simp
  let ?w = "w\<lparr>iw_plugin := p\<rparr>"
  have run: "iw_ControlJob user i op opts w = (?w, [CControlJob True (''Job '' @ JobOperation_String op @ '' successful'')])"
    using p(1) view(1) cb by (simp add: iw_ControlJob_def im_ControlJob_def)
  have j': "kept j ?j'" "job_User ?j' = job_User j" "job_Status ?j' = job_Status j1" by (simp_all add: sync_keeps)
  have "routine_ok (iw_now w) (wjob ?w) r" if "r \<in> set (iw_routines w)" for r
  proof -
    have "routine_ok (iw_now w) (wjob w) r" using worldD(1) [OF w] that by (simp add: timers_ok_def)
    then show ?thesis using j' st view(1) v by (cases r)
      (auto simp: sees_job_def kept_def terminal_distinct split: phase.splits)
  qed
  moreover have "job_ok (set (iw_routines w)) k x" if "wjob ?w k = Some x" for k x
    using that v worldD(1) [OF w] st j'(3) by (cases "k = id_str i") (auto simp: timers_ok_def intro: job_ok_terminal)
  ultimately have "timers_ok ?w" using p(2) worldD(1) [OF w] by (simp add: timers_ok_def)
  moreover have "names_ok n p"
    using w p(3) view(1) by (auto simp: world_ok_def names_ok_def v insert_absorb domI)
  moreover have "user_job user ?w = (user_job user w)(i \<mapsto> ?j')"
    by (rule user_job_upd) (use v view(2) j'(2) in \<open>simp_all add: sees_job_def\<close>)
  ultimately show ?thesis using run j' by (intro exI conjI) (assumption, simp_all add: world_ok_def sync_keeps)
qed


section \<open>Streams\<close>

lemma elapse_now [simp]: "iw_now (iw_elapse d w) = iw_now w + d" "iw_streams (iw_elapse d w) = iw_streams w"
  by (simp_all add: iw_elapse_def split: prod.split)

lemma polls_now: "iw_now ((poll ^^ k) w) = iw_now w + ms 50 * int k" "iw_streams ((poll ^^ k) w) = iw_streams w"
  by (induction k) (simp_all add: algebra_simps)

lemma world_streams: "world_ok n (w\<lparr>iw_streams := ss\<rparr>) = world_ok n w" "user_job user (w\<lparr>iw_streams := ss\<rparr>) = user_job user w"
  by (simp_all add: world_ok_def timers_ok_def user_job_def fun_eq_iff)

lemma first_line:
  assumes "user_job user w i = Some j" "iw_open (OutputStream i OutputStdout) user (Some (ms 10000)) w = (w1, h)"
  shows "mock_OutputCount (mock_calls (iw_written S h ((poll ^^ 20) w1))) = 1"
proof -
  have "Lookup user i (im_cache (iw_plugin w)) = Inr j"
    using assms(1) by (auto simp: user_job_Some Lookup_def sees_job_def)
  then have line: "im_GetJobOutput user i OutputStdout 1 (iw_plugin w) = [CJobOutput (output_line OutputStdout 0) OutputStdout, CClose]"
    by (simp add: im_GetJobOutput_def)
  let ?w = "(poll ^^ 20) w1"
  have now: "iw_now ?w = iw_now w + ms 1000" 
  proof -
    have "iw_now w1 = iw_now w" using assms(2) by (auto simp: iw_open_def)
    then show ?thesis unfolding polls_now by (simp add: ms_def)
  qed
  have h: "h < length (iw_streams ?w)" "iw_streams ?w ! h = \<lparr>is_kind = OutputStream i OutputStdout, is_user = user,
      is_opened = iw_now w, is_deadline = Some (iw_now w + ms 10000), is_cancelled = None, is_plugin = iw_plugin w\<rparr>"
    using assms(2) by (auto simp: polls_now iw_open_def)
  have "iw_written S h ?w = [CJobOutput (output_line OutputStdout 0) OutputStdout]"
    unfolding iw_written_def now Let_def h(2) using h(1) line by (simp add: stream_end_def ms_def)
  then show ?thesis by (simp add: mock_OutputCount_def mock_calls_def mock_defs NewMockStreamResponseWriter_def)
qed


section \<open>The laws\<close>

locale im_setting =
  fixes S :: surround and user :: string
  assumes surround: "surround_ok S"
begin

lemma rounds_enough:
  "10 \<le> sr_rounds S (ms 50) (ms 30000)" "101 \<le> sr_rounds S (ms 50) (ms 60000)" "20 \<le> sr_rounds S (ms 50) (ms 10000)"
proof -
  have s: "nat (t div i) \<le> Suc (sr_rounds S i t)" for i t using surround by (simp add: surround_ok_def)
  from s [of "ms 30000" "ms 50"] s [of "ms 60000" "ms 50"] s [of "ms 10000" "ms 50"]
  show "10 \<le> sr_rounds S (ms 50) (ms 30000)" "101 \<le> sr_rounds S (ms 50) (ms 60000)" "20 \<le> sr_rounds S (ms 50) (ms 10000)"
    by (simp_all add: ms_def)
qed

lemma lists_jobs:
  assumes "world_ok n w" "\<not> filter_timed flt" "flt_Fields flt = []"
  shows "\<exists>js. iw_GetJobs S user flt [] w = (w, [CJobs (Some js)]) \<and>
    set js = {j. \<exists>i. user_job user w i = Some j \<and> filter_matches flt j}"
proof -
  let ?s = "ca_store (im_cache (iw_plugin w))"
  let ?js = "map (\<lambda>k. project_snapshot (Some flt) (the (fmlookup (ims_jobs ?s) k))) (sorted_list_of_set (visible_keys ?s user (Some flt)))"
  have ok: "store_ok ?s" "enumerates (sr_keys S ?s) ?s"
    using worldD(2) [OF assms(1)] surround by (simp_all add: plugin_ok_def surround_ok_def)
  have "query_safe ?s user (Some flt)" using assms(2) by (auto simp: query_safe_def filter_safe_def)
  then have "JobsForUser (sr_keys S ?s) ?s user (Some flt) = Inr ?js" using JobsForUser_result [OF ok] by simp
  then have run: "iw_GetJobs S user flt [] w = (w, [CJobs (Some ?js)])"
    by (simp add: iw_GetJobs_def im_GetJobs_def cache_WriteJobs_def)
  have "finite (visible_keys ?s user (Some flt))"
    by (rule finite_subset [of _ "fset (fmdom (ims_jobs ?s))"]) (auto simp: visible_keys_def intro: fmdomI)
  then have "set ?js = (\<lambda>k. the (fmlookup (ims_jobs ?s) k)) ` visible_keys ?s user (Some flt)"
    using assms(3) by (simp add: project_snapshot_def WithFields_def)
  also have "\<dots> = {j. \<exists>i. user_job user w i = Some j \<and> filter_matches flt j}"
  proof (intro set_eqI iffI)
    fix j
    assume "j \<in> {j. \<exists>i. user_job user w i = Some j \<and> filter_matches flt j}"
    then obtain i where "fmlookup (ims_jobs ?s) (id_str i) = Some j" "sees_job user j" "filter_matches flt j"
      by (auto simp: user_job_Some store_View_def)
    then show "j \<in> (\<lambda>k. the (fmlookup (ims_jobs ?s) k)) ` visible_keys ?s user (Some flt)"
      by (intro image_eqI [of _ _ "id_str i"]) (auto simp: visible_keys_def visible_def sees_job_def)
  next
    fix j
    assume "j \<in> (\<lambda>k. the (fmlookup (ims_jobs ?s) k)) ` visible_keys ?s user (Some flt)"
    then obtain k where "fmlookup (ims_jobs ?s) (id_str (JobID k)) = Some j" "visible user (Some flt) j"
      by (auto simp: visible_keys_def)
    then show "j \<in> {j. \<exists>i. user_job user w i = Some j \<and> filter_matches flt j}"
      by (auto simp: user_job_Some store_View_def visible_def sees_job_def intro!: exI [of _ "JobID k"])
  qed
  finally show ?thesis using run by blast
qed

lemma missing_job:
  assumes "world_ok n w" "user_job user w i = None"
  shows "\<exists>e. err_Code e = CodeJobNotFound \<and> Lookup user i (im_cache (iw_plugin w)) = Inl e"
    "\<exists>w' e. iw_ControlJob user i op opts w = (w', [CError e]) \<and> world_ok n w' \<and> user_job user w' = user_job user w"
proof -
  show "\<exists>e. err_Code e = CodeJobNotFound \<and> Lookup user i (im_cache (iw_plugin w)) = Inl e"
    using assms(2) by (auto simp: user_job_def Lookup_def sees_job_def Errorf_def split: option.split_asm if_split_asm)
  have "\<not> may_see user (wjob w (id_str i))"
    using assms(2) by (auto simp: user_job_def may_see_def sees_job_def split: option.split_asm if_split_asm)
  from cache_Update_not_found [OF this, where now = "iw_now w" and pick = True and fn = "\<lambda>j. Some (fst (control_callback op opts j))"]
  obtain s e where s: "cache_Update (iw_now w) True user i (\<lambda>j. Some (fst (control_callback op opts j))) (im_cache (iw_plugin w)) =
      Inr ((im_cache (iw_plugin w))\<lparr>ca_store := s\<rparr>, Some e)" "store_View s = wjob w"
    "store_ok (ca_store (im_cache (iw_plugin w))) \<longrightarrow> store_ok s" by blast
  let ?w = "w\<lparr>iw_plugin := (iw_plugin w)\<lparr>im_cache := (im_cache (iw_plugin w))\<lparr>ca_store := s\<rparr>\<rparr>\<rparr>"
  have "iw_ControlJob user i op opts w = (?w, [CError (EApi e)])"
    by (simp add: iw_ControlJob_def im_ControlJob_def update_cache_def s(1))
  moreover have "world_ok n ?w" using assms(1) s(2,3)
    by (simp add: world_ok_def timers_ok_def plugin_ok_def names_ok_def)
  moreover have "user_job user ?w = user_job user w" by (simp add: user_job_def fun_eq_iff s(2))
  ultimately show "\<exists>w' e. iw_ControlJob user i op opts w = (w', [CError e]) \<and> world_ok n w' \<and> user_job user w' = user_job user w"
    by blast
qed

end

lemma im_simps:
  "lp_SubmitJob (im_launcher_plugin S) = iw_SubmitJob" "lp_GetJobs (im_launcher_plugin S) = iw_GetJobs S"
  "lp_GetJob (im_launcher_plugin S) u i flds w = (w, cache_WriteJob u i (im_cache (iw_plugin w)))"
  "lp_ControlJob (im_launcher_plugin S) = iw_ControlJob" "lp_open (im_launcher_plugin S) = iw_open"
  "lp_GetJobNetwork (im_launcher_plugin S) u i w = (w, im_GetJobNetwork (sr_host S) u i (iw_plugin w))"
  "lp_ClusterInfo (im_launcher_plugin S) u w = (w, im_ClusterInfo u)"
  "lp_written (im_launcher_plugin S) = iw_written S" "lp_cancel (im_launcher_plugin S) = iw_cancel"
  "lp_await (im_launcher_plugin S) = iw_await" "lp_elapse (im_launcher_plugin S) = iw_elapse"
  "lp_rounds (im_launcher_plugin S) d t w = sr_rounds S d t"
  by (simp_all add: im_launcher_plugin_def im_GetJob_def)

lemma elapse_user_job:
  assumes "world_ok n w" "0 < d"
  shows "rel_option ages (user_job user w i) (user_job user (iw_elapse d w) i)"
proof (cases "wjob w (id_str i)")
  case None
  then show ?thesis using elapse_dom [OF worldD(1) [OF assms(1)], of d "id_str i"] by (simp add: user_job_def)
next
  case (Some j)
  then obtain j' where "wjob (iw_elapse d w) (id_str i) = Some j'" "ages j j'" "job_User j' = job_User j"
    using elapse_ages [OF worldD(1) [OF assms(1)] Some] by metis
  with Some show ?thesis by (simp add: user_job_def sees_job_def)
qed

lemma user_job_status: "user_job user w i = Some j \<Longrightarrow> world_ok n w \<Longrightarrow>
  map_option job_Status (user_job user ((poll ^^ k) w) i) = status_of ((poll ^^ k) w) (id_str i) \<and> world_ok n ((poll ^^ k) w)"
proof (induction k arbitrary: w j)
  case 0
  then show ?case by (simp add: user_job_Some status_of_def)
next
  case (Suc k)
  have "rel_option ages (Some j) (user_job user (poll w) i)"
    using elapse_user_job [OF Suc.prems(2), of "ms 50" user i] Suc.prems(1) by (simp add: ms_def)
  then obtain j' where "user_job user (poll w) i = Some j'" by (cases "user_job user (poll w) i") auto
  with Suc.IH [OF this] world_elapse [OF Suc.prems(2), of "ms 50"] show ?case by (simp add: funpow_swap1 ms_def)
qed

lemma running_stays:
  assumes "world_ok n w" "user_job user w i = Some j" "long_tags (job_Tags j)" "job_Status j = StatusRunning"
  shows "map_option job_Status (user_job user (iw_elapse d w) i) = Some StatusRunning"
proof -
  have j: "wjob w (id_str i) = Some j" "sees_job user j" using assms(2) by (simp_all add: user_job_Some)
  from worldD(1) [OF assms(1)] j(1) show ?thesis
  proof (cases rule: elapse_job [where d = d])
    case (own r j' r')
    obtain t u jid lr ph where r: "r = (t, u, jid, lr, ph)" by (cases r) auto
    have "routine_ok (iw_now w) (wjob w) r" using worldD(1) [OF assms(1)] own(1) by (simp add: timers_ok_def)
    then have "lr" "ph = Sleeping" using j(1) own(2) assms(3) by (auto simp: r split: phase.splits)
    then have "job_Status j' = StatusRunning" "job_User j' = job_User j"
      using own(4) assms(4) by (auto simp: r tracked_def started_def split: if_splits)
    with own(3) j(2) show ?thesis by (simp add: user_job_def sees_job_def)
  next
    case alone
    with j(2) assms(4) show ?thesis by (simp add: user_job_def)
  qed
qed

lemma job_starts:
  assumes "world_ok n w" "user_job user w i = Some j" "job_Status j = StatusPending"
  shows "\<exists>k<10. map_option job_Status (user_job user ((poll ^^ Suc k) w) i) = Some StatusRunning \<and>
    (\<forall>m<k. map_option job_Status (user_job user ((poll ^^ Suc m) w) i) = Some StatusPending)"
proof -
  have j: "timers_ok w" "wjob w (id_str i) = Some j" using worldD(1) [OF assms(1)] assms(2) by (simp_all add: user_job_Some)
  then have "job_ok (set (iw_routines w)) (id_str i) j" by (simp add: timers_ok_def)
  then obtain r where r: "r \<in> set (iw_routines w)" "rkey r = id_str i" "rphase r = Sleeping" using assms(3) by (auto simp: job_ok_def)
  moreover have "rtime r \<le> iw_now w + ms 50 * int 10"
  proof -
    have "routine_ok (iw_now w) (wjob w) r" using j(1) r(1) by (simp add: timers_ok_def)
    then show ?thesis using r(3) by (cases r) (auto simp: rtime_def rphase_def ms_def)
  qed
  ultimately obtain k where "k < 10" "status_of ((poll ^^ Suc k) w) (id_str i) = Some StatusRunning"
    "\<forall>m<k. status_of ((poll ^^ Suc m) w) (id_str i) = Some StatusPending"
    using starts_within [OF j assms(3)] by blast
  then show ?thesis using user_job_status [OF assms(2,1)] by (intro exI [of _ k]) (simp del: funpow.simps)
qed

lemma job_completes:
  assumes "world_ok n w" "user_job user w i = Some j" "\<not> long_tags (job_Tags j)"
  shows "\<exists>k<101. \<exists>j'. user_job user ((poll ^^ Suc k) w) i = Some j' \<and> TerminalStatus (job_Status j')"
proof -
  have j: "timers_ok w" "wjob w (id_str i) = Some j" using worldD(1) [OF assms(1)] assms(2) by (simp_all add: user_job_Some)
  have "job_ok (set (iw_routines w)) (id_str i) j" using j by (simp add: timers_ok_def)
  then consider "TerminalStatus (job_Status j)" | r where "r \<in> set (iw_routines w)" "rkey r = id_str i" "rphase r = Sleeping \<or> rphase r = Started"
    using assms(3) by (auto simp: job_ok_def)
  then have "TerminalStatus (job_Status j) \<or> (\<exists>r\<in>set (iw_routines w). rkey r = id_str i \<and> rend r \<le> iw_now w + ms 50 * int 100)"
  proof cases
    case (2 r)
    have "routine_ok (iw_now w) (wjob w) r" using j(1) 2(1) by (simp add: timers_ok_def)
    then have "rend r \<le> iw_now w + ms 50 * int 100" by (cases r) (auto simp: rend_def rtime_def rphase_def ms_def split: phase.splits)
    with 2 show ?thesis by blast
  qed simp
  from ends_within [OF j assms(3) this] obtain m j' where m: "m \<le> 100" "wjob ((poll ^^ m) w) (id_str i) = Some j'" "TerminalStatus (job_Status j')"
    by blast
  note ok = user_job_status [OF assms(2,1)]
  obtain u where u: "user_job user ((poll ^^ m) w) i = Some u" "job_Status u = job_Status j'"
    using ok [of m] m(2) by (auto simp: status_of_def)
  have "rel_option ages (Some u) (user_job user (poll ((poll ^^ m) w)) i)"
    using elapse_user_job [of n "(poll ^^ m) w" "ms 50" user i] ok [of m] u(1) by (simp add: ms_def)
  then obtain u' where "user_job user ((poll ^^ Suc m) w) i = Some u'" "ages u u'" by (cases "user_job user (poll ((poll ^^ m) w)) i") auto
  with u(2) m show ?thesis by (intro exI [of _ m]) (auto simp: ages_def simp del: funpow.simps)
qed

lemma stop_and_kill:
  assumes "job_Status j = StatusRunning"
  shows "control_callback OperationStop no_options j = (j\<lparr>job_Status := StatusFinished, job_ExitCode := Some 143\<rparr>, None)"
    "control_callback OperationKill no_options j =
      (j\<lparr>job_Status := StatusKilled, job_ExitCode := Some 137, job_StatusMsg := '''', job_StatusCode := ''''\<rparr>, None)"
  using assms by (simp_all add: control_callback_def ValidForStatus_def api_defs no_options_def)

lemma cancel_pending:
  "job_Status j = StatusPending \<Longrightarrow> control_callback OperationCancel no_options j = (j\<lparr>job_Status := StatusCanceled\<rparr>, None)"
  by (simp add: control_callback_def ValidForStatus_def api_defs)

lemma submit_law:
  assumes "world_ok (Suc n) w"
  shows "\<exists>w' job' j. iw_SubmitJob user job w = (w', job', [CJobs (Some [j])]) \<and> world_ok n w' \<and> accepted job j \<and>
    user_job user w (job_ID j) = None \<and> user_job user w' = (user_job user w)(job_ID j \<mapsto> j)"
proof -
  obtain w' jid where w': "iw_SubmitJob user job w = (w', prepared_job (iw_now w) user jid job, [CJobs (Some [prepared_job (iw_now w) user jid job])])"
    "world_ok n w'" "wjob w (id_str jid) = None" "wjob w' = (wjob w)(id_str jid \<mapsto> prepared_job (iw_now w) user jid job)"
    by (rule submit_runs [OF assms])
  have "user_job user w' = (user_job user w)(jid \<mapsto> prepared_job (iw_now w) user jid job)"
    by (rule user_job_upd [OF w'(4)]) (simp add: sees_job_def prepared_job_def)
  then show ?thesis using w'
    by (intro exI [of _ w'] exI [of _ "prepared_job (iw_now w) user jid job"])
       (simp add: accepted_def prepared_job_def user_job_def)
qed

lemma id_law:
  assumes "world_ok n w" "user_job user w i = Some j"
  shows "job_ID j = i \<and> i \<noteq> JobID '''' \<and> \<not> prefix ''nonexistent-'' (id_str i)"
  using name_of_job [of n w "id_str i" j] assms by (cases i; cases "job_ID j") (auto simp: user_job_Some prefix_def)

lemma lookup_law: "user_job user w i = Some j \<Longrightarrow> Lookup user i (im_cache (iw_plugin w)) = Inr j"
  by (auto simp: Lookup_def user_job_Some sees_job_def)

lemma stop_law:
  assumes "world_ok n w" "user_job user w i = Some j" "job_Status j = StatusRunning"
  shows "\<exists>w' b m j'. iw_ControlJob user i OperationStop no_options w = (w', [CControlJob b m]) \<and> world_ok n w' \<and>
    kept j j' \<and> job_Status j' = StatusFinished \<and> job_ExitCode j' = Some 143 \<and> user_job user w' = (user_job user w)(i \<mapsto> j')"
  using control_runs [OF assms(1,2) stop_and_kill(1) [OF assms(3)]] by (auto simp: or_else_def terminal_distinct)

lemma kill_law:
  assumes "world_ok n w" "user_job user w i = Some j" "job_Status j = StatusRunning"
  shows "\<exists>w' b m j'. iw_ControlJob user i OperationKill no_options w = (w', [CControlJob b m]) \<and> world_ok n w' \<and>
    kept j j' \<and> job_Status j' = StatusKilled \<and> job_ExitCode j' = Some 137 \<and> user_job user w' = (user_job user w)(i \<mapsto> j')"
  using control_runs [OF assms(1,2) stop_and_kill(2) [OF assms(3)]] by (auto simp: or_else_def terminal_distinct)

lemma cancel_law:
  assumes "world_ok n w" "user_job user w i = Some j" "job_Status j = StatusPending"
  shows "\<exists>w' b m j'. iw_ControlJob user i OperationCancel no_options w = (w', [CControlJob b m]) \<and> world_ok n w' \<and>
    kept j j' \<and> job_Status j' = StatusCanceled \<and> user_job user w' = (user_job user w)(i \<mapsto> j')"
  using control_runs [OF assms(1,2) cancel_pending [OF assms(3)]] by (auto simp: terminal_distinct)

lemma elapse_law:
  "world_ok n w \<Longrightarrow> 0 < d \<Longrightarrow> world_ok n (iw_elapse d w) \<and> rel_option ages (user_job user w i) (user_job user (iw_elapse d w) i)"
  by (simp add: world_elapse elapse_user_job)

lemma brief_law: "(\<And>t. t \<in> set us \<Longrightarrow> prefix ''conformance-'' t) \<Longrightarrow> (\<not> long_tags (ts @ us)) = (\<not> long_tags ts)"
  by (force simp: long_tags_def)

lemma output_law:
  assumes "world_ok n w" "user_job user w i = Some j"
  shows "\<exists>w' h k. iw_open (OutputStream i OutputStdout) user (Some (ms 10000)) w = (w', h) \<and> world_ok n w' \<and>
    user_job user w' = user_job user w \<and> k \<le> 20 \<and> 0 < mock_OutputCount (mock_calls (iw_written S h ((poll ^^ k) w')))"
proof -
  obtain w' h where w': "iw_open (OutputStream i OutputStdout) user (Some (ms 10000)) w = (w', h)" by (metis surj_pair)
  then have "world_ok n w' \<and> user_job user w' = user_job user w" using assms(1) by (auto simp: iw_open_def world_streams)
  with w' first_line [OF assms(2) w'] show ?thesis by (metis order_refl zero_less_one)
qed

lemma close_law:
  "world_ok n w \<Longrightarrow> \<exists>w'. iw_await h None (iw_cancel h w) = (w', True) \<and> world_ok n w' \<and> user_job user w' = user_job user w"
  by (auto simp: iw_await_def iw_cancel_def world_streams split: stream_kind.split)

lemmas im_laws = submit_law id_law stop_law kill_law cancel_law elapse_law job_starts job_completes brief_law output_law close_law

sublocale im_setting \<subseteq> conf: conforming_plugin "im_launcher_plugin S" user world_ok "user_job user"
  "\<lambda>ts. \<not> long_tags ts" 10 101 20 StatusFinished StatusKilled 143 137
proof (unfold_locales, unfold im_simps stream_writer_def defaultPollInterval_def)
  fix n p i flds
  assume "world_ok n p" "user_job user p i = None"
  from missing_job(1) [OF this] show "\<exists>e. err_Code e = CodeJobNotFound \<and> (p, cache_WriteJob user i (im_cache (iw_plugin p))) = (p, [CError (EApi e)])"
    by (auto simp: cache_WriteJob_def)
qed ((rule im_laws lists_jobs missing_job(2) rounds_enough; assumption)
  | (simp add: lookup_law cache_WriteJob_def running_stays im_GetJobNetwork_def iw_open_def world_streams
      im_ClusterInfo_def nil_slice_def terminal_distinct rounds_enough; fail))+


section \<open>The plugin passes\<close>

context im_setting
begin

lemma fresh_at_work: "n < 2 ^ 32 \<Longrightarrow> conf.at_work n (new_im_world now)"
  by (auto simp: conf.at_work_def world_ok_def timers_ok_def names_ok_def plugin_ok_def user_job_def new_im_world_def
      new_InMemoryPlugin_def new_view intro: exI [of _ 0])

lemma fresh_Run:
  assumes "suite_profile (\<lambda>ts. \<not> long_tags ts) user StatusFinished 143 StatusKilled 137 profile"
  shows "goes (conf_Run (im_launcher_plugin S) user profile) (new_im_world now) (\<lambda>_ _. True)"
  by (rule conf.goes_conf_Run [OF assms, of 0]) (simp_all add: fresh_at_work)

lemma fresh_Workflows:
  assumes "suite_profile (\<lambda>ts. \<not> long_tags ts) user StatusFinished 143 StatusKilled 137 profile"
  shows "goes (RunWorkflows (im_launcher_plugin S) user profile) (new_im_world now) (\<lambda>_ _. True)"
  by (rule conf.goes_RunWorkflows [OF assms, of 0]) (simp_all add: fresh_at_work)

lemma fresh_Kill:
  assumes "list_all (\<lambda>t. \<not> own_tag t) (job_Tags (ko_Job opts))" "ko_ExpectStatus opts = StatusKilled"
    "137 \<in> set (ko_ExpectExitCodes opts)" "ko_Timeout opts = ms 30000"
  shows "passes (RunKillJob (im_launcher_plugin S) user opts) (new_im_world now)"
proof -
  have "goes (RunKillJob (im_launcher_plugin S) user opts) (new_im_world now) (\<lambda>_ _. True)"
    by (rule conf.goes_RunKillJob [where n = 0]) (simp_all add: fresh_at_work assms conf.plain_not_own)
  then show ?thesis by (rule goes_passes [THEN conjunct1])
qed

end

text \<open>
  C6: The in-memory plugin conforms. A freshly started one passes \<^verbatim>\<open>Run\<close>, all invariant tests, and
  \<^verbatim>\<open>RunWorkflows\<close>, with every subtest passed and none skipped, for every user and every profile that is
  complete, takes the default timeouts, marks its long-running jobs (and no others) with the tag
  \<^verbatim>\<open>long-running\<close>, keeps off the suite's own tags, and expects a stopped job to be finished with
  code 143 and a killed one killed with 137; whatever the order in which the store's map is visited.
\<close>

theorem inmemory_passes_suite:
  assumes "surround_ok S" "suite_profile (\<lambda>ts. \<not> long_tags ts) user StatusFinished 143 StatusKilled 137 profile"
  shows "passes (conf_Run (im_launcher_plugin S) user profile) (new_im_world now) \<and>
    list_all (\<lambda>(_, v). v = Passed) (ts_results (fst (run_test (conf_Run (im_launcher_plugin S) user profile) (new_im_world now)))) \<and>
    passes (RunWorkflows (im_launcher_plugin S) user profile) (new_im_world now) \<and>
    list_all (\<lambda>(_, v). v = Passed) (ts_results (fst (run_test (RunWorkflows (im_launcher_plugin S) user profile) (new_im_world now))))"
proof -
  have "im_setting S" using assms(1) by (rule im_setting.intro)
  from goes_passes [OF im_setting.fresh_Run [OF this assms(2), of now]]
    goes_passes [OF im_setting.fresh_Workflows [OF this assms(2), of now]]
  show ?thesis by simp
qed

text \<open>A setting and a profile: the map visited in the order of its keys, every loop run to its exact end.\<close>

definition key_order :: surround where
  "key_order = \<lparr>sr_keys = (\<lambda>s. sorted_list_of_set (fset (fmdom (ims_jobs s)))), sr_rounds = (\<lambda>i t. nat (t div i)), sr_host = ''localhost''\<rparr>"

lemma key_order_ok: "surround_ok key_order"
  by (simp add: surround_ok_def key_order_def enumerates_def)

interpretation ordered: im_setting key_order "''testuser''"
  by unfold_locales (rule key_order_ok)

definition test_profile :: Profile where
  "test_profile = \<lparr>
     pf_JobFactory = Some (\<lambda>user. zero_Job\<lparr>job_User := user, job_Name := ''conformance-test'', job_Command := ''echo hello''\<rparr>),
     pf_LongRunningJob = Some (\<lambda>user. zero_Job\<lparr>job_User := user, job_Name := ''conformance-long'', job_Command := ''sleep 300'',
       job_Tags := [''long-running'']\<rparr>),
     pf_StopStatus = StatusFinished, pf_StopExitCodes = [143], pf_KillStatus = StatusKilled, pf_KillExitCodes = [137],
     pf_OutputAvailable = True, pf_SuspendSupported = False, pf_NetworkAvailable = True,
     pf_PollInterval = 0, pf_JobStartTimeout = 0, pf_JobCompleteTimeout = 0, pf_OutputTimeout = 0\<rparr>"

theorem inmemory_passes_suite_witness:
  "passes (conf_Run (im_launcher_plugin key_order) ''testuser'' test_profile) (new_im_world 0) \<and>
   passes (RunWorkflows (im_launcher_plugin key_order) ''testuser'' test_profile) (new_im_world 0)"
proof -
  have "suite_profile (\<lambda>ts. \<not> long_tags ts) ''testuser'' StatusFinished 143 StatusKilled 137 test_profile"
    by (simp add: suite_profile_def test_profile_def missing_fields_def new_job_def new_long_job_def long_tags_def own_tag_def
        zero_Job_def api_defs)
  from inmemory_passes_suite [OF key_order_ok this] show ?thesis by simp
qed

text \<open>
  C35: A passing kill scenario is evidence: if \<^verbatim>\<open>RunKillJob\<close> passes on a plugin, then the plugin accepted
  the job under a non-empty ID, at some poll reported it as running, accepted the kill, and at a
  later poll reported the job in the expected status, which is terminal, with one of the
  acceptable exit codes.
\<close>

theorem RunKillJob_sound:
  assumes "passes (RunKillJob P user opts) p"
  shows "\<exists>jid q. shows_running P user (ko_Job opts) p jid q \<and>
    shows_end P user jid OperationKill (ko_ExpectStatus opts) (ko_ExpectExitCodes opts) q"
  using assms by (rule RunKillJob_shows)

theorem RunKillJob_sound_witness:
  "\<exists>jid q. shows_running (im_launcher_plugin key_order) ''testuser'' (new_long_job test_profile ''testuser'') (new_im_world 0) jid q \<and>
     shows_end (im_launcher_plugin key_order) ''testuser'' jid OperationKill StatusKilled [137] q"
proof -
  let ?opts = "\<lparr>ko_Job = new_long_job test_profile ''testuser'', ko_ExpectStatus = StatusKilled, ko_ExpectExitCodes = [137], ko_Timeout = ms 30000\<rparr>"
  have "passes (RunKillJob (im_launcher_plugin key_order) ''testuser'' ?opts) (new_im_world 0)"
    by (rule ordered.fresh_Kill) (simp_all add: new_long_job_def test_profile_def own_tag_def)
  from RunKillJob_sound [OF this] show ?thesis by simp
qed

end
