(* ===== verification/Wire_Jobs.thy ===== *)
theory Wire_Jobs
  imports Wire_Requests
begin

text \<open>
  The JSON form of a job, as \<^verbatim>\<open>encoding/json\<close> derives it from the struct tags in
  \<^verbatim>\<open>src/api/types.go\<close>: the fields in the order of the struct, those tagged \<^verbatim>\<open>omitempty\<close> left out when
  empty. The text of an instant is a parameter, as its reading is. The decoder of
  the protocol reads the job back.
\<close>

section \<open>Values and tagged fields\<close>

definition enc_int :: "int \<Rightarrow> json" where
  "enc_int i = JNum (int_dec i)"

definition enc_uint64 :: "u64 \<Rightarrow> json" where
  "enc_uint64 w = JNum (nat_dec (unat w))"

type_synonym members = "(string \<times> json) list"

definition omit_str :: "string \<Rightarrow> string \<Rightarrow> members" where
  "omit_str k s = (if s = '''' then [] else [(k, JStr s)])"

definition omit_bool :: "string \<Rightarrow> bool \<Rightarrow> members" where
  "omit_bool k b = (if b then [(k, JBool True)] else [])"

definition omit_int :: "string \<Rightarrow> int \<Rightarrow> members" where
  "omit_int k i = (if i = 0 then [] else [(k, enc_int i)])"

definition omit_list :: "string \<Rightarrow> ('a \<Rightarrow> json) \<Rightarrow> 'a list \<Rightarrow> members" where
  "omit_list k f xs = (if xs = [] then [] else [(k, JArr (map f xs))])"

definition omit_ptr :: "string \<Rightarrow> ('a \<Rightarrow> json) \<Rightarrow> 'a option \<Rightarrow> members" where
  "omit_ptr k f p = (case p of None \<Rightarrow> [] | Some x \<Rightarrow> [(k, f x)])"

text \<open>A map with string keys is written in the order of its keys.\<close>

definition enc_map :: "members \<Rightarrow> json" where
  "enc_map kvs = JObj (sort_key fst kvs)"

definition omit_map :: "string \<Rightarrow> members \<Rightarrow> members" where
  "omit_map k m = (if m = [] then [] else [(k, enc_map m)])"


section \<open>Structs\<close>

definition enc_Version :: "Version \<Rightarrow> json" where
  "enc_Version v = JObj ([(''major'', enc_int (ver_Major v)), (''minor'', enc_int (ver_Minor v)),
     (''patch'', enc_int (ver_Patch v))] @ omit_int ''build'' (ver_Build v) @ omit_str ''revision'' (ver_Revision v))"

definition enc_Env :: "Env \<Rightarrow> json" where
  "enc_Env e = JObj [(''name'', JStr (env_Name e)), (''value'', JStr (env_Value e))]"

definition enc_Container :: "Container \<Rightarrow> json" where
  "enc_Container c = JObj ([(''image'', JStr (cont_Image c))] @ omit_ptr ''runAsUserId'' enc_int (cont_RunAsUser c) @
     omit_ptr ''runAsGroupId'' enc_int (cont_RunAsGroup c) @
     omit_list ''supplementalGroupIds'' enc_int (cont_SupplementalGroups c))"

definition enc_source :: "mount_source_value \<Rightarrow> json" where
  "enc_source s = (case s of
     SrcHost h \<Rightarrow> JObj [(''path'', JStr (hm_Path h))]
   | SrcRaw r \<Rightarrow> (case r of None \<Rightarrow> JNull | Some v \<Rightarrow> v))"

definition enc_MountSource :: "MountSource \<Rightarrow> json" where
  "enc_MountSource s = JObj [(''type'', JStr (ms_Type s)), (''source'', enc_source (ms_Source s))]"

definition enc_Mount :: "Mount \<Rightarrow> json" where
  "enc_Mount m = JObj ([(''mountPath'', JStr (mnt_Path m))] @ omit_str ''name'' (mnt_Name m) @
     omit_bool ''readOnly'' (mnt_ReadOnly m) @ [(''mountSource'', enc_MountSource (mnt_Source m))])"

definition enc_InitContainer :: "InitContainer \<Rightarrow> json" where
  "enc_InitContainer c = JObj ([(''name'', JStr (ic_Name c)), (''image'', JStr (ic_Image c))] @
     omit_str ''command'' (ic_Command c) @ omit_str ''exe'' (ic_Exe c) @ omit_list ''args'' JStr (ic_Args c) @
     omit_list ''mounts'' enc_Mount (ic_Mounts c) @ omit_list ''environment'' enc_Env (ic_Env c))"

definition enc_PlacementConstraint :: "PlacementConstraint \<Rightarrow> json" where
  "enc_PlacementConstraint c = JObj ([(''name'', JStr (pc_Name c))] @ omit_str ''value'' (pc_Value c) @
     omit_str ''defaultValue'' (pc_Default c))"

definition enc_Port :: "Port \<Rightarrow> json" where
  "enc_Port p = JObj ([(''targetPort'', enc_int (port_TargetPort p))] @
     omit_ptr ''publishedPort'' enc_int (port_PublishedPort p) @ [(''protocol'', JStr (port_Protocol p))])"

definition enc_JobConfig :: "JobConfig \<Rightarrow> json" where
  "enc_JobConfig c = JObj ([(''name'', JStr (jc_Name c))] @ omit_str ''valueType'' (jc_Type c) @
     omit_str ''value'' (jc_Value c))"

definition enc_ResourceLimit :: "ResourceLimit \<Rightarrow> json" where
  "enc_ResourceLimit l = JObj ([(''type'', JStr (rl_Type l))] @ omit_str ''value'' (rl_Value l) @
     omit_str ''defaultValue'' (rl_Default l) @ omit_str ''maxValue'' (rl_Max l))"

definition Job_members :: "(instant \<Rightarrow> string) \<Rightarrow> Job \<Rightarrow> members" where
  "Job_members fmt j = (''id'', JStr (id_str (job_ID j))) # omit_str ''cluster'' (job_Cluster j) @
     omit_str ''name'' (job_Name j) @ omit_str ''user'' (job_User j) @ omit_str ''group'' (job_Group j) @
     omit_list ''queues'' JStr (job_Queues j) @ omit_str ''workingDirectory'' (job_WorkDir j) @
     omit_ptr ''container'' enc_Container (job_Container j) @
     omit_list ''initContainers'' enc_InitContainer (job_InitContainers j) @ omit_str ''host'' (job_Host j) @
     omit_str ''status'' (job_Status j) @ omit_str ''statusMessage'' (job_StatusMsg j) @
     omit_str ''statusCode'' (job_StatusCode j) @ omit_ptr ''pid'' enc_int (job_Pid j) @
     omit_ptr ''exitCode'' enc_int (job_ExitCode j) @ omit_str ''command'' (job_Command j) @
     omit_str ''exe'' (job_Exe j) @ omit_str ''stdoutFile'' (job_Stdout j) @ omit_str ''stderrFile'' (job_Stderr j) @
     omit_str ''stdin'' (job_Stdin j) @ omit_list ''args'' JStr (job_Args j) @
     omit_list ''environment'' enc_Env (job_Env j) @
     omit_list ''placementConstraints'' enc_PlacementConstraint (job_Constraints j) @
     omit_ptr ''lastUpdateTime'' (\<lambda>t. JStr (fmt t)) (job_LastUpdated j) @
     omit_ptr ''submissionTime'' (\<lambda>t. JStr (fmt t)) (job_Submitted j) @
     omit_list ''exposedPorts'' enc_Port (job_Ports j) @ omit_list ''mounts'' enc_Mount (job_Mounts j) @
     omit_list ''config'' enc_JobConfig (job_Config j) @ omit_list ''resourceLimits'' enc_ResourceLimit (job_Limits j) @
     omit_list ''tags'' JStr (job_Tags j) @ omit_map ''metadata'' (job_Metadata j) @
     omit_str ''resourceProfile'' (job_Profile j) @ omit_bool ''systemJob'' (job_SystemJob j) @
     omit_str ''instanceId'' (job_InstanceID j)"

definition enc_Job :: "(instant \<Rightarrow> string) \<Rightarrow> Job \<Rightarrow> json" where
  "enc_Job fmt j = JObj (Job_members fmt j)"


section \<open>What decodes to what\<close>

text \<open>Decoding the members one after the other, each into the struct as the ones before left it.\<close>

definition yields :: "'s struct_fields \<Rightarrow> members \<Rightarrow> 's \<Rightarrow> 's \<Rightarrow> bool" where
  "yields fl kvs s t \<longleftrightarrow> dec_object fl kvs s = Inr t"

lemma yields_Nil: "yields fl [] s s"
  by (simp add: yields_def)

lemma yields_member:
  assumes "map_of fl k = Some (into d rd wr)" "d v (rd s) = Inr x" "yields fl rest (wr x s) t"
  shows "yields fl ((k, v) # rest) s t"
proof -
  have "k \<in> set (map fst fl)" using assms(1) by (metis map_of_SomeD image_eqI fst_conv image_set)
  with assms show ?thesis by (simp add: yields_def dec_key_def match_key_def into_def)
qed

lemma yields_omit:
  assumes "map_of fl k = Some (into d rd wr)" "\<not> gone \<Longrightarrow> d v (rd s) = Inr x" "gone \<Longrightarrow> x = rd s" "wr (rd s) s = s"
    "yields fl rest (wr x s) t"
  shows "yields fl ((if gone then [] else [(k, v)]) @ rest) s t"
  using assms by (cases gone) (auto intro: yields_member)

lemma yields_str:
  assumes "map_of fl k = Some (into dec_string rd wr)" "rd s = ''''" "wr '''' s = s" "yields fl rest (wr x s) t"
  shows "yields fl (omit_str k x @ rest) s t"
  unfolding omit_str_def by (rule yields_omit [OF assms(1)]) (use assms in auto)

lemma yields_bool:
  assumes "map_of fl k = Some (into dec_bool rd wr)" "rd s = False" "wr False s = s" "yields fl rest (wr x s) t"
  shows "yields fl (omit_bool k x @ rest) s t"
  using assms by (cases x) (auto simp: omit_bool_def intro: yields_member)

lemma dec_elems_map:
  "(\<And>x. x \<in> set xs \<Longrightarrow> d (f x) zero = Inr x) \<Longrightarrow> dec_elems d zero (map f xs) [] = Inr xs"
  by (induction xs) auto

lemma yields_list:
  assumes "map_of fl k = Some (into (dec_list d zero) rd wr)" "rd s = []" "wr [] s = s"
    "\<And>x. x \<in> set xs \<Longrightarrow> d (f x) zero = Inr x" "yields fl rest (wr xs s) t"
  shows "yields fl (omit_list k f xs @ rest) s t"
  unfolding omit_list_def by (rule yields_omit [OF assms(1)]) (use assms in \<open>auto simp: dec_elems_map\<close>)

lemma yields_ptr:
  assumes "map_of fl k = Some (into (dec_ptr d zero) rd wr)" "rd s = None" "wr None s = s"
    "\<And>x. p = Some x \<Longrightarrow> f x \<noteq> JNull \<and> d (f x) zero = Inr x" "yields fl rest (wr p s) t"
  shows "yields fl (omit_ptr k f p @ rest) s t"
proof (cases p)
  case None
  with assms show ?thesis by (simp add: omit_ptr_def)
next
  case (Some x)
  have "dec_ptr d zero (f x) (rd s) = Inr (Some x)"
    using assms(2,4) Some by (auto simp: dec_ptr_def split: json.split)
  with assms Some show ?thesis by (auto simp: omit_ptr_def intro: yields_member)
qed

lemma yields_map:
  assumes "map_of fl k = Some (into dec_anymap rd wr)" "rd s = []" "wr [] s = s" "sorted (map fst m)"
    "yields fl rest (wr m s) t"
  shows "yields fl (omit_map k m @ rest) s t"
proof -
  have "sort_key fst m = m" using assms(4) by (simp add: sort_key_id_if_sorted)
  then show ?thesis unfolding omit_map_def enc_map_def by (intro yields_omit [OF assms(1)]) (use assms in auto)
qed

lemma dec_struct_yields: "yields fl (kvs @ []) s t \<Longrightarrow> dec_struct fl (JObj kvs) s = Inr t"
  by (simp add: yields_def)

lemmas yields_rules = yields_member yields_str yields_bool yields_list yields_ptr yields_map

lemmas append_right = append_assoc append_Cons append_Nil

lemma dec_int_enc [simp]: "in_int64 i \<Longrightarrow> dec_int (enc_int i) old = Inr i"
  by (simp add: enc_int_def Atoi_int_dec)

lemma dec_uint64_enc [simp]: "dec_uint64 (enc_uint64 w) old = Inr w"
  by (simp add: enc_uint64_def parse_uint64_nat_dec)

lemma enc_not_null [simp]: "enc_int i \<noteq> JNull" "enc_uint64 w \<noteq> JNull" "enc_Container c \<noteq> JNull" "enc_Job fmt j \<noteq> JNull"
  by (simp_all add: enc_int_def enc_uint64_def enc_Container_def enc_Job_def)


section \<open>Reading a job back\<close>

definition container_ok :: "Container \<Rightarrow> bool" where
  "container_ok c \<longleftrightarrow> list_all in_int64 (cont_SupplementalGroups c) \<and>
     pred_option in_int64 (cont_RunAsUser c) \<and> pred_option in_int64 (cont_RunAsGroup c)"

text \<open>The source of a mount fits its type, and is there.\<close>

definition mount_ok :: "Mount \<Rightarrow> bool" where
  "mount_ok m \<longleftrightarrow> (case ms_Source (mnt_Source m) of
     SrcHost _ \<Rightarrow> ms_Type (mnt_Source m) = MountTypeHost
   | SrcRaw r \<Rightarrow> ms_Type (mnt_Source m) \<noteq> MountTypeHost \<and> r \<noteq> None)"

definition port_ok :: "Port \<Rightarrow> bool" where
  "port_ok p \<longleftrightarrow> in_int64 (port_TargetPort p) \<and> pred_option in_int64 (port_PublishedPort p)"

lemma dec_enc_Env: "dec_struct Env_fields (enc_Env e) zero_Env = Inr e"
  unfolding enc_Env_def
  by (rule dec_struct_yields, unfold append_right)
     ((rule yields_rules) | (simp add: Env_fields_def zero_Env_def yields_def; fail))+

lemma dec_enc_Container: "container_ok c \<Longrightarrow> dec_struct Container_fields (enc_Container c) zero_Container = Inr c"
  unfolding enc_Container_def
  by (rule dec_struct_yields, unfold append_right)
     ((rule yields_rules) | (simp add: Container_fields_def zero_Container_def container_ok_def list_all_iff yields_def; fail))+

lemma dec_enc_MountSource:
  assumes "mount_ok m"
  shows "MountSource_UnmarshalJSON (enc_MountSource (mnt_Source m)) old = Inr (mnt_Source m)"
proof -
  let ?s = "mnt_Source m"
  have raw: "dec_struct rawMountSource_fields (enc_MountSource ?s) \<lparr>raw_Type = '''', raw_Source = None\<rparr> =
      Inr \<lparr>raw_Type = ms_Type ?s, raw_Source = Some (enc_source (ms_Source ?s))\<rparr>"
    by (simp add: enc_MountSource_def rawMountSource_fields_def dec_key_def match_key_def into_def)
  have host: "dec_key HostMount_fields ''path'' (JStr p) \<lparr>hm_Path = ''''\<rparr> = Inr \<lparr>hm_Path = p\<rparr>" for p
    by (simp add: HostMount_fields_def dec_key_def match_key_def into_def)
  obtain t src where s: "?s = \<lparr>ms_Type = t, ms_Source = src\<rparr>" by (cases ?s)
  show ?thesis using assms raw
    by (cases src) (auto simp: MountSource_UnmarshalJSON_def mount_ok_def enc_source_def host s)
qed

lemma dec_enc_Mount: "mount_ok m \<Longrightarrow> dec_struct Mount_fields (enc_Mount m) zero_Mount = Inr m"
  unfolding enc_Mount_def
  by (rule dec_struct_yields, unfold append_right)
     ((rule yields_rules) | (simp add: Mount_fields_def zero_Mount_def dec_enc_MountSource yields_def; fail))+

lemma dec_enc_InitContainer:
  "list_all mount_ok (ic_Mounts c) \<Longrightarrow> dec_struct InitContainer_fields (enc_InitContainer c) zero_InitContainer = Inr c"
  unfolding enc_InitContainer_def
  by (rule dec_struct_yields, unfold append_right)
     ((rule yields_rules)
      | (simp add: InitContainer_fields_def zero_InitContainer_def dec_enc_Mount dec_enc_Env list_all_iff yields_def; fail))+

lemma dec_enc_PlacementConstraint:
  "dec_struct PlacementConstraint_fields (enc_PlacementConstraint c) \<lparr>pc_Name = '''', pc_Value = '''', pc_Default = ''''\<rparr> = Inr c"
  unfolding enc_PlacementConstraint_def
  by (rule dec_struct_yields, unfold append_right)
     ((rule yields_rules) | (simp add: PlacementConstraint_fields_def yields_def; fail))+

lemma dec_enc_Port:
  "port_ok p \<Longrightarrow> dec_struct Port_fields (enc_Port p) \<lparr>port_TargetPort = 0, port_PublishedPort = None, port_Protocol = ''''\<rparr> = Inr p"
  unfolding enc_Port_def
  by (rule dec_struct_yields, unfold append_right)
     ((rule yields_rules) | (simp add: Port_fields_def port_ok_def yields_def; fail))+

lemma dec_enc_JobConfig:
  "dec_struct JobConfig_fields (enc_JobConfig c) \<lparr>jc_Name = '''', jc_Type = '''', jc_Value = ''''\<rparr> = Inr c"
  unfolding enc_JobConfig_def
  by (rule dec_struct_yields, unfold append_right)
     ((rule yields_rules) | (simp add: JobConfig_fields_def yields_def; fail))+

lemma dec_enc_ResourceLimit:
  "dec_struct ResourceLimit_fields (enc_ResourceLimit l) \<lparr>rl_Type = '''', rl_Value = '''', rl_Default = '''', rl_Max = ''''\<rparr> = Inr l"
  unfolding enc_ResourceLimit_def
  by (rule dec_struct_yields, unfold append_right)
     ((rule yields_rules) | (simp add: ResourceLimit_fields_def yields_def; fail))+

definition job_wire_ok :: "Job \<Rightarrow> bool" where
  "job_wire_ok j \<longleftrightarrow> pred_option container_ok (job_Container j) \<and>
     list_all (\<lambda>c. list_all mount_ok (ic_Mounts c)) (job_InitContainers j) \<and>
     pred_option in_int64 (job_Pid j) \<and> pred_option in_int64 (job_ExitCode j) \<and>
     list_all port_ok (job_Ports j) \<and> list_all mount_ok (job_Mounts j) \<and> sorted (map fst (job_Metadata j))"

definition time_text_ok :: "json_env \<Rightarrow> (instant \<Rightarrow> string) \<Rightarrow> Job \<Rightarrow> bool" where
  "time_text_ok env fmt j \<longleftrightarrow> pred_option (\<lambda>t. je_time env (fmt t) = Some t) (job_LastUpdated j) \<and>
     pred_option (\<lambda>t. je_time env (fmt t) = Some t) (job_Submitted j)"

lemmas dec_enc_parts = dec_enc_Env dec_enc_Container dec_enc_Mount dec_enc_InitContainer dec_enc_PlacementConstraint
  dec_enc_Port dec_enc_JobConfig dec_enc_ResourceLimit

lemma dec_enc_Job:
  assumes "job_wire_ok j" "time_text_ok env fmt j"
  shows "dec_struct (Job_fields env) (enc_Job fmt j) zero_Job = Inr (j\<lparr>job_Misc := []\<rparr>)"
  using assms unfolding enc_Job_def Job_members_def
  by - (rule dec_struct_yields, unfold append_right,
     ((rule yields_rules) | (simp add: Job_fields_def zero_Job_def dec_JobID_def dec_enc_parts job_wire_ok_def time_text_ok_def
         list_all_iff yields_def; fail))+)

text \<open>
  C16: The protocol reads back the jobs it is sent: decoding the JSON form of a job, written after the
  struct tags with the empty fields left out, gives the same job without its unexported
  miscellany, provided that its integers fit 64 bits, that the source of each mount is there and
  fits its type, that metadata are listed by key, and that the instants' text is read back.
\<close>

theorem job_roundtrip:
  assumes "job_wire_ok j" "time_text_ok env fmt j"
  shows "dec_struct (Job_fields env) (enc_Job fmt j) zero_Job = Inr (j\<lparr>job_Misc := []\<rparr>)"
  using assms by (rule dec_enc_Job)

definition wire_job :: Job where
  "wire_job = zero_Job\<lparr>job_ID := JobID ''job-1'', job_Queues := [''a'', ''b''], job_ExitCode := Some (-1), job_Submitted := Some 7,
     job_Container := Some \<lparr>cont_Image = ''ubuntu'', cont_RunAsUser = Some 1000, cont_RunAsGroup = None, cont_SupplementalGroups = [4]\<rparr>,
     job_Mounts := [\<lparr>mnt_Path = ''/home'', mnt_Name = '''', mnt_ReadOnly = True,
       mnt_Source = \<lparr>ms_Type = ''host'', ms_Source = SrcHost \<lparr>hm_Path = ''/srv/home''\<rparr>\<rparr>\<rparr>]\<rparr>"

theorem job_roundtrip_witness:
  "let env = \<lparr>je_parse = (\<lambda>_. None), je_time = Atoi, je_addr = (\<lambda>_. None)\<rparr> in
   dec_struct (Job_fields env) (enc_Job int_dec wire_job) zero_Job = Inr wire_job"
proof -
  let ?env = "\<lparr>je_parse = (\<lambda>_. None), je_time = Atoi, je_addr = (\<lambda>_. None)\<rparr>"
  have "job_wire_ok wire_job"
    by (simp add: job_wire_ok_def wire_job_def zero_Job_def container_ok_def mount_ok_def MountTypeHost_def in_int64_def)
  moreover have "time_text_ok ?env int_dec wire_job"
    by (simp add: time_text_ok_def wire_job_def zero_Job_def Atoi_int_dec in_int64_def)
  ultimately have "dec_struct (Job_fields ?env) (enc_Job int_dec wire_job) zero_Job = Inr (wire_job\<lparr>job_Misc := []\<rparr>)"
    by (rule job_roundtrip)
  then show ?thesis by (simp add: wire_job_def zero_Job_def Let_def)
qed

end
