(* ===== verification/Smoke_Requests.thy ===== *)
theory Smoke_Requests
  imports Wire_Jobs
begin

text \<open>
  The messages of the smoke test (\<^verbatim>\<open>src/cmd/smoketest/requests.go\<close>): its constants, the builders of
  its requests (maps from keys to values, in the order of the source) and its jobs; and
  what the protocol's decoder makes of each.
\<close>

section \<open>Constants\<close>

definition msgBootstrap :: int where [wire_defs]: "msgBootstrap = 1"
definition msgSubmitJob :: int where [wire_defs]: "msgSubmitJob = 2"
definition msgGetJob :: int where [wire_defs]: "msgGetJob = 3"
definition msgGetJobStatus :: int where [wire_defs]: "msgGetJobStatus = 4"
definition msgControlJob :: int where [wire_defs]: "msgControlJob = 5"
definition msgGetJobOutput :: int where [wire_defs]: "msgGetJobOutput = 6"
definition msgGetJobResourceUtil :: int where [wire_defs]: "msgGetJobResourceUtil = 7"
definition msgGetJobNetwork :: int where [wire_defs]: "msgGetJobNetwork = 8"
definition msgGetClusterInfo :: int where [wire_defs]: "msgGetClusterInfo = 9"

definition opSuspend :: int where [wire_defs]: "opSuspend = 0"
definition opResume :: int where [wire_defs]: "opResume = 1"
definition opStop :: int where [wire_defs]: "opStop = 2"
definition opKill :: int where [wire_defs]: "opKill = 3"
definition opCancel :: int where [wire_defs]: "opCancel = 4"

definition outputStdout :: int where [wire_defs]: "outputStdout = 0"
definition outputStderr :: int where [wire_defs]: "outputStderr = 1"
definition outputBoth :: int where [wire_defs]: "outputBoth = 2"


section \<open>Requests\<close>

definition bootstrapReq :: members where
  "bootstrapReq = [
     (''messageType'', enc_int msgBootstrap),
     (''requestId'', enc_uint64 0),
     (''version'', enc_Version APIVersion)]"

definition clusterInfoReq :: "u64 \<Rightarrow> string \<Rightarrow> members" where
  "clusterInfoReq rid user = [
     (''messageType'', enc_int msgGetClusterInfo),
     (''requestId'', enc_uint64 rid),
     (''username'', JStr user),
     (''requestUsername'', JStr user)]"

definition allJobsReq :: "u64 \<Rightarrow> string \<Rightarrow> members" where
  "allJobsReq rid user = [
     (''messageType'', enc_int msgGetJob),
     (''requestId'', enc_uint64 rid),
     (''username'', JStr user),
     (''requestUsername'', JStr user),
     (''jobId'', JStr ''*''),
     (''encodedJobId'', JStr '''')]"

definition getJobReq :: "u64 \<Rightarrow> string \<Rightarrow> string \<Rightarrow> members" where
  "getJobReq rid jobID user = [
     (''messageType'', enc_int msgGetJob),
     (''requestId'', enc_uint64 rid),
     (''username'', JStr user),
     (''requestUsername'', JStr user),
     (''jobId'', JStr jobID),
     (''encodedJobId'', JStr '''')]"

definition filteredJobsReq :: "u64 \<Rightarrow> string \<Rightarrow> members" where
  "filteredJobsReq rid user = [
     (''messageType'', enc_int msgGetJob),
     (''requestId'', enc_uint64 rid),
     (''username'', JStr user),
     (''requestUsername'', JStr user),
     (''jobId'', JStr ''*''),
     (''encodedJobId'', JStr ''''),
     (''tags'', JArr [JStr ''filter job''])]"

definition statusJobsReq :: "u64 \<Rightarrow> string \<Rightarrow> string \<Rightarrow> members" where
  "statusJobsReq rid user status = [
     (''messageType'', enc_int msgGetJob),
     (''requestId'', enc_uint64 rid),
     (''username'', JStr user),
     (''requestUsername'', JStr user),
     (''jobId'', JStr ''*''),
     (''encodedJobId'', JStr ''''),
     (''statuses'', JArr [JStr status])]"

definition jobStatusStreamReq :: "u64 \<Rightarrow> string \<Rightarrow> members" where
  "jobStatusStreamReq rid user = [
     (''messageType'', enc_int msgGetJobStatus),
     (''requestId'', enc_uint64 rid),
     (''username'', JStr user),
     (''requestUsername'', JStr user),
     (''jobId'', JStr ''*''),
     (''encodedJobId'', JStr ''''),
     (''cancel'', JBool False)]"

definition cancelJobStatusStreamReq :: "u64 \<Rightarrow> string \<Rightarrow> members" where
  "cancelJobStatusStreamReq rid user = [
     (''messageType'', enc_int msgGetJobStatus),
     (''requestId'', enc_uint64 rid),
     (''username'', JStr user),
     (''requestUsername'', JStr user),
     (''jobId'', JStr ''*''),
     (''encodedJobId'', JStr ''''),
     (''cancel'', JBool True)]"

definition controlJobMsg :: "u64 \<Rightarrow> string \<Rightarrow> string \<Rightarrow> int \<Rightarrow> members" where
  "controlJobMsg rid jobID user op = [
     (''messageType'', enc_int msgControlJob),
     (''requestId'', enc_uint64 rid),
     (''username'', JStr user),
     (''requestUsername'', JStr user),
     (''jobId'', JStr jobID),
     (''encodedJobId'', JStr ''''),
     (''operation'', enc_int op)]"

definition submitJobMsg :: "(instant \<Rightarrow> string) \<Rightarrow> u64 \<Rightarrow> string \<Rightarrow> Job \<Rightarrow> members" where
  "submitJobMsg fmt rid user job = [
     (''messageType'', enc_int msgSubmitJob),
     (''requestId'', enc_uint64 rid),
     (''username'', JStr user),
     (''requestUsername'', JStr user),
     (''job'', enc_Job fmt job)]"

definition outputStreamReq :: "u64 \<Rightarrow> string \<Rightarrow> string \<Rightarrow> int \<Rightarrow> members" where
  "outputStreamReq rid jobID user outputType = [
     (''messageType'', enc_int msgGetJobOutput),
     (''requestId'', enc_uint64 rid),
     (''username'', JStr user),
     (''requestUsername'', JStr user),
     (''jobId'', JStr jobID),
     (''encodedJobId'', JStr ''''),
     (''outputType'', enc_int outputType),
     (''cancel'', JBool False)]"

definition cancelOutputStreamReq :: "u64 \<Rightarrow> string \<Rightarrow> string \<Rightarrow> members" where
  "cancelOutputStreamReq rid jobID user = [
     (''messageType'', enc_int msgGetJobOutput),
     (''requestId'', enc_uint64 rid),
     (''username'', JStr user),
     (''requestUsername'', JStr user),
     (''jobId'', JStr jobID),
     (''encodedJobId'', JStr ''''),
     (''cancel'', JBool True)]"

definition resourceStreamReq :: "u64 \<Rightarrow> string \<Rightarrow> string \<Rightarrow> members" where
  "resourceStreamReq rid jobID user = [
     (''messageType'', enc_int msgGetJobResourceUtil),
     (''requestId'', enc_uint64 rid),
     (''username'', JStr user),
     (''requestUsername'', JStr user),
     (''jobId'', JStr jobID),
     (''encodedJobId'', JStr ''''),
     (''cancel'', JBool False)]"

definition cancelResourceStreamReq :: "u64 \<Rightarrow> string \<Rightarrow> string \<Rightarrow> members" where
  "cancelResourceStreamReq rid jobID user = [
     (''messageType'', enc_int msgGetJobResourceUtil),
     (''requestId'', enc_uint64 rid),
     (''username'', JStr user),
     (''requestUsername'', JStr user),
     (''jobId'', JStr jobID),
     (''encodedJobId'', JStr ''''),
     (''cancel'', JBool True)]"

definition networkReqMsg :: "u64 \<Rightarrow> string \<Rightarrow> string \<Rightarrow> members" where
  "networkReqMsg rid jobID user = [
     (''messageType'', enc_int msgGetJobNetwork),
     (''requestId'', enc_uint64 rid),
     (''username'', JStr user),
     (''requestUsername'', JStr user),
     (''jobId'', JStr jobID),
     (''encodedJobId'', JStr '''')]"


section \<open>Jobs\<close>

abbreviation newline :: string where
  "newline \<equiv> [CHR 0x0A]"

definition quickJob1 :: "string \<Rightarrow> Job" where
  "quickJob1 user = zero_Job\<lparr>job_User := user, job_Exe := ''/bin/sh'',
     job_Env := [\<lparr>env_Name = ''ENV_VAR'', env_Value = ''This is an environment variable!''\<rparr>],
     job_Stdin := ''#!/bin/sh'' @ newline @ ''echo $ENV_VAR'', job_Name := ''Quick Job 1'', job_Tags := [''filter job'']\<rparr>"

definition quickJob2 :: "string \<Rightarrow> Job" where
  "quickJob2 user = zero_Job\<lparr>job_User := user, job_Command := ''echo'', job_Args := [''This is a shell command.''],
     job_Env := [\<lparr>env_Name = ''ENV_VAR'', env_Value = ''This is not used!''\<rparr>],
     job_Name := ''Quick Job 2'', job_Tags := [''other tag'']\<rparr>"

definition longJob :: "string \<Rightarrow> Job" where
  "longJob user = zero_Job\<lparr>job_User := user, job_Exe := ''/bin/bash'',
     job_Stdin := ''#!/bin/bash'' @ newline @ ''set -e'' @ newline @
       ''for I in 1 2 3 4 5 6 7 8 9 10 11 12 13 14 15 16 17 18 19 20 21 22 23 24; do'' @ newline @
       ''  echo '' @ [CHR 0x22] @ ''$I...'' @ [CHR 0x22] @ newline @ ''  sleep $I'' @ newline @ ''done'',
     job_Name := ''Slow job'', job_Tags := [''filter job'']\<rparr>"

definition stderrJob :: "string \<Rightarrow> Job" where
  "stderrJob user = zero_Job\<lparr>job_User := user, job_Command := ''grep'', job_Name := ''Stderr job'',
     job_Tags := [''other'', ''tags'', ''filter'', ''job'']\<rparr>"

definition slowSignalJob :: "string \<Rightarrow> Job" where
  "slowSignalJob user = zero_Job\<lparr>job_User := user, job_Command := ''sleep 20 && echo Done'',
     job_Name := ''Job for signaling'', job_Tags := [''signal'']\<rparr>"

lemmas smoke_jobs = quickJob1_def quickJob2_def longJob_def stderrJob_def slowSignalJob_def

lemma smoke_jobs_wire_ok:
  "job_wire_ok (quickJob1 user)" "job_wire_ok (quickJob2 user)" "job_wire_ok (longJob user)" "job_wire_ok (stderrJob user)"
  "job_wire_ok (slowSignalJob user)"
  by (simp_all add: smoke_jobs job_wire_ok_def zero_Job_def)


section \<open>What the plugin reads\<close>

text \<open>What \<^verbatim>\<open>RequestFromJSON\<close> makes of a message whose text is read as the document it was written from.\<close>

definition received :: "json_env \<Rightarrow> members \<Rightarrow> rpc_error + Request" where
  "received env m = RequestFromJSON (env\<lparr>je_parse := (\<lambda>_. Some (enc_map m))\<rparr>) ''''"

definition user_request :: "int \<Rightarrow> u64 \<Rightarrow> string \<Rightarrow> BaseUserRequest" where
  "user_request t rid user = \<lparr>br_MessageType = Some t, br_RequestID = Some rid, bu_Username = user, bu_ReqUsername = user\<rparr>"

definition job_request :: "int \<Rightarrow> u64 \<Rightarrow> string \<Rightarrow> string \<Rightarrow> BaseJobRequest" where
  "job_request t rid user jid = \<lparr>br_MessageType = Some t, br_RequestID = Some rid, bu_Username = user, bu_ReqUsername = user,
     bj_JobID = JobID jid, bj_EncodedJobID = ''''\<rparr>"

lemma received_by:
  assumes "requestForType (request_type_of r) = Inr r0" "request_type_of r \<noteq> requestHeartbeat"
    and "unmarshal_request (env\<lparr>je_parse := (\<lambda>_. Some (enc_map m))\<rparr>) (enc_map m) r0 = Inr r"
    and "req_base r = \<lparr>br_MessageType = Some (request_type_of r), br_RequestID = Some rid\<rparr>"
  shows "received env m = Inr r"
proof -
  have "dec_struct base_fields (enc_map m) zero_BaseRequest = Inr (req_base r)"
    using unmarshal_request_base [OF assms(3)] requestForType_base [OF assms(1)] by simp
  then show ?thesis using assms by (simp add: received_def RequestFromJSON_def BaseRequest_Valid_def)
qed

lemma dec_ptr_enc [simp]:
  "in_int64 i \<Longrightarrow> dec_ptr dec_int 0 (enc_int i) old = Inr (Some i)"
  "dec_ptr dec_uint64 0 (enc_uint64 w) was = Inr (Some w)"
  by (simp_all add: dec_ptr_def enc_int_def enc_uint64_def Atoi_int_dec parse_uint64_nat_dec)

lemma small_int [simp]: "in_int64 (numeral n) \<longleftrightarrow> (numeral n :: int) < 2 ^ 63" "in_int64 0" "in_int64 1"
  by (simp_all add: in_int64_def)

lemmas request_fields = base_fields_def user_ext_def job_ext_def state_ext_def stream_ext_def control_ext_def output_ext_def
  submit_ext_def bootstrap_ext_def

lemmas zero_requests = zero_BaseRequest_def zero_BaseUserRequest_def zero_BaseJobRequest_def zero_BaseJobStreamRequest_def
  zero_JobFilter_def BaseRequest.defs BaseUserRequest.defs BaseJobRequest.defs BaseJobStreamRequest.defs

text \<open>One rule per kind of request: it is enough that the members yield the request.\<close>

lemma received_rules:
  "yields (base_fields @ bootstrap_ext) (sort_key fst m @ []) (BaseRequest.extend zero_BaseRequest \<lparr>bq_Version = zero_Version\<rparr>) r1 \<Longrightarrow>
     BaseRequest.truncate r1 = \<lparr>br_MessageType = Some requestBootstrap, br_RequestID = Some rid\<rparr> \<Longrightarrow> received env m = Inr (RBootstrap r1)"
  "yields (base_fields @ submit_ext (env\<lparr>je_parse := (\<lambda>_. Some (enc_map m))\<rparr>)) (sort_key fst m @ [])
     (BaseUserRequest.extend zero_BaseUserRequest \<lparr>sj_Job = None\<rparr>) r2 \<Longrightarrow>
     BaseRequest.truncate r2 = \<lparr>br_MessageType = Some requestSubmitJob, br_RequestID = Some rid\<rparr> \<Longrightarrow> received env m = Inr (RSubmitJob r2)"
  "yields (base_fields @ state_ext (env\<lparr>je_parse := (\<lambda>_. Some (enc_map m))\<rparr>)) (sort_key fst m @ [])
     (BaseJobRequest.extend zero_BaseJobRequest \<lparr>js_Filter = zero_JobFilter\<rparr>) r3 \<Longrightarrow>
     BaseRequest.truncate r3 = \<lparr>br_MessageType = Some requestJob, br_RequestID = Some rid\<rparr> \<Longrightarrow> received env m = Inr (RJobState r3)"
  "yields (base_fields @ stream_ext) (sort_key fst m @ []) zero_BaseJobStreamRequest r4 \<Longrightarrow>
     BaseRequest.truncate r4 = \<lparr>br_MessageType = Some requestJobStatus, br_RequestID = Some rid\<rparr> \<Longrightarrow> received env m = Inr (RJobStatusStream r4)"
  "yields (base_fields @ control_ext) (sort_key fst m @ [])
     (BaseJobRequest.extend zero_BaseJobRequest \<lparr>cj_Operation = 0, cj_StatusMessage = '''', cj_StatusCode = ''''\<rparr>) r5 \<Longrightarrow>
     BaseRequest.truncate r5 = \<lparr>br_MessageType = Some requestControlJob, br_RequestID = Some rid\<rparr> \<Longrightarrow> received env m = Inr (RControlJob r5)"
  "yields (base_fields @ output_ext) (sort_key fst m @ []) (BaseJobStreamRequest.extend zero_BaseJobStreamRequest \<lparr>jo_Output = 0\<rparr>) r6 \<Longrightarrow>
     BaseRequest.truncate r6 = \<lparr>br_MessageType = Some requestJobOutput, br_RequestID = Some rid\<rparr> \<Longrightarrow> received env m = Inr (RJobOutput r6)"
  "yields (base_fields @ stream_ext) (sort_key fst m @ []) zero_BaseJobStreamRequest r7 \<Longrightarrow>
     BaseRequest.truncate r7 = \<lparr>br_MessageType = Some requestJobResourceUtil, br_RequestID = Some rid\<rparr> \<Longrightarrow> received env m = Inr (RJobResourceUtil r7)"
  "yields (base_fields @ job_ext) (sort_key fst m @ []) zero_BaseJobRequest r8 \<Longrightarrow>
     BaseRequest.truncate r8 = \<lparr>br_MessageType = Some requestJobNetwork, br_RequestID = Some rid\<rparr> \<Longrightarrow> received env m = Inr (RJobNetwork r8)"
  "yields (base_fields @ user_ext) (sort_key fst m @ []) zero_BaseUserRequest r9 \<Longrightarrow>
     BaseRequest.truncate r9 = \<lparr>br_MessageType = Some requestClusterInfo, br_RequestID = Some rid\<rparr> \<Longrightarrow> received env m = Inr (RClusterInfo r9)"
  by (rule received_by, simp add: requestForType_def wire_defs, simp add: wire_defs,
      simp add: enc_map_def yields_def, simp)+

lemmas request_simps = request_fields zero_requests dec_JobID_def user_request_def job_request_def wire_defs yields_def

definition stream_request :: "int \<Rightarrow> u64 \<Rightarrow> string \<Rightarrow> string \<Rightarrow> bool \<Rightarrow> BaseJobStreamRequest" where
  "stream_request t rid user jid c = BaseJobRequest.extend (job_request t rid user jid) \<lparr>bs_Cancel = c\<rparr>"

definition state_request :: "u64 \<Rightarrow> string \<Rightarrow> string \<Rightarrow> JobFilter \<Rightarrow> JobStateRequest" where
  "state_request rid user jid flt = BaseJobRequest.extend (job_request requestJob rid user jid) \<lparr>js_Filter = flt\<rparr>"

lemma received_bootstrap:
  "received env bootstrapReq = Inr (RBootstrap \<lparr>br_MessageType = Some requestBootstrap, br_RequestID = Some 0, bq_Version = APIVersion\<rparr>)"
proof (rule received_rules(1) [where rid = 0])
  have v: "dec_struct Version_fields (enc_Version APIVersion) zero_Version = Inr APIVersion"
    by (simp add: enc_Version_def APIVersion_def omit_int_def omit_str_def Version_fields_def zero_Version_def
        dec_key_def match_key_def into_def)
  show "yields (base_fields @ bootstrap_ext) (sort_key fst bootstrapReq @ []) (BaseRequest.extend zero_BaseRequest \<lparr>bq_Version = zero_Version\<rparr>)
      \<lparr>br_MessageType = Some requestBootstrap, br_RequestID = Some 0, bq_Version = APIVersion\<rparr>"
    by (simp add: bootstrapReq_def) ((rule yields_rules dec_bool.simps(1)) | (simp add: request_simps v; fail))+
qed (simp add: BaseRequest.defs)

lemma received_clusterInfo: "received env (clusterInfoReq rid user) = Inr (RClusterInfo (user_request requestClusterInfo rid user))"
  by (rule received_rules)
     (simp add: clusterInfoReq_def, ((rule yields_rules dec_bool.simps(1)) | (simp add: request_simps; fail))+)

lemma received_getJob: "received env (getJobReq rid jid user) = Inr (RJobState (state_request rid user jid zero_JobFilter))"
  by (rule received_rules)
     (simp add: getJobReq_def, ((rule yields_rules dec_bool.simps(1)) | (simp add: request_simps state_request_def; fail))+)

lemma received_allJobs: "received env (allJobsReq rid user) = Inr (RJobState (state_request rid user ''*'' zero_JobFilter))"
  using received_getJob [of env rid "''*''" user] by (simp add: allJobsReq_def getJobReq_def)

lemma received_filteredJobs:
  "received env (filteredJobsReq rid user) =
     Inr (RJobState (state_request rid user ''*'' (zero_JobFilter\<lparr>flt_Tags := [''filter job'']\<rparr>)))"
  by (rule received_rules)
     (simp add: filteredJobsReq_def, ((rule yields_rules dec_bool.simps(1)) | (simp add: request_simps state_request_def; fail))+)

lemma received_statusJobs:
  "received env (statusJobsReq rid user status) =
     Inr (RJobState (state_request rid user ''*'' (zero_JobFilter\<lparr>flt_Statuses := [status]\<rparr>)))"
  by (rule received_rules)
     (simp add: statusJobsReq_def, ((rule yields_rules dec_bool.simps(1)) | (simp add: request_simps state_request_def; fail))+)

lemma received_statusStream:
  "received env (jobStatusStreamReq rid user) = Inr (RJobStatusStream (stream_request requestJobStatus rid user ''*'' False))"
  "received env (cancelJobStatusStreamReq rid user) = Inr (RJobStatusStream (stream_request requestJobStatus rid user ''*'' True))"
  by (rule received_rules, simp add: jobStatusStreamReq_def cancelJobStatusStreamReq_def,
      ((rule yields_rules dec_bool.simps(1)) | (simp add: request_simps stream_request_def; fail))+)+

lemma received_resourceStream:
  "received env (resourceStreamReq rid jid user) = Inr (RJobResourceUtil (stream_request requestJobResourceUtil rid user jid False))"
  "received env (cancelResourceStreamReq rid jid user) = Inr (RJobResourceUtil (stream_request requestJobResourceUtil rid user jid True))"
  by (rule received_rules, simp add: resourceStreamReq_def cancelResourceStreamReq_def,
      ((rule yields_rules dec_bool.simps(1)) | (simp add: request_simps stream_request_def; fail))+)+

lemma received_outputStream:
  "in_int64 ot \<Longrightarrow> received env (outputStreamReq rid jid user ot) =
     Inr (RJobOutput (BaseJobStreamRequest.extend (stream_request requestJobOutput rid user jid False) \<lparr>jo_Output = ot\<rparr>))"
  "received env (cancelOutputStreamReq rid jid user) =
     Inr (RJobOutput (BaseJobStreamRequest.extend (stream_request requestJobOutput rid user jid True) \<lparr>jo_Output = OutputStdout\<rparr>))"
  by (rule received_rules, simp add: outputStreamReq_def cancelOutputStreamReq_def,
      ((rule yields_rules dec_bool.simps(1)) | (simp add: request_simps stream_request_def OutputStdout_def; fail))+)+

lemma received_controlJob:
  "in_int64 op \<Longrightarrow> received env (controlJobMsg rid jid user op) =
     Inr (RControlJob (BaseJobRequest.extend (job_request requestControlJob rid user jid)
       \<lparr>cj_Operation = op, cj_StatusMessage = '''', cj_StatusCode = ''''\<rparr>))"
  by (rule received_rules, simp add: controlJobMsg_def, ((rule yields_rules dec_bool.simps(1)) | (simp add: request_simps; fail))+)

lemma received_network: "received env (networkReqMsg rid jid user) = Inr (RJobNetwork (job_request requestJobNetwork rid user jid))"
  by (rule received_rules, simp add: networkReqMsg_def, ((rule yields_rules dec_bool.simps(1)) | (simp add: request_simps; fail))+)

lemma received_submitJob:
  assumes "job_wire_ok job" "job_LastUpdated job = None" "job_Submitted job = None" "job_Misc job = []"
  shows "received env (submitJobMsg fmt rid user job) =
    Inr (RSubmitJob (BaseUserRequest.extend (user_request requestSubmitJob rid user) \<lparr>sj_Job = Some job\<rparr>))"
proof -
  have "dec_struct (Job_fields env') (enc_Job fmt job) zero_Job = Inr job" for env'
    using dec_enc_Job [OF assms(1), of env' fmt] assms by (simp add: time_text_ok_def)
  then have "dec_ptr (dec_struct (Job_fields env')) zero_Job (enc_Job fmt job) None = Inr (Some job)" for env'
    by (simp add: dec_ptr_def enc_Job_def)
  then show ?thesis
    by - (rule received_rules, simp add: submitJobMsg_def, ((rule yields_rules dec_bool.simps(1)) | (simp add: request_simps; fail))+)
qed

definition control_request :: "u64 \<Rightarrow> string \<Rightarrow> string \<Rightarrow> JobOperation \<Rightarrow> Request" where
  "control_request rid user jid op = RControlJob (BaseJobRequest.extend (job_request requestControlJob rid user jid)
     \<lparr>cj_Operation = op, cj_StatusMessage = '''', cj_StatusCode = ''''\<rparr>)"

definition output_request :: "u64 \<Rightarrow> string \<Rightarrow> string \<Rightarrow> bool \<Rightarrow> JobOutput \<Rightarrow> Request" where
  "output_request rid user jid c ot =
     RJobOutput (BaseJobStreamRequest.extend (stream_request requestJobOutput rid user jid c) \<lparr>jo_Output = ot\<rparr>)"

definition submit_request :: "u64 \<Rightarrow> string \<Rightarrow> Job \<Rightarrow> Request" where
  "submit_request rid user job =
     RSubmitJob (BaseUserRequest.extend (user_request requestSubmitJob rid user) \<lparr>sj_Job = Some job\<rparr>)"

lemma smoke_jobs_fresh:
  "job_LastUpdated (quickJob1 user) = None \<and> job_Submitted (quickJob1 user) = None \<and> job_Misc (quickJob1 user) = []"
  "job_LastUpdated (quickJob2 user) = None \<and> job_Submitted (quickJob2 user) = None \<and> job_Misc (quickJob2 user) = []"
  "job_LastUpdated (longJob user) = None \<and> job_Submitted (longJob user) = None \<and> job_Misc (longJob user) = []"
  "job_LastUpdated (stderrJob user) = None \<and> job_Submitted (stderrJob user) = None \<and> job_Misc (stderrJob user) = []"
  "job_LastUpdated (slowSignalJob user) = None \<and> job_Submitted (slowSignalJob user) = None \<and> job_Misc (slowSignalJob user) = []"
  by (simp_all add: smoke_jobs zero_Job_def)

lemmas received_messages = received_bootstrap received_clusterInfo received_getJob received_allJobs received_filteredJobs
  received_statusJobs received_statusStream received_resourceStream received_outputStream received_controlJob received_network
  received_submitJob smoke_jobs_wire_ok smoke_jobs_fresh

text \<open>
  C39: The plugin understands the smoke test. Every message the smoke test builds is decoded by
  \<^verbatim>\<open>RequestFromJSON\<close> to the request meant: the type, request ID and user, the job or the wildcard, the
  filter, the operation or output type under the SDK's own constants, whether it cancels a
  stream, and for a submission the very job.
\<close>

theorem smoke_requests_decode:
  "received env bootstrapReq = Inr (RBootstrap \<lparr>br_MessageType = Some requestBootstrap, br_RequestID = Some 0, bq_Version = APIVersion\<rparr>) \<and>
   received env (clusterInfoReq rid user) = Inr (RClusterInfo (user_request requestClusterInfo rid user)) \<and>
   received env (allJobsReq rid user) = Inr (RJobState (state_request rid user (id_str JobIDWildcard) zero_JobFilter)) \<and>
   received env (getJobReq rid jid user) = Inr (RJobState (state_request rid user jid zero_JobFilter)) \<and>
   received env (filteredJobsReq rid user) =
     Inr (RJobState (state_request rid user (id_str JobIDWildcard) (zero_JobFilter\<lparr>flt_Tags := [''filter job'']\<rparr>))) \<and>
   received env (statusJobsReq rid user status) =
     Inr (RJobState (state_request rid user (id_str JobIDWildcard) (zero_JobFilter\<lparr>flt_Statuses := [status]\<rparr>))) \<and>
   received env (jobStatusStreamReq rid user) =
     Inr (RJobStatusStream (stream_request requestJobStatus rid user (id_str JobIDWildcard) False)) \<and>
   received env (cancelJobStatusStreamReq rid user) =
     Inr (RJobStatusStream (stream_request requestJobStatus rid user (id_str JobIDWildcard) True)) \<and>
   received env (resourceStreamReq rid jid user) = Inr (RJobResourceUtil (stream_request requestJobResourceUtil rid user jid False)) \<and>
   received env (cancelResourceStreamReq rid jid user) = Inr (RJobResourceUtil (stream_request requestJobResourceUtil rid user jid True)) \<and>
   received env (networkReqMsg rid jid user) = Inr (RJobNetwork (job_request requestJobNetwork rid user jid)) \<and>
   received env (outputStreamReq rid jid user outputStdout) = Inr (output_request rid user jid False OutputStdout) \<and>
   received env (outputStreamReq rid jid user outputStderr) = Inr (output_request rid user jid False OutputStderr) \<and>
   received env (outputStreamReq rid jid user outputBoth) = Inr (output_request rid user jid False OutputBoth) \<and>
   received env (cancelOutputStreamReq rid jid user) = Inr (output_request rid user jid True OutputStdout) \<and>
   received env (controlJobMsg rid jid user opSuspend) = Inr (control_request rid user jid OperationSuspend) \<and>
   received env (controlJobMsg rid jid user opResume) = Inr (control_request rid user jid OperationResume) \<and>
   received env (controlJobMsg rid jid user opStop) = Inr (control_request rid user jid OperationStop) \<and>
   received env (controlJobMsg rid jid user opKill) = Inr (control_request rid user jid OperationKill) \<and>
   received env (controlJobMsg rid jid user opCancel) = Inr (control_request rid user jid OperationCancel) \<and>
   received env (submitJobMsg fmt rid user (quickJob1 user)) = Inr (submit_request rid user (quickJob1 user)) \<and>
   received env (submitJobMsg fmt rid user (quickJob2 user)) = Inr (submit_request rid user (quickJob2 user)) \<and>
   received env (submitJobMsg fmt rid user (longJob user)) = Inr (submit_request rid user (longJob user)) \<and>
   received env (submitJobMsg fmt rid user (stderrJob user)) = Inr (submit_request rid user (stderrJob user)) \<and>
   received env (submitJobMsg fmt rid user (slowSignalJob user)) = Inr (submit_request rid user (slowSignalJob user))"
  by (simp add: received_messages JobIDWildcard_def control_request_def output_request_def submit_request_def api_defs
      opSuspend_def opResume_def opStop_def opKill_def opCancel_def outputStdout_def outputStderr_def outputBoth_def)

end
