(* ===== verification/Smoke_Test.thy ===== *)
theory Smoke_Test
  imports Smoke_Requests Runtime_Options
begin

text \<open>
  The smoke test (\<^verbatim>\<open>src/cmd/smoketest\<close>, \<^verbatim>\<open>smoketest.go\<close> and \<^verbatim>\<open>main.go\<close>): its state, what a response of
  the plugin does to it, waiting for responses, and the actions of its menu.

  Two goroutines share the state: the one that runs the menu and the one that reads responses.
  The mutex makes the handling of a response atomic, and it happens only where the menu's
  goroutine does not hold the mutex: while it waits on the condition variable, sleeps, or reads
  a line. What happens there is a parameter: a list of batches, one for each such place, of
  the responses handled before the goroutine goes on. Waiting on the condition variable ends
  with any broadcast, so a batch may be empty (the timer, or a late broadcast); when the
  list is used up, only timers fire.
\<close>

section \<open>State\<close>

record smokeTest =
  st_pluginPath :: string
  st_username :: string
  st_requestID :: u64
  st_exited :: bool
  st_responseCount :: "u64 \<rightharpoonup> u64"
  st_submittedJobIDs :: "string list"
  st_lastRequestType :: int
  st_outputStreamFinished :: bool
  st_resourceStreamFinished :: bool

definition newSmokeTest :: "string \<Rightarrow> string \<Rightarrow> smokeTest" where
  "newSmokeTest pluginPath username = \<lparr>st_pluginPath = pluginPath, st_username = username, st_requestID = 0,
     st_exited = False, st_responseCount = Map.empty, st_submittedJobIDs = [], st_lastRequestType = 0,
     st_outputStreamFinished = False, st_resourceStreamFinished = False\<rparr>"

text \<open>Reading a missing key of a map gives zero.\<close>

definition responses :: "smokeTest \<Rightarrow> u64 \<Rightarrow> u64" where
  "responses st rid = (case st_responseCount st rid of None \<Rightarrow> 0 | Some n \<Rightarrow> n)"

definition reset_count :: "u64 \<Rightarrow> smokeTest \<Rightarrow> smokeTest" where
  "reset_count rid st = st\<lparr>st_responseCount := (st_responseCount st)(rid \<mapsto> 0)\<rparr>"

definition nextID :: "smokeTest \<Rightarrow> u64 \<times> smokeTest" where
  "nextID st = (let n = st_requestID st + 1 in (n, st\<lparr>st_requestID := n\<rparr>))"


section \<open>Reading responses\<close>

text \<open>
  A number in a response is read as a \<^verbatim>\<open>float64\<close> and converted; both conversions, from the literal,
  are parameters.
\<close>

record float_env =
  fe_uint64 :: "string \<Rightarrow> u64"
  fe_int :: "string \<Rightarrow> int"

datatype reader_event = Response "json option" | ReaderEnds

text \<open>The string IDs of the jobs in a response to a submission.\<close>

definition job_id_of :: "json \<Rightarrow> string list" where
  "job_id_of j = (case j of JObj kvs \<Rightarrow> (case map_of (rev kvs) ''id'' of Some (JStr i) \<Rightarrow> [i] | _ \<Rightarrow> []) | _ \<Rightarrow> [])"

definition response_jobs :: "(string \<rightharpoonup> json) \<Rightarrow> string list" where
  "response_jobs obj = (case obj ''jobs'' of Some (JArr js) \<Rightarrow> concat (map job_id_of js) | _ \<Rightarrow> [])"

text \<open>Whether a stream is finished after a response: an error ends it, otherwise \<^verbatim>\<open>complete\<close> tells.\<close>

definition stream_flag :: "float_env \<Rightarrow> (string \<rightharpoonup> json) \<Rightarrow> bool \<Rightarrow> bool" where
  "stream_flag F obj old =
     (if (case obj ''messageType'' of Some (JNum l) \<Rightarrow> fe_int F l = -1 | _ \<Rightarrow> False) then True
      else (case obj ''complete'' of Some (JBool b) \<Rightarrow> b | _ \<Rightarrow> old))"

definition response_id :: "float_env \<Rightarrow> (string \<rightharpoonup> json) \<Rightarrow> u64" where
  "response_id F obj = (case obj ''requestId'' of Some (JNum l) \<Rightarrow> fe_uint64 F l | _ \<Rightarrow> 0)"

definition count_response :: "float_env \<Rightarrow> (string \<rightharpoonup> json) \<Rightarrow> smokeTest \<Rightarrow> smokeTest" where
  "count_response F obj st =
     (let rid = response_id F obj;
          st1 = st\<lparr>st_responseCount := (st_responseCount st)(rid \<mapsto> responses st rid + 1)\<rparr> in
      if st_lastRequestType st = msgSubmitJob then
        st1\<lparr>st_submittedJobIDs := st_submittedJobIDs st @ response_jobs obj\<rparr>
      else if st_lastRequestType st = msgGetJobOutput then
        st1\<lparr>st_outputStreamFinished := stream_flag F obj (st_outputStreamFinished st)\<rparr>
      else if st_lastRequestType st = msgGetJobResourceUtil then
        st1\<lparr>st_resourceStreamFinished := stream_flag F obj (st_resourceStreamFinished st)\<rparr>
      else st1)"

text \<open>
  One turn of \<^verbatim>\<open>readResponses\<close>: a text that is not a JSON object is reported and skipped (\<^verbatim>\<open>null\<close> is read
  as an empty object); the end of the input marks the plugin as exited.
\<close>

definition read_event :: "float_env \<Rightarrow> reader_event \<Rightarrow> smokeTest \<Rightarrow> smokeTest" where
  "read_event F e st = (case e of
     Response doc \<Rightarrow> (case doc of
         Some (JObj kvs) \<Rightarrow> count_response F (map_of (rev kvs)) st
       | Some JNull \<Rightarrow> count_response F Map.empty st
       | _ \<Rightarrow> st)
   | ReaderEnds \<Rightarrow> st\<lparr>st_exited := True\<rparr>)"

definition read_batch :: "float_env \<Rightarrow> reader_event list \<Rightarrow> smokeTest \<Rightarrow> smokeTest" where
  "read_batch F es st = fold (read_event F) es st"


section \<open>Waiting\<close>

text \<open>\<^verbatim>\<open>waitForResponseLocked\<close>, its loop over the batches.\<close>

fun wait_loop :: "float_env \<Rightarrow> u64 \<Rightarrow> u64 \<Rightarrow> u64 \<Rightarrow> smokeTest \<Rightarrow> reader_event list list \<Rightarrow> smokeTest \<times> reader_event list list \<times> bool" where
  "wait_loop F rid expected lastCount st [] =
     (if lastCount < expected \<and> \<not> st_exited st then (st, [], False) else (st, [], expected \<le> lastCount))"
| "wait_loop F rid expected lastCount st (b # bs) =
     (if lastCount < expected \<and> \<not> st_exited st then
        (let st' = read_batch F b st; currentCount = responses st' rid in
         if currentCount \<le> lastCount then (st', bs, False)
         else wait_loop F rid expected currentCount st' bs)
      else (st, b # bs, expected \<le> lastCount))"

record smoke_run =
  rn_st :: smokeTest
  rn_wakes :: "reader_event list list"
  rn_errs :: "string option list"
  rn_sent :: "members list"
  rn_closed :: bool

definition waitForResponseLocked :: "float_env \<Rightarrow> u64 \<Rightarrow> u64 \<Rightarrow> smoke_run \<Rightarrow> smoke_run \<times> bool" where
  "waitForResponseLocked F rid expected w =
     (case wait_loop F rid expected (responses (rn_st w) rid) (rn_st w) (rn_wakes w) of
        (st, bs, ok) \<Rightarrow> (w\<lparr>rn_st := st, rn_wakes := bs\<rparr>, ok))"

text \<open>A stretch without the mutex: the next batch is handled.\<close>

definition unlocked :: "float_env \<Rightarrow> smoke_run \<Rightarrow> smoke_run" where
  "unlocked F w = (case rn_wakes w of [] \<Rightarrow> w
     | b # bs \<Rightarrow> w\<lparr>rn_st := read_batch F b (rn_st w), rn_wakes := bs\<rparr>)"

definition waitForResponse :: "float_env \<Rightarrow> u64 \<Rightarrow> u64 \<Rightarrow> smoke_run \<Rightarrow> smoke_run \<times> bool" where
  "waitForResponse F rid expected w = waitForResponseLocked F rid expected (unlocked F w)"

text \<open>Sending: the error of the encoder, if any, is the next of a list.\<close>

definition smoke_Encode :: "members \<Rightarrow> smoke_run \<Rightarrow> smoke_run \<times> string option" where
  "smoke_Encode m w = (w\<lparr>rn_sent := rn_sent w @ [m], rn_errs := tl (rn_errs w)\<rparr>,
     case rn_errs w of [] \<Rightarrow> None | e # _ \<Rightarrow> e)"

abbreviation on_st :: "(smokeTest \<Rightarrow> smokeTest) \<Rightarrow> smoke_run \<Rightarrow> smoke_run" where
  "on_st f w \<equiv> w\<lparr>rn_st := f (rn_st w)\<rparr>"

text \<open>\<^verbatim>\<open>handleError\<close> reports the error and answers false.\<close>

definition handleError :: "smoke_run \<Rightarrow> smoke_run \<times> bool" where
  "handleError w = (w, False)"


section \<open>Requests\<close>

text \<open>
  A request ends with the answer whether to go on; it panics, or it spins: a wait that succeeds
  without having waited leaves everything as it is, so the loop around it never ends.
\<close>

datatype smoke_stop = Panicked go_panic | Spins

type_synonym smoke_op = "smoke_run \<Rightarrow> smoke_stop + (smoke_run \<times> bool)"

definition last_job :: "smoke_run \<Rightarrow> smoke_stop + string" where
  "last_job w = (if st_submittedJobIDs (rn_st w) = [] then Inl (Panicked IndexOutOfRange)
     else Inr (last (st_submittedJobIDs (rn_st w))))"

definition new_request :: "int \<Rightarrow> smoke_run \<Rightarrow> u64 \<times> smoke_run" where
  "new_request t w = (case nextID (rn_st w) of (rid, st) \<Rightarrow>
     (rid, w\<lparr>rn_st := (reset_count rid st)\<lparr>st_lastRequestType := t\<rparr>\<rparr>))"

text \<open>Encode a message; on success wait for its first response.\<close>

definition send_and_wait :: "float_env \<Rightarrow> members \<Rightarrow> u64 \<Rightarrow> smoke_run \<Rightarrow> smoke_run \<times> bool" where
  "send_and_wait F m rid w = (case smoke_Encode m w of (w', err) \<Rightarrow>
     if err \<noteq> None then handleError w' else waitForResponseLocked F rid 1 w')"

definition actionClusterInfo :: int where "actionClusterInfo = 0"
definition actionGetAllJobs :: int where "actionGetAllJobs = 1"
definition actionGetFilteredJobs :: int where "actionGetFilteredJobs = 2"
definition actionGetRunningJobs :: int where "actionGetRunningJobs = 3"
definition actionGetFinishedJobs :: int where "actionGetFinishedJobs = 4"
definition actionGetJobStatuses :: int where "actionGetJobStatuses = 5"
definition actionSubmitJob1 :: int where "actionSubmitJob1 = 6"
definition actionSubmitJob2 :: int where "actionSubmitJob2 = 7"
definition actionSubmitStderrJob :: int where "actionSubmitStderrJob = 8"
definition actionSubmitLongJob :: int where "actionSubmitLongJob = 9"
definition actionStreamOutputBoth :: int where "actionStreamOutputBoth = 10"
definition actionStreamOutputStdout :: int where "actionStreamOutputStdout = 11"
definition actionStreamOutputStderr :: int where "actionStreamOutputStderr = 12"
definition actionStreamResource :: int where "actionStreamResource = 13"
definition actionGetJobNetwork :: int where "actionGetJobNetwork = 14"
definition actionCancelJob :: int where "actionCancelJob = 15"
definition actionKillJob :: int where "actionKillJob = 16"
definition actionStopJob :: int where "actionStopJob = 17"
definition actionSuspendResumeJob :: int where "actionSuspendResumeJob = 18"
definition actionExit :: int where "actionExit = 19"

definition menu_length :: int where "menu_length = 20"

text \<open>The message of a simple request with its type; none for other actions.\<close>

definition simple_message :: "(instant \<Rightarrow> string) \<Rightarrow> int \<Rightarrow> string \<Rightarrow> u64 \<Rightarrow> (int \<times> members) option" where
  "simple_message fmt action user rid =
     (if action = actionClusterInfo then Some (msgGetClusterInfo, clusterInfoReq rid user)
      else if action = actionGetAllJobs then Some (msgGetJob, allJobsReq rid user)
      else if action = actionGetFilteredJobs then Some (msgGetJob, filteredJobsReq rid user)
      else if action = actionGetRunningJobs then Some (msgGetJob, statusJobsReq rid user ''Running'')
      else if action = actionGetFinishedJobs then Some (msgGetJob, statusJobsReq rid user ''Finished'')
      else if action = actionSubmitJob1 then Some (msgSubmitJob, submitJobMsg fmt rid user (quickJob1 user))
      else if action = actionSubmitJob2 then Some (msgSubmitJob, submitJobMsg fmt rid user (quickJob2 user))
      else if action = actionSubmitStderrJob then Some (msgSubmitJob, submitJobMsg fmt rid user (stderrJob user))
      else if action = actionSubmitLongJob then Some (msgSubmitJob, submitJobMsg fmt rid user (longJob user))
      else None)"

definition sendSimpleRequest :: "float_env \<Rightarrow> (instant \<Rightarrow> string) \<Rightarrow> int \<Rightarrow> smoke_op" where
  "sendSimpleRequest F fmt action w =
     (case nextID (rn_st w) of (rid, st) \<Rightarrow>
      let w1 = w\<lparr>rn_st := st\<rparr>; user = st_username st;
          send = (\<lambda>t m. Inr (send_and_wait F m rid (on_st (\<lambda>st. reset_count rid (st\<lparr>st_lastRequestType := t\<rparr>)) w1))) in
      if action = actionGetJobNetwork then
        (if st_submittedJobIDs st = [] then Inr (w1, True)
         else andThen (last_job w1) (\<lambda>jobID. send msgGetJobNetwork (networkReqMsg rid jobID user)))
      else (case simple_message fmt action user rid of
          None \<Rightarrow> Inr (w1, True)
        | Some (t, m) \<Rightarrow> send t m))"

definition sendJobStatusStreamRequest :: "float_env \<Rightarrow> smoke_op" where
  "sendJobStatusStreamRequest F w =
     (case nextID (rn_st w) of (rid, st) \<Rightarrow>
      let w1 = w\<lparr>rn_st := (reset_count 0 st)\<lparr>st_lastRequestType := msgGetJobStatus\<rparr>\<rparr>; user = st_username st;
          expected = (if length (st_submittedJobIDs st) > 0 then of_nat (length (st_submittedJobIDs st)) else 1) in
      case smoke_Encode (jobStatusStreamReq rid user) w1 of (w2, err) \<Rightarrow>
        if err \<noteq> None then Inr (handleError w2)
        else (case waitForResponse F 0 expected w2 of (w3, _) \<Rightarrow>
          (case smoke_Encode (cancelJobStatusStreamReq rid user) w3 of (w4, err) \<Rightarrow>
             if err \<noteq> None then Inr (handleError w4) else Inr (unlocked F w4, True))))"

lemma wait_loop_wakes: "wait_loop F rid n c st bs = (st', bs', ok) \<Longrightarrow> suffix bs' bs"
  by (induction F rid n c st bs rule: wait_loop.induct)
     (auto simp: Let_def suffix_Cons split: if_splits)

text \<open>
  The loop of a stream request: wait for one more response until the stream is finished or a wait
  fails. It answers whether a wait failed.
\<close>

function stream_loop :: "float_env \<Rightarrow> (smokeTest \<Rightarrow> bool) \<Rightarrow> u64 \<Rightarrow> smoke_op" where
  "stream_loop F fin rid w =
     (if fin (rn_st w) then Inr (w, False)
      else (case waitForResponseLocked F rid (responses (rn_st w) rid + 1) w of (w', ok) \<Rightarrow>
        if \<not> ok then Inr (w', True)
        else if rn_wakes w' = rn_wakes w then Inl Spins
        else stream_loop F fin rid w'))"
  by auto
termination
  by (relation "measure (\<lambda>(F, fin, rid, w). length (rn_wakes w))")
     (auto simp: waitForResponseLocked_def suffix_def split: prod.splits dest!: wait_loop_wakes)

declare stream_loop.simps [simp del]

definition sendJobOutputStreamRequest :: "float_env \<Rightarrow> int \<Rightarrow> smoke_op" where
  "sendJobOutputStreamRequest F outputType w =
     (if st_submittedJobIDs (rn_st w) = [] then Inr (w, True)
      else andThen (last_job w) (\<lambda>jobID.
        case new_request msgGetJobOutput w of (rid, w1) \<Rightarrow>
        let user = st_username (rn_st w) in
        (case smoke_Encode (outputStreamReq rid jobID user outputType) (on_st (st_outputStreamFinished_update (\<lambda>_. False)) w1) of (w2, err) \<Rightarrow>
           if err \<noteq> None then Inr (handleError w2)
           else andThen (stream_loop F st_outputStreamFinished rid w2) (\<lambda>(w3, timedOut).
             if timedOut \<and> \<not> st_outputStreamFinished (rn_st w3) then
               (case smoke_Encode (cancelOutputStreamReq rid jobID user) w3 of (w4, err) \<Rightarrow>
                  if err \<noteq> None then Inr (handleError w4) else Inr (w4, True))
             else Inr (w3, True)))))"

text \<open>The responses of a resource stream carry the request ID 0, so these are counted.\<close>

definition sendJobResourceStreamRequest :: "float_env \<Rightarrow> smoke_op" where
  "sendJobResourceStreamRequest F w =
     (if st_submittedJobIDs (rn_st w) = [] then Inr (w, True)
      else andThen (last_job w) (\<lambda>jobID.
        case nextID (rn_st w) of (rid, st) \<Rightarrow>
        let user = st_username st;
            w1 = w\<lparr>rn_st := (reset_count 0 st)\<lparr>st_resourceStreamFinished := False, st_lastRequestType := msgGetJobResourceUtil\<rparr>\<rparr> in
        (case smoke_Encode (resourceStreamReq rid jobID user) w1 of (w2, err) \<Rightarrow>
           if err \<noteq> None then Inr (handleError w2)
           else andThen (stream_loop F st_resourceStreamFinished 0 w2) (\<lambda>(w3, timedOut).
             if timedOut \<and> \<not> st_resourceStreamFinished (rn_st w3) then
               (case smoke_Encode (cancelResourceStreamReq rid jobID user) w3 of (w4, err) \<Rightarrow>
                  if err \<noteq> None then Inr (handleError w4) else Inr (w4, True))
             else Inr (w3, True)))))"

definition controlLastJobAndPrintStatus :: "float_env \<Rightarrow> int \<Rightarrow> smoke_op" where
  "controlLastJobAndPrintStatus F op w0 =
     (let w = (if op \<noteq> opCancel then unlocked F w0 else w0); user = st_username (rn_st w) in
      andThen (last_job w) (\<lambda>jobID.
        case new_request msgControlJob w of (controlID, w1) \<Rightarrow>
        (case send_and_wait F (controlJobMsg controlID jobID user op) controlID w1 of (w2, ok) \<Rightarrow>
           if \<not> ok then Inr (w2, False)
           else (case new_request msgGetJob w2 of (statusID, w3) \<Rightarrow>
             Inr (send_and_wait F (getJobReq statusID jobID user) statusID w3)))))"

definition sendControlJobRequest :: "float_env \<Rightarrow> (instant \<Rightarrow> string) \<Rightarrow> int \<Rightarrow> smoke_op" where
  "sendControlJobRequest F fmt op w =
     (let currJobCount = length (st_submittedJobIDs (rn_st w)); user = st_username (rn_st w) in
      case new_request msgSubmitJob w of (rid, w1) \<Rightarrow>
      (case send_and_wait F (submitJobMsg fmt rid user (slowSignalJob user)) rid w1 of (w2, ok) \<Rightarrow>
         if \<not> ok \<or> currJobCount \<ge> length (st_submittedJobIDs (rn_st w2)) then Inr (w2, False)
         else controlLastJobAndPrintStatus F op w2))"

definition sendSuspendResumeJobRequest :: "float_env \<Rightarrow> (instant \<Rightarrow> string) \<Rightarrow> smoke_op" where
  "sendSuspendResumeJobRequest F fmt w =
     andThen (sendControlJobRequest F fmt opSuspend w) (\<lambda>(w1, ok).
       if \<not> ok then Inr (w1, False) else controlLastJobAndPrintStatus F opResume (unlocked F w1))"


section \<open>The menu\<close>

text \<open>\<^verbatim>\<open>strings.TrimSpace\<close>: the UTF-8 forms of the white space of Unicode, stripped from both ends.\<close>

definition space_runes :: "string list" where
  "space_runes = [
     [CHR 0x09], [CHR 0x0A], [CHR 0x0B], [CHR 0x0C], [CHR 0x0D], [CHR 0x20], [CHR 0xC2, CHR 0x85],
     [CHR 0xC2, CHR 0xA0], [CHR 0xE1, CHR 0x9A, CHR 0x80], [CHR 0xE2, CHR 0x80, CHR 0x80],
     [CHR 0xE2, CHR 0x80, CHR 0x81], [CHR 0xE2, CHR 0x80, CHR 0x82], [CHR 0xE2, CHR 0x80, CHR 0x83],
     [CHR 0xE2, CHR 0x80, CHR 0x84], [CHR 0xE2, CHR 0x80, CHR 0x85], [CHR 0xE2, CHR 0x80, CHR 0x86],
     [CHR 0xE2, CHR 0x80, CHR 0x87], [CHR 0xE2, CHR 0x80, CHR 0x88], [CHR 0xE2, CHR 0x80, CHR 0x89],
     [CHR 0xE2, CHR 0x80, CHR 0x8A], [CHR 0xE2, CHR 0x80, CHR 0xA8], [CHR 0xE2, CHR 0x80, CHR 0xA9],
     [CHR 0xE2, CHR 0x80, CHR 0xAF], [CHR 0xE2, CHR 0x81, CHR 0x9F], [CHR 0xE3, CHR 0x80, CHR 0x80]]"

function trim_front :: "string list \<Rightarrow> string \<Rightarrow> string" where
  "trim_front rs s = (case List.find (\<lambda>r. r \<noteq> [] \<and> prefix r s) rs of
     None \<Rightarrow> s | Some r \<Rightarrow> trim_front rs (drop (length r) s))"
  by auto
termination
  by (relation "measure (\<lambda>(rs, s). length s)") (auto simp: find_Some_iff prefix_def)

declare trim_front.simps [simp del]

definition TrimSpace :: "string \<Rightarrow> string" where
  "TrimSpace s = rev (trim_front (map rev space_runes) (rev (trim_front space_runes s)))"

definition choice_of :: "string \<Rightarrow> int option" where
  "choice_of line = (case Atoi line of Some n \<Rightarrow> Some n
     | None \<Rightarrow> if line = ''q'' \<or> line = ''Q'' then Some menu_length else None)"

definition run_action :: "float_env \<Rightarrow> (instant \<Rightarrow> string) \<Rightarrow> int \<Rightarrow> smoke_op" where
  "run_action F fmt action =
     (if action = actionGetJobStatuses then sendJobStatusStreamRequest F
      else if action = actionStreamOutputBoth then sendJobOutputStreamRequest F outputBoth
      else if action = actionStreamOutputStdout then sendJobOutputStreamRequest F outputStdout
      else if action = actionStreamOutputStderr then sendJobOutputStreamRequest F outputStderr
      else if action = actionStreamResource then sendJobResourceStreamRequest F
      else if action = actionCancelJob then sendControlJobRequest F fmt opCancel
      else if action = actionKillJob then sendControlJobRequest F fmt opKill
      else if action = actionStopJob then sendControlJobRequest F fmt opStop
      else if action = actionSuspendResumeJob then sendSuspendResumeJobRequest F fmt
      else sendSimpleRequest F fmt action)"

text \<open>\<open>sendRequest\<close> with the line it reads; nothing for an error or the end of the input.\<close>

definition sendRequest :: "float_env \<Rightarrow> (instant \<Rightarrow> string) \<Rightarrow> string option \<Rightarrow> smoke_op" where
  "sendRequest F fmt input w =
     (if st_exited (rn_st w) then Inr (w, False)
      else (let w1 = unlocked F w in
        case input of None \<Rightarrow> Inr (w1, False)
        | Some text \<Rightarrow>
            if st_exited (rn_st w1) then Inr (w1, False)
            else (case choice_of (TrimSpace text) of
                None \<Rightarrow> Inr (w1, True)
              | Some choice \<Rightarrow>
                  if choice < 1 \<or> choice > menu_length then Inr (w1, True)
                  else if choice - 1 = actionExit then Inr (w1\<lparr>rn_closed := True\<rparr>, False)
                  else andThen (run_action F fmt (choice - 1) (unlocked F w1)) (\<lambda>(w2, success).
                    let w3 = unlocked F w2 in Inr (w3, \<not> st_exited (rn_st w3) \<and> success)))))"


section \<open>The program\<close>

text \<open>Starting the plugin: the errors of making the pipes and starting the process, and the user ID.\<close>

record spawn =
  sp_stdin :: "string option"
  sp_stdout :: "string option"
  sp_start :: "string option"
  sp_Getuid :: int

datatype init_error = InitStdin string | InitStdout string | InitStart string | InitSend string | InitBootstrap

definition plugin_args :: "spawn \<Rightarrow> string list" where
  "plugin_args sp = [''--heartbeat-interval-seconds=0'', ''--enable-debug-logging=1'', ''--logging-dir=''] @
     (if sp_Getuid sp \<noteq> 0 then [''--unprivileged=1''] else [])"

definition initialize :: "float_env \<Rightarrow> spawn \<Rightarrow> smoke_run \<Rightarrow> smoke_run \<times> init_error option" where
  "initialize F sp w =
     (case sp_stdin sp of Some e \<Rightarrow> (w, Some (InitStdin e)) | None \<Rightarrow>
     (case sp_stdout sp of Some e \<Rightarrow> (w, Some (InitStdout e)) | None \<Rightarrow>
     (case sp_start sp of Some e \<Rightarrow> (w, Some (InitStart e)) | None \<Rightarrow>
       (let w1 = on_st (\<lambda>st. (reset_count 0 st)\<lparr>st_lastRequestType := msgBootstrap\<rparr>) (unlocked F w) in
        case smoke_Encode bootstrapReq w1 of (w2, err) \<Rightarrow>
          (case err of Some e \<Rightarrow> (w2, Some (InitSend e))
           | None \<Rightarrow> (case waitForResponse F 0 1 w2 of (w3, ok) \<Rightarrow>
               (w3, if ok then None else Some InitBootstrap)))))))"

text \<open>\<^verbatim>\<open>stop\<close>, told whether the reader ends within 30 seconds; it answers whether the plugin is killed.\<close>

definition stop :: "bool \<Rightarrow> smoke_run \<Rightarrow> smoke_run \<times> bool" where
  "stop in_time w = ((on_st (st_exited_update (\<lambda>_. True)) w)\<lparr>rn_closed := True\<rparr>, \<not> in_time)"

fun request_loop :: "float_env \<Rightarrow> (instant \<Rightarrow> string) \<Rightarrow> string list \<Rightarrow> smoke_run \<Rightarrow> smoke_stop + smoke_run" where
  "request_loop F fmt [] w = andThen (sendRequest F fmt None w) (\<lambda>(w', _). Inr w')"
| "request_loop F fmt (l # ls) w = andThen (sendRequest F fmt (Some l) w) (\<lambda>(w', more).
     if more then request_loop F fmt ls w' else Inr w')"

text \<open>\<^verbatim>\<open>main\<close>: the exit code and the run, if the plugin was started at all.\<close>

definition smoke_main ::
  "float_env \<Rightarrow> (instant \<Rightarrow> string) \<Rightarrow> string list \<Rightarrow> (string \<Rightarrow> bool) \<Rightarrow> spawn \<Rightarrow> reader_event list list \<Rightarrow> string option list \<Rightarrow>
   string list \<Rightarrow> bool \<Rightarrow> smoke_stop + (int \<times> smoke_run option)" where
  "smoke_main F fmt args user_exists sp wakes errs lines in_time =
     (if length args \<noteq> 3 then Inr (1, None)
      else if \<not> user_exists (args ! 2) then Inr (1, None)
      else (case initialize F sp \<lparr>rn_st = newSmokeTest (args ! 1) (args ! 2), rn_wakes = wakes, rn_errs = errs,
              rn_sent = [], rn_closed = False\<rparr> of (w, err) \<Rightarrow>
        if err \<noteq> None then Inr (1, Some w)
        else andThen (request_loop F fmt lines w) (\<lambda>w'. Inr (0, Some (fst (stop in_time w'))))))"


section \<open>What a wait does\<close>

text \<open>The state after the first batches.\<close>

definition after :: "float_env \<Rightarrow> smoke_run \<Rightarrow> nat \<Rightarrow> smokeTest" where
  "after F w k = fold (read_batch F) (take k (rn_wakes w)) (rn_st w)"

text \<open>
  The wait goes through \<open>k\<close> batches: before the last of them the count was too small, the plugin had
  not exited, and each batch had brought a response; it ends when the responses are there, when the
  plugin has exited, when a batch brought no response to this request, or when nothing happens any more.
\<close>

definition waits_through :: "float_env \<Rightarrow> u64 \<Rightarrow> u64 \<Rightarrow> smoke_run \<Rightarrow> nat \<Rightarrow> bool" where
  "waits_through F rid n w k \<longleftrightarrow> k \<le> length (rn_wakes w) \<and>
     (\<forall>i<k. responses (after F w i) rid < n \<and> \<not> st_exited (after F w i)) \<and>
     (\<forall>i. Suc i < k \<longrightarrow> responses (after F w i) rid < responses (after F w (Suc i)) rid) \<and>
     (n \<le> responses (after F w k) rid \<or> st_exited (after F w k) \<or> k = length (rn_wakes w) \<or>
      (0 < k \<and> responses (after F w k) rid \<le> responses (after F w (k - 1)) rid))"

lemma after_simps [simp]:
  "after F w 0 = rn_st w"
  "rn_wakes w = b # bs \<Longrightarrow> after F w (Suc k) = after F (w\<lparr>rn_st := read_batch F b (rn_st w), rn_wakes := bs\<rparr>) k"
  by (simp_all add: after_def)

lemma waits_through_Suc:
  assumes "waits_through F rid n w1 k" "rn_wakes w = b # bs" "w1 = w\<lparr>rn_st := read_batch F b (rn_st w), rn_wakes := bs\<rparr>"
    and "responses (rn_st w) rid < n" "\<not> st_exited (rn_st w)" "responses (rn_st w) rid < responses (rn_st w1) rid"
  shows "waits_through F rid n w (Suc k)"
proof -
  have a: "after F w (Suc i) = after F w1 i" for i using assms(2,3) by simp
  have "responses (after F w i) rid < n \<and> \<not> st_exited (after F w i)" if "i < Suc k" for i
    using that assms by (cases i) (auto simp: waits_through_def a simp del: after_simps(2))
  moreover have "responses (after F w i) rid < responses (after F w (Suc i)) rid" if "Suc i < Suc k" for i
    using that assms by (cases i) (auto simp: waits_through_def a simp del: after_simps(2))
  moreover have "n \<le> responses (after F w (Suc k)) rid \<or> st_exited (after F w (Suc k)) \<or> Suc k = length (rn_wakes w) \<or>
      (0 < Suc k \<and> responses (after F w (Suc k)) rid \<le> responses (after F w (Suc k - 1)) rid)"
    using assms by (cases k) (auto simp: waits_through_def a simp del: after_simps(2))
  ultimately show ?thesis using assms(1-3) by (simp add: waits_through_def)
qed

lemma waits_through_exists:
  "\<exists>k. waits_through F rid n w k \<and> waitForResponseLocked F rid n w =
     (w\<lparr>rn_st := after F w k, rn_wakes := drop k (rn_wakes w)\<rparr>, n \<le> responses (after F w k) rid)"
proof (induction "rn_wakes w" arbitrary: w)
  case Nil
  then show ?case by (intro exI [of _ 0]) (auto simp: waits_through_def waitForResponseLocked_def)
next
  case (Cons b bs)
  note bs = Cons.hyps(2) [symmetric]
  let ?w = "w\<lparr>rn_st := read_batch F b (rn_st w), rn_wakes := bs\<rparr>"
  let ?c = "responses (rn_st w) rid"
  show ?case
  proof (cases "?c < n \<and> \<not> st_exited (rn_st w)")
    case False
    then show ?thesis by (intro exI [of _ 0]) (auto simp: waits_through_def waitForResponseLocked_def bs)
  next
    case go: True
    show ?thesis
    proof (cases "responses (rn_st ?w) rid \<le> ?c")
      case True
      then show ?thesis using go
        by (intro exI [of _ 1]) (auto simp: waits_through_def waitForResponseLocked_def bs Let_def)
    next
      case False
      from Cons.hyps(1) [of ?w] obtain k where k: "waits_through F rid n ?w k" "waitForResponseLocked F rid n ?w =
          (?w\<lparr>rn_st := after F ?w k, rn_wakes := drop k bs\<rparr>, n \<le> responses (after F ?w k) rid)" by auto
      have "waits_through F rid n w (Suc k)"
        by (rule waits_through_Suc [OF k(1) bs refl]) (use go False in auto)
      moreover have "waitForResponseLocked F rid n w =
          (w\<lparr>rn_st := after F w (Suc k), rn_wakes := drop (Suc k) (rn_wakes w)\<rparr>, n \<le> responses (after F w (Suc k)) rid)"
        using k(2) go False by (auto simp: waitForResponseLocked_def bs Let_def split: prod.splits)
      ultimately show ?thesis by blast
    qed
  qed
qed

lemma waits_through_bound:
  assumes "waits_through F rid n w k"
  shows "k \<le> unat n"
proof (cases k)
  case (Suc k')
  have "i \<le> unat (responses (after F w i) rid)" if "i \<le> k'" for i
    using that
  proof (induction i)
    case (Suc i)
    then have "responses (after F w i) rid < responses (after F w (Suc i)) rid"
      using assms \<open>k = Suc k'\<close> by (simp add: waits_through_def)
    then show ?case using Suc by (simp add: word_less_nat_alt)
  qed simp
  from this [of k'] have "k' \<le> unat (responses (after F w k') rid)" by simp
  moreover have "unat (responses (after F w k') rid) < unat n"
    using assms Suc by (simp add: waits_through_def word_less_nat_alt)
  ultimately show ?thesis using Suc by linarith
qed simp


section \<open>A run of the program\<close>

text \<open>
  What every operation keeps: the messages sent are understood by the plugin, and no counter can
  reach its end with the responses still to come.
\<close>

definition understood :: "json_env \<Rightarrow> members \<Rightarrow> bool" where
  "understood env m \<longleftrightarrow> (\<exists>r. received env m = Inr r)"

definition events_left :: "smoke_run \<Rightarrow> nat" where
  "events_left w = sum_list (map length (rn_wakes w))"

definition run_ok :: "json_env \<Rightarrow> smoke_run \<Rightarrow> bool" where
  "run_ok env w \<longleftrightarrow> list_all (understood env) (rn_sent w) \<and>
     (\<forall>rid. unat (responses (rn_st w) rid) + events_left w < 2 ^ 64 - 1)"

abbreviation ids :: "smoke_run \<Rightarrow> string list" where
  "ids w \<equiv> st_submittedJobIDs (rn_st w)"

definition moves_on :: "json_env \<Rightarrow> smoke_run \<Rightarrow> smoke_run \<Rightarrow> bool" where
  "moves_on env w w' \<longleftrightarrow> run_ok env w' \<and> prefix (ids w) (ids w') \<and> st_username (rn_st w') = st_username (rn_st w)"

lemma moves_on_trans: "moves_on env w w1 \<Longrightarrow> moves_on env w1 w2 \<Longrightarrow> moves_on env w w2"
  by (auto simp: moves_on_def)

lemma moves_onD: "moves_on env w w' \<Longrightarrow> run_ok env w'" "moves_on env w w' \<Longrightarrow> ids w \<noteq> [] \<Longrightarrow> ids w' \<noteq> []"
  by (auto simp: moves_on_def)

lemma responses_update [simp]:
  "responses (st\<lparr>st_exited := b\<rparr>) rid = responses st rid" "responses (st\<lparr>st_lastRequestType := t\<rparr>) rid = responses st rid"
  "responses (st\<lparr>st_requestID := i\<rparr>) rid = responses st rid" "responses (st\<lparr>st_outputStreamFinished := b\<rparr>) rid = responses st rid"
  "responses (st\<lparr>st_resourceStreamFinished := b\<rparr>) rid = responses st rid"
  "responses (reset_count i st) rid = (if rid = i then 0 else responses st rid)"
  by (simp_all add: responses_def reset_count_def)

lemma unat_inc: "unat (x + 1 :: u64) \<le> unat x + 1"
  by (simp add: unat_word_ariths)

lemma read_event_counts:
  "unat (responses (read_event F e st) rid) \<le> unat (responses st rid) + 1"
  "prefix (st_submittedJobIDs st) (st_submittedJobIDs (read_event F e st))"
  "st_username (read_event F e st) = st_username st"
proof -
  have *: "unat (responses (count_response F obj st) rid) \<le> unat (responses st rid) + 1" for obj
    using unat_inc [of "responses st rid"] by (auto simp: count_response_def Let_def responses_def split: option.split_asm)
  then show "unat (responses (read_event F e st) rid) \<le> unat (responses st rid) + 1"
    by (auto simp: read_event_def split: reader_event.split option.split json.split)
  show "prefix (st_submittedJobIDs st) (st_submittedJobIDs (read_event F e st))" "st_username (read_event F e st) = st_username st"
    by (auto simp: read_event_def count_response_def Let_def split: reader_event.split option.split json.split)
qed

lemma read_batch_counts:
  "unat (responses (read_batch F es st) rid) \<le> unat (responses st rid) + length es"
  "prefix (st_submittedJobIDs st) (st_submittedJobIDs (read_batch F es st))"
  "st_username (read_batch F es st) = st_username st"
proof (induction es arbitrary: st)
  case (Cons e es)
  {
    case 1
    then show ?case using Cons.IH(1) [of "read_event F e st"] read_event_counts(1) [of F e st rid] by (simp add: read_batch_def)
  next
    case 2
    then show ?case using Cons.IH(2) [of "read_event F e st"] read_event_counts(2) [of st F e] by (auto simp: read_batch_def)
  next
    case 3
    then show ?case using Cons.IH(3) [of "read_event F e st"] by (simp add: read_batch_def read_event_counts(3))
  }
qed (simp_all add: read_batch_def)

lemma unlocked_moves: "run_ok env w \<Longrightarrow> moves_on env w (unlocked F w)"
proof (cases "rn_wakes w")
  case (Cons b bs)
  assume ok: "run_ok env w"
  have "unat (responses (read_batch F b (rn_st w)) rid) + sum_list (map length bs) < 2 ^ 64 - 1" for rid
    using ok read_batch_counts(1) [of F b "rn_st w" rid] Cons
    by (auto simp: run_ok_def events_left_def dest!: spec [of _ rid])
  then show ?thesis using ok Cons read_batch_counts(2,3) [where st = "rn_st w" and F = F and es = b]
    by (auto simp: moves_on_def unlocked_def run_ok_def events_left_def)
qed (simp add: moves_on_def unlocked_def)

lemma after_unlocked: "k \<le> length (rn_wakes w) \<Longrightarrow> (unlocked F ^^ k) w = w\<lparr>rn_st := after F w k, rn_wakes := drop k (rn_wakes w)\<rparr>"
proof (induction k arbitrary: w)
  case 0
  then show ?case by simp
next
  case (Suc k)
  then obtain b bs where bs: "rn_wakes w = b # bs" by (cases "rn_wakes w") auto
  have u: "unlocked F w = w\<lparr>rn_st := read_batch F b (rn_st w), rn_wakes := bs\<rparr>" by (simp add: unlocked_def bs)
  show ?case using Suc.IH [of "unlocked F w"] Suc.prems bs by (simp add: funpow_swap1 u)
qed

lemma unlocked_pow_moves: "run_ok env w \<Longrightarrow> moves_on env w ((unlocked F ^^ k) w)"
proof (induction k)
  case 0
  then show ?case by (simp add: moves_on_def)
next
  case (Suc k)
  then have w: "moves_on env w ((unlocked F ^^ k) w)" by blast
  from moves_on_trans [OF w unlocked_moves [OF moves_onD(1) [OF w]]] show ?case by simp
qed

lemma wait_moves:
  assumes "run_ok env w" "waitForResponseLocked F rid n w = (w', ok)"
  shows "moves_on env w w'"
proof -
  obtain k where "waits_through F rid n w k" "w' = w\<lparr>rn_st := after F w k, rn_wakes := drop k (rn_wakes w)\<rparr>"
    using waits_through_exists [of F rid n w] assms(2) by auto
  then show ?thesis using after_unlocked [of k w F] unlocked_pow_moves [where F = F and k = k, OF assms(1)] by (simp add: waits_through_def)
qed

lemma wait_one_more:
  assumes "run_ok env w" "waitForResponseLocked F rid (responses (rn_st w) rid + 1) w = (w', True)"
  shows "rn_wakes w' \<noteq> rn_wakes w"
proof -
  let ?c = "responses (rn_st w) rid"
  have "unat ?c + events_left w < 2 ^ 64 - 1" using assms(1) unfolding run_ok_def by blast
  then have "unat (?c + 1) = unat ?c + 1" by (simp add: unat_word_ariths)
  then have less: "?c < ?c + 1" by (simp add: word_less_nat_alt)
  obtain k where k: "waits_through F rid (?c + 1) w k" "w' = w\<lparr>rn_st := after F w k, rn_wakes := drop k (rn_wakes w)\<rparr>"
    "?c + 1 \<le> responses (after F w k) rid"
    using waits_through_exists [of F rid "?c + 1" w] assms(2) by auto
  have "k \<noteq> 0" using k(3) less by (cases k) auto
  moreover have "k \<le> length (rn_wakes w)" using k(1) by (simp add: waits_through_def)
  ultimately have "length (rn_wakes w') < length (rn_wakes w)" using k(2) by simp
  then show ?thesis by auto
qed

lemma understood_messages [simp]:
  "understood env bootstrapReq" "understood env (clusterInfoReq rid user)" "understood env (allJobsReq rid user)"
  "understood env (getJobReq rid jid user)" "understood env (filteredJobsReq rid user)" "understood env (statusJobsReq rid user status)"
  "understood env (jobStatusStreamReq rid user)" "understood env (cancelJobStatusStreamReq rid user)"
  "understood env (resourceStreamReq rid jid user)" "understood env (cancelResourceStreamReq rid jid user)"
  "understood env (cancelOutputStreamReq rid jid user)" "understood env (networkReqMsg rid jid user)"
  "in_int64 ot \<Longrightarrow> understood env (outputStreamReq rid jid user ot)"
  "in_int64 op \<Longrightarrow> understood env (controlJobMsg rid jid user op)"
  "understood env (submitJobMsg fmt rid user (quickJob1 user))" "understood env (submitJobMsg fmt rid user (quickJob2 user))"
  "understood env (submitJobMsg fmt rid user (longJob user))" "understood env (submitJobMsg fmt rid user (stderrJob user))"
  "understood env (submitJobMsg fmt rid user (slowSignalJob user))"
  by (simp_all add: understood_def received_messages)

lemma moves_on_refl: "run_ok env w \<Longrightarrow> moves_on env w w"
  by (simp add: moves_on_def)

text \<open>A change of the state that resets counters at most and leaves the jobs alone.\<close>

lemma state_moves:
  assumes "run_ok env w" "\<And>rid. responses st rid = responses (rn_st w) rid \<or> responses st rid = 0"
    "st_submittedJobIDs st = ids w" "st_username st = st_username (rn_st w)"
  shows "moves_on env w (w\<lparr>rn_st := st\<rparr>)"
proof -
  have "unat (responses st rid) + events_left w < 2 ^ 64 - 1" for rid
  proof -
    have "unat (responses (rn_st w) rid) + events_left w < 2 ^ 64 - 1" using assms(1) unfolding run_ok_def by blast
    with assms(2) [of rid] show ?thesis by auto
  qed
  then show ?thesis using assms by (simp add: moves_on_def run_ok_def events_left_def)
qed

lemma new_request_moves: "run_ok env w \<Longrightarrow> new_request t w = (rid, w') \<Longrightarrow> moves_on env w w'"
  by (auto simp: new_request_def nextID_def Let_def reset_count_def responses_def intro!: state_moves)

lemma encode_moves: "run_ok env w \<Longrightarrow> understood env m \<Longrightarrow> smoke_Encode m w = (w', err) \<Longrightarrow> moves_on env w w'"
  by (auto simp: smoke_Encode_def moves_on_def run_ok_def events_left_def)

lemma send_and_wait_moves:
  assumes "run_ok env w" "understood env m" "send_and_wait F m rid w = (w', ok)"
  shows "moves_on env w w'"
proof -
  obtain w1 err where e: "smoke_Encode m w = (w1, err)" by (metis surj_pair)
  note m = encode_moves [OF assms(1,2) e]
  show ?thesis
  proof (cases err)
    case None
    then have "waitForResponseLocked F rid 1 w1 = (w', ok)" using assms(3) e by (simp add: send_and_wait_def)
    from moves_on_trans [OF m wait_moves [OF moves_onD(1) [OF m] this]] show ?thesis .
  next
    case Some
    then show ?thesis using assms(3) e m by (simp add: send_and_wait_def handleError_def)
  qed
qed

text \<open>How an operation fares: it ends, without a panic, and keeps what it should.\<close>

definition fares :: "json_env \<Rightarrow> smoke_run \<Rightarrow> smoke_stop + (smoke_run \<times> bool) \<Rightarrow> bool" where
  "fares env w r \<longleftrightarrow> (\<exists>w' b. r = Inr (w', b) \<and> moves_on env w w')"

lemma fares_Inr: "moves_on env w w' \<Longrightarrow> fares env w (Inr (w', b))"
  by (simp add: fares_def)

lemma fares_send: "run_ok env w \<Longrightarrow> understood env m \<Longrightarrow> fares env w (Inr (send_and_wait F m rid w))"
  by (cases "send_and_wait F m rid w") (auto intro: fares_Inr send_and_wait_moves)

lemma fares_after: "moves_on env w w1 \<Longrightarrow> fares env w1 r \<Longrightarrow> fares env w r"
  by (auto simp: fares_def intro: moves_on_trans)

lemma fares_encode:
  assumes "run_ok env w" "understood env m"
    and "\<And>w'. moves_on env w w' \<Longrightarrow> fares env w (f w')"
  shows "fares env w (case smoke_Encode m w of (w', err) \<Rightarrow> if err \<noteq> None then Inr (handleError w') else f w')"
proof -
  obtain w1 err where e: "smoke_Encode m w = (w1, err)" by (metis surj_pair)
  from encode_moves [OF assms(1,2) e] assms(3) e show ?thesis by (auto simp: handleError_def intro: fares_Inr)
qed

lemma last_job_there: "ids w \<noteq> [] \<Longrightarrow> last_job w = Inr (last (ids w))"
  by (simp add: last_job_def)

lemma simple_message_understood: "simple_message fmt action user rid = Some (t, m) \<Longrightarrow> understood env m"
  by (auto simp: simple_message_def split: if_splits)

lemma sendSimpleRequest_fares:
  assumes "run_ok env w"
  shows "fares env w (sendSimpleRequest F fmt action w)"
proof -
  obtain rid st where n: "nextID (rn_st w) = (rid, st)" by (metis surj_pair)
  let ?w = "w\<lparr>rn_st := st\<rparr>"
  let ?send = "\<lambda>t m. Inr (send_and_wait F m rid (on_st (\<lambda>st. reset_count rid (st\<lparr>st_lastRequestType := t\<rparr>)) ?w))"
  have st: "st = (rn_st w)\<lparr>st_requestID := rid\<rparr>" using n by (auto simp: nextID_def Let_def)
  have m: "moves_on env w ?w" by (rule state_moves [OF assms]) (simp_all add: st)
  have send: "fares env w (?send t msg)" if "understood env msg" for t msg
  proof -
    have "moves_on env ?w (on_st (\<lambda>st. reset_count rid (st\<lparr>st_lastRequestType := t\<rparr>)) ?w)"
      by (rule state_moves [OF moves_onD(1) [OF m]]) (simp_all add: reset_count_def responses_def)
    from fares_after [OF moves_on_trans [OF m this] fares_send [OF moves_onD(1) [OF this] that]] show ?thesis by simp
  qed
  show ?thesis
  proof (cases "action = actionGetJobNetwork")
    case True
    then show ?thesis using send fares_Inr [OF m]
      by (cases "ids ?w = []") (simp_all add: sendSimpleRequest_def n Let_def last_job_def)
  next
    case False
    then show ?thesis using send fares_Inr [OF m] simple_message_understood
      by (auto simp: sendSimpleRequest_def n Let_def split: option.split)
  qed
qed

lemma sendJobStatusStreamRequest_fares:
  assumes "run_ok env w"
  shows "fares env w (sendJobStatusStreamRequest F w)"
proof -
  obtain rid st where n: "nextID (rn_st w) = (rid, st)" by (metis surj_pair)
  have st: "st = (rn_st w)\<lparr>st_requestID := rid\<rparr>" using n by (auto simp: nextID_def Let_def)
  let ?w = "w\<lparr>rn_st := (reset_count 0 st)\<lparr>st_lastRequestType := msgGetJobStatus\<rparr>\<rparr>"
  let ?n = "if length (st_submittedJobIDs st) > 0 then of_nat (length (st_submittedJobIDs st)) else 1"
  have m: "moves_on env w ?w"
    by (rule state_moves [OF assms]) (simp_all add: st reset_count_def responses_def)
  have rest: "fares env ?w (case waitForResponse F 0 ?n w2 of (w3, _) \<Rightarrow>
      (case smoke_Encode (cancelJobStatusStreamReq rid (st_username st)) w3 of (w4, err) \<Rightarrow>
         if err \<noteq> None then Inr (handleError w4) else Inr (unlocked F w4, True)))" if w2: "moves_on env ?w w2" for w2
  proof -
    obtain w3 ok where w3: "waitForResponse F 0 ?n w2 = (w3, ok)" by (metis surj_pair)
    note u = unlocked_moves [OF moves_onD(1) [OF w2], of F]
    have m3: "moves_on env w2 w3"
      using moves_on_trans [OF u wait_moves [OF moves_onD(1) [OF u]]] w3 by (simp add: waitForResponse_def)
    have "fares env w3 (case smoke_Encode (cancelJobStatusStreamReq rid (st_username st)) w3 of (w4, err) \<Rightarrow>
        if err \<noteq> None then Inr (handleError w4) else Inr (unlocked F w4, True))"
      by (rule fares_encode [OF moves_onD(1) [OF m3]]) (auto intro!: fares_Inr moves_on_trans [OF _ unlocked_moves] dest: moves_onD(1))
    from fares_after [OF moves_on_trans [OF w2 m3] this] show ?thesis unfolding w3 prod.case .
  qed
  have "fares env ?w (sendJobStatusStreamRequest F w)"
    unfolding sendJobStatusStreamRequest_def n Let_def prod.case
    by (rule fares_encode [OF moves_onD(1) [OF m] understood_messages(7)]) (rule rest)
  then show ?thesis by (rule fares_after [OF m])
qed

lemma stream_loop_moves:
  assumes "run_ok env w"
  shows "fares env w (stream_loop F fin rid w)"
  using assms
proof (induction F fin rid w rule: stream_loop.induct)
  case (1 F fin rid w)
  obtain w' ok where w': "waitForResponseLocked F rid (responses (rn_st w) rid + 1) w = (w', ok)" by (metis surj_pair)
  note m = wait_moves [OF 1(2) w']
  show ?case
  proof (cases "\<not> fin (rn_st w) \<and> ok")
    case True
    then have "rn_wakes w' \<noteq> rn_wakes w" using wait_one_more [OF 1(2)] w' by simp
    then show ?thesis
      using 1(1) [OF _ w' [symmetric]] True fares_after [OF m] moves_onD(1) [OF m] w' by (subst stream_loop.simps) simp
  next
    case False
    then show ?thesis using w' m 1(2)
      by (subst stream_loop.simps) (auto intro: fares_Inr moves_on_refl)
  qed
qed

text \<open>The end of both stream requests: cancel a stream that is not finished.\<close>

lemma stream_end_fares:
  assumes "run_ok env w" "understood env m"
  shows "fares env w (andThen (stream_loop F fin rid w) (\<lambda>(w3, timedOut).
    if timedOut \<and> \<not> fin (rn_st w3) then
      (case smoke_Encode m w3 of (w4, err) \<Rightarrow> if err \<noteq> None then Inr (handleError w4) else Inr (w4, True))
    else Inr (w3, True)))"
proof -
  obtain w3 timedOut where w3: "stream_loop F fin rid w = Inr (w3, timedOut)" "moves_on env w w3"
    using stream_loop_moves [OF assms(1), of F fin rid] by (auto simp: fares_def)
  have "fares env w3 (case smoke_Encode m w3 of (w4, err) \<Rightarrow> if err \<noteq> None then Inr (handleError w4) else Inr (w4, True))"
    by (rule fares_encode [OF moves_onD(1) [OF w3(2)] assms(2)]) (rule fares_Inr)
  from fares_after [OF w3(2) this] w3 show ?thesis by (auto intro: fares_Inr)
qed

lemma sendJobOutputStreamRequest_fares:
  assumes "run_ok env w" "in_int64 ot"
  shows "fares env w (sendJobOutputStreamRequest F ot w)"
proof (cases "ids w = []")
  case True
  then show ?thesis using assms(1) by (simp add: sendJobOutputStreamRequest_def fares_Inr moves_on_refl)
next
  case False
  obtain rid w1 where n: "new_request msgGetJobOutput w = (rid, w1)" by (metis surj_pair)
  note m1 = new_request_moves [OF assms(1) n]
  let ?w = "on_st (st_outputStreamFinished_update (\<lambda>_. False)) w1"
  have m: "moves_on env w ?w"
    by (rule moves_on_trans [OF m1 state_moves [OF moves_onD(1) [OF m1]]]) simp_all
  have "fares env ?w (sendJobOutputStreamRequest F ot w)"
    using False unfolding sendJobOutputStreamRequest_def n Let_def prod.case last_job_there [OF False] andThen.simps if_not_P [OF False]
    by - (rule fares_encode [OF moves_onD(1) [OF m] understood_messages(13) [OF assms(2)]],
        rule fares_after, assumption, rule stream_end_fares, erule moves_onD(1), simp)
  then show ?thesis by (rule fares_after [OF m])
qed

lemma sendJobResourceStreamRequest_fares:
  assumes "run_ok env w"
  shows "fares env w (sendJobResourceStreamRequest F w)"
proof (cases "ids w = []")
  case True
  then show ?thesis using assms(1) by (simp add: sendJobResourceStreamRequest_def fares_Inr moves_on_refl)
next
  case False
  obtain rid st where n: "nextID (rn_st w) = (rid, st)" by (metis surj_pair)
  have st: "st = (rn_st w)\<lparr>st_requestID := rid\<rparr>" using n by (auto simp: nextID_def Let_def)
  let ?w = "w\<lparr>rn_st := (reset_count 0 st)\<lparr>st_resourceStreamFinished := False, st_lastRequestType := msgGetJobResourceUtil\<rparr>\<rparr>"
  have m: "moves_on env w ?w"
    by (rule state_moves [OF assms]) (simp_all add: st reset_count_def responses_def)
  have "fares env ?w (sendJobResourceStreamRequest F w)"
    unfolding sendJobResourceStreamRequest_def n Let_def prod.case last_job_there [OF False] andThen.simps if_not_P [OF False]
    by (rule fares_encode [OF moves_onD(1) [OF m] understood_messages(9)],
        rule fares_after, assumption, rule stream_end_fares, erule moves_onD(1), simp)
  then show ?thesis by (rule fares_after [OF m])
qed

lemma controlLastJob_fares:
  assumes "run_ok env w" "ids w \<noteq> []" "in_int64 op"
  shows "fares env w (controlLastJobAndPrintStatus F op w)"
proof -
  define w0 where "w0 = (if op \<noteq> opCancel then unlocked F w else w)"
  have m0: "moves_on env w w0" using unlocked_moves [OF assms(1)] moves_on_refl [OF assms(1)] by (simp add: w0_def)
  have ids: "ids w0 \<noteq> []" by (rule moves_onD(2) [OF m0 assms(2)])
  obtain cid w1 where n1: "new_request msgControlJob w0 = (cid, w1)" by (metis surj_pair)
  note m1 = new_request_moves [OF moves_onD(1) [OF m0] n1]
  let ?msg = "controlJobMsg cid (last (ids w0)) (st_username (rn_st w0)) op"
  obtain w2 ok where w2: "send_and_wait F ?msg cid w1 = (w2, ok)" by (metis surj_pair)
  note m2 = send_and_wait_moves [OF moves_onD(1) [OF m1] understood_messages(14) [OF assms(3)] w2]
  obtain sid w3 where n3: "new_request msgGetJob w2 = (sid, w3)" by (metis surj_pair)
  note m3 = new_request_moves [OF moves_onD(1) [OF m2] n3]
  have "fares env w3 (Inr (send_and_wait F (getJobReq sid (last (ids w0)) (st_username (rn_st w0))) sid w3))"
    by (rule fares_send [OF moves_onD(1) [OF m3]]) simp
  from fares_after [OF moves_on_trans [OF m0 moves_on_trans [OF m1 moves_on_trans [OF m2 m3]]] this]
    fares_Inr [OF moves_on_trans [OF m0 moves_on_trans [OF m1 m2]]]
  show ?thesis by (simp add: controlLastJobAndPrintStatus_def Let_def w0_def [symmetric] last_job_there [OF ids] n1 w2 n3)
qed

lemma sendControlJobRequest_outcome:
  assumes "run_ok env w" "in_int64 op"
  shows "\<exists>w' b. sendControlJobRequest F fmt op w = Inr (w', b) \<and> moves_on env w w' \<and> (b \<longrightarrow> ids w' \<noteq> [])"
proof -
  obtain rid w1 where n: "new_request msgSubmitJob w = (rid, w1)" by (metis surj_pair)
  note m1 = new_request_moves [OF assms(1) n]
  let ?user = "st_username (rn_st w)"
  obtain w2 ok where w2: "send_and_wait F (submitJobMsg fmt rid ?user (slowSignalJob ?user)) rid w1 = (w2, ok)" by (metis surj_pair)
  note m2 = moves_on_trans [OF m1 send_and_wait_moves [OF moves_onD(1) [OF m1] understood_messages(19) w2]]
  show ?thesis
  proof (cases "\<not> ok \<or> length (ids w2) \<le> length (ids w)")
    case True
    then show ?thesis using m2 by (auto simp: sendControlJobRequest_def Let_def n w2)
  next
    case False
    then have "ids w2 \<noteq> []" by auto
    from controlLastJob_fares [OF moves_onD(1) [OF m2] this assms(2), of F] obtain w' b where
      w': "controlLastJobAndPrintStatus F op w2 = Inr (w', b)" "moves_on env w2 w'" by (auto simp: fares_def)
    have "ids w' \<noteq> []" by (rule moves_onD(2) [OF w'(2) \<open>ids w2 \<noteq> []\<close>])
    then show ?thesis using False w'(1) moves_on_trans [OF m2 w'(2)] by (simp add: sendControlJobRequest_def Let_def n w2)
  qed
qed

lemma small_constants [simp]: "in_int64 opSuspend" "in_int64 opResume" "in_int64 opStop" "in_int64 opKill" "in_int64 opCancel"
  "in_int64 outputStdout" "in_int64 outputStderr" "in_int64 outputBoth"
  by (simp_all add: wire_defs)

lemma sendControlJobRequest_fares: "run_ok env w \<Longrightarrow> in_int64 op \<Longrightarrow> fares env w (sendControlJobRequest F fmt op w)"
  using sendControlJobRequest_outcome [of env w op F fmt] by (auto simp: fares_def)

lemma sendSuspendResumeJobRequest_fares:
  assumes "run_ok env w"
  shows "fares env w (sendSuspendResumeJobRequest F fmt w)"
proof -
  from sendControlJobRequest_outcome [OF assms small_constants(1), of F fmt] obtain w1 b where
    w1: "sendControlJobRequest F fmt opSuspend w = Inr (w1, b)" "moves_on env w w1" "b \<longrightarrow> ids w1 \<noteq> []" by blast
  have u: "moves_on env w1 (unlocked F w1)" by (rule unlocked_moves [OF moves_onD(1) [OF w1(2)]])
  show ?thesis
  proof (cases b)
    case True
    then have "ids (unlocked F w1) \<noteq> []" using w1(3) moves_onD(2) [OF u] by blast
    from fares_after [OF moves_on_trans [OF w1(2) u] controlLastJob_fares [OF moves_onD(1) [OF u] this small_constants(2)]]
    show ?thesis using True w1(1) by (simp add: sendSuspendResumeJobRequest_def)
  next
    case False
    then show ?thesis using w1 by (simp add: sendSuspendResumeJobRequest_def fares_Inr)
  qed
qed

lemma run_action_fares: "run_ok env w \<Longrightarrow> fares env w (run_action F fmt action w)"
  by (simp add: run_action_def sendJobStatusStreamRequest_fares sendJobOutputStreamRequest_fares sendJobResourceStreamRequest_fares
      sendControlJobRequest_fares sendSuspendResumeJobRequest_fares sendSimpleRequest_fares)

lemma sendRequest_fares:
  assumes "run_ok env w"
  shows "fares env w (sendRequest F fmt input w)"
proof -
  have u: "moves_on env w (unlocked F w)" by (rule unlocked_moves [OF assms])
  note u2 = moves_on_trans [OF u unlocked_moves [OF moves_onD(1) [OF u], of F]]
  have act: "fares env w (andThen (run_action F fmt a (unlocked F (unlocked F w))) (\<lambda>(w2, success).
      let w3 = unlocked F w2 in Inr (w3, \<not> st_exited (rn_st w3) \<and> success)))" for a
  proof -
    obtain w2 b where w2: "run_action F fmt a (unlocked F (unlocked F w)) = Inr (w2, b)" "moves_on env (unlocked F (unlocked F w)) w2"
      using run_action_fares [where F = F and fmt = fmt and action = a, OF moves_onD(1) [OF u2]] by (auto simp: fares_def)
    have "moves_on env w (unlocked F w2)"
      using moves_on_trans [OF u2 moves_on_trans [OF w2(2) unlocked_moves [OF moves_onD(1) [OF w2(2)]]]] .
    then show ?thesis by (simp add: w2(1) Let_def fares_Inr)
  qed
  have "moves_on env w ((unlocked F w)\<lparr>rn_closed := True\<rparr>)"
    using u by (simp add: moves_on_def run_ok_def events_left_def)
  then show ?thesis using assms u act
    by (auto simp: sendRequest_def Let_def intro: fares_Inr moves_on_refl split: option.split)
qed

lemma sendRequest_at_end: "sendRequest F fmt None w = Inr (w', b) \<Longrightarrow> \<not> b"
  by (auto simp: sendRequest_def Let_def split: if_splits)

lemma request_loop_ends:
  "run_ok env w \<Longrightarrow> \<exists>w'. request_loop F fmt lines w = Inr w' \<and> moves_on env w w'"
proof (induction lines arbitrary: w)
  case Nil
  from sendRequest_fares [OF this, of F fmt None] show ?case by (auto simp: fares_def)
next
  case (Cons l ls)
  from sendRequest_fares [OF Cons.prems, of F fmt "Some l"] obtain w1 b where
    w1: "sendRequest F fmt (Some l) w = Inr (w1, b)" "moves_on env w w1" by (auto simp: fares_def)
  show ?case
  proof (cases b)
    case True
    from Cons.IH [OF moves_onD(1) [OF w1(2)]] obtain w' where "request_loop F fmt ls w1 = Inr w'" "moves_on env w1 w'" by blast
    with w1 True show ?thesis by (auto intro: moves_on_trans)
  qed (use w1 in auto)
qed

lemma initialize_moves:
  assumes "run_ok env w" "initialize F sp w = (w', err)"
  shows "moves_on env w w'"
proof -
  define w1 where "w1 = on_st (\<lambda>st. (reset_count 0 st)\<lparr>st_lastRequestType := msgBootstrap\<rparr>) (unlocked F w)"
  have u: "moves_on env w (unlocked F w)" by (rule unlocked_moves [OF assms(1)])
  have m1: "moves_on env w w1" unfolding w1_def
    by (rule moves_on_trans [OF u state_moves [OF moves_onD(1) [OF u]]]) (simp_all add: reset_count_def responses_def)
  obtain w2 e where w2: "smoke_Encode bootstrapReq w1 = (w2, e)" by (metis surj_pair)
  note m2 = moves_on_trans [OF m1 encode_moves [OF moves_onD(1) [OF m1] understood_messages(1) w2]]
  obtain w3 ok where w3: "waitForResponse F 0 1 w2 = (w3, ok)" by (metis surj_pair)
  note u2 = unlocked_moves [OF moves_onD(1) [OF m2], of F]
  have m3: "moves_on env w w3"
    using moves_on_trans [OF m2 moves_on_trans [OF u2 wait_moves [OF moves_onD(1) [OF u2]]]] w3 by (simp add: waitForResponse_def)
  show ?thesis using assms m2 m3 moves_on_refl [OF assms(1)]
    by (auto simp: initialize_def Let_def w1_def [symmetric] w2 w3 split: option.split_asm)
qed

lemma smoke_main_runs:
  assumes "sum_list (map length wakes) < 2 ^ 64 - 1"
  shows "\<exists>code w. smoke_main F fmt args exists_user sp wakes errs lines in_time = Inr (code, w) \<and>
    (\<forall>run. w = Some run \<longrightarrow> list_all (understood env) (rn_sent run))"
proof -
  let ?w0 = "\<lparr>rn_st = newSmokeTest (args ! 1) (args ! 2), rn_wakes = wakes, rn_errs = errs, rn_sent = [], rn_closed = False\<rparr>"
  have ok: "run_ok env ?w0" using assms by (simp add: run_ok_def events_left_def newSmokeTest_def responses_def)
  obtain w err where w: "initialize F sp ?w0 = (w, err)" by (metis surj_pair)
  note m = initialize_moves [OF ok w]
  obtain w' where w': "request_loop F fmt lines w = Inr w'" "moves_on env w w'" using request_loop_ends [OF moves_onD(1) [OF m]] by blast
  have "list_all (understood env) (rn_sent w)" "list_all (understood env) (rn_sent w')"
    using m w'(2) by (simp_all add: moves_on_def run_ok_def)
  then show ?thesis by (simp add: smoke_main_def w [unfolded One_nat_def] w'(1) stop_def)
qed


text \<open>
  C18: Whatever is typed at the menu and whatever the plugin answers, every message the smoke test
  sends is accepted by the plugin's decoder as a valid request.
\<close>

theorem smoke_main_understood:
  assumes "sum_list (map length wakes) < 2 ^ 64 - 1"
    and "smoke_main F fmt args exists_user sp wakes errs lines in_time = Inr (code, Some run)"
  shows "list_all (\<lambda>m. \<exists>r. received env m = Inr r) (rn_sent run)"
  using smoke_main_runs [OF assms(1), of F fmt args exists_user sp errs lines in_time env] assms(2)
  by (auto simp: understood_def [abs_def])

text \<open>A session: the plugin answers the bootstrap, then the request for cluster information.\<close>

definition plain_floats :: float_env where
  "plain_floats = \<lparr>fe_uint64 = (\<lambda>l. case parse_uint64 l of None \<Rightarrow> 0 | Some n \<Rightarrow> n), fe_int = (\<lambda>l. case Atoi l of None \<Rightarrow> 0 | Some i \<Rightarrow> i)\<rparr>"

definition response_to :: "u64 \<Rightarrow> reader_event" where
  "response_to rid = Response (Some (JObj [(''requestId'', enc_uint64 rid)]))"

definition short_session :: "smoke_stop + (int \<times> smoke_run option)" where
  "short_session = smoke_main plain_floats int_dec [''smoketest'', ''plugin'', ''ann''] (\<lambda>u. u = ''ann'')
     \<lparr>sp_stdin = None, sp_stdout = None, sp_start = None, sp_Getuid = 0\<rparr>
     [[], [], [response_to 0], [], [], [response_to 1]] [] [''1'', ''q''] True"


lemma read_response_to [simp]:
  "read_event plain_floats (response_to rid) st = count_response plain_floats [''requestId'' \<mapsto> enc_uint64 rid] st"
  by (simp add: read_event_def response_to_def)

lemma response_id_plain [simp]: "response_id plain_floats [''requestId'' \<mapsto> enc_uint64 rid] = rid"
  by (simp add: response_id_def plain_floats_def enc_uint64_def parse_uint64_nat_dec)

lemma trim_example: "TrimSpace ''1'' = ''1''" "TrimSpace ''q'' = ''q''"
  by (simp_all add: TrimSpace_def space_runes_def trim_front.simps)

lemma choice_example: "choice_of ''1'' = Some 1" "choice_of ''q'' = Some menu_length"
  by (simp_all add: choice_of_def Atoi_def unsigned_dec_def digit_val_def int64_of_def in_int64_def)

lemmas actions = actionClusterInfo_def actionGetAllJobs_def actionGetFilteredJobs_def actionGetRunningJobs_def actionGetFinishedJobs_def
  actionGetJobStatuses_def actionSubmitJob1_def actionSubmitJob2_def actionSubmitStderrJob_def actionSubmitLongJob_def
  actionStreamOutputBoth_def actionStreamOutputStdout_def actionStreamOutputStderr_def actionStreamResource_def
  actionGetJobNetwork_def actionCancelJob_def actionKillJob_def actionStopJob_def actionSuspendResumeJob_def actionExit_def menu_length_def

lemmas smoke_eval = unlocked_def reset_count_def smoke_Encode_def waitForResponse_def waitForResponseLocked_def responses_def
  count_response_def Let_def read_batch_def wire_defs nextID_def send_and_wait_def sendSimpleRequest_def simple_message_def

definition session_state :: "u64 \<Rightarrow> (u64 \<rightharpoonup> u64) \<Rightarrow> int \<Rightarrow> smokeTest" where
  "session_state n counts t = (newSmokeTest ''plugin'' ''ann'')\<lparr>st_requestID := n, st_responseCount := counts, st_lastRequestType := t\<rparr>"

lemma short_session_run: "\<exists>run. short_session = Inr (0, Some run) \<and> rn_sent run = [bootstrapReq, clusterInfoReq 1 ''ann'']"
proof -
  let ?w1 = "\<lparr>rn_st = session_state 0 [0 \<mapsto> 1] 1, rn_wakes = [[], [], [response_to 1]], rn_errs = [], rn_sent = [bootstrapReq], rn_closed = False\<rparr>"
  let ?w2 = "\<lparr>rn_st = session_state 1 [0 \<mapsto> 1, 1 \<mapsto> 1] 9, rn_wakes = [], rn_errs = [],
    rn_sent = [bootstrapReq, clusterInfoReq 1 ''ann''], rn_closed = False\<rparr>"
  have 1: "initialize plain_floats \<lparr>sp_stdin = None, sp_stdout = None, sp_start = None, sp_Getuid = 0\<rparr>
      \<lparr>rn_st = newSmokeTest ''plugin'' ''ann'', rn_wakes = [[], [], [response_to 0], [], [], [response_to 1]], rn_errs = [], rn_sent = [], rn_closed = False\<rparr> =
    (?w1, None)"
    by (simp add: initialize_def session_state_def newSmokeTest_def smoke_eval)
  have 2: "sendRequest plain_floats int_dec (Some ''1'') ?w1 = Inr (?w2, True)"
    by (simp add: sendRequest_def trim_example choice_example actions run_action_def session_state_def newSmokeTest_def smoke_eval)
  have 3: "sendRequest plain_floats int_dec (Some ''q'') ?w2 = Inr (?w2\<lparr>rn_closed := True\<rparr>, False)"
    by (simp add: sendRequest_def trim_example choice_example actions session_state_def newSmokeTest_def smoke_eval)
  show ?thesis using 1 2 3 by (simp add: short_session_def smoke_main_def stop_def)
qed

theorem smoke_main_understood_witness:
  "\<exists>run. short_session = Inr (0, Some run) \<and> rn_sent run = [bootstrapReq, clusterInfoReq 1 ''ann''] \<and>
     list_all (\<lambda>m. \<exists>r. received \<lparr>je_parse = (\<lambda>_. None), je_time = Atoi, je_addr = (\<lambda>_. None)\<rparr> m = Inr r) (rn_sent run)"
proof -
  obtain run where run: "short_session = Inr (0, Some run)" "rn_sent run = [bootstrapReq, clusterInfoReq 1 ''ann'']"
    using short_session_run by blast
  from smoke_main_understood [OF _ run(1) [unfolded short_session_def], of "\<lparr>je_parse = (\<lambda>_. None), je_time = Atoi, je_addr = (\<lambda>_. None)\<rparr>"]
  show ?thesis using run by (intro exI [of _ run]) simp
qed

text \<open>
  Waiting for responses: the wait goes through batches of responses as long as each brings one
  to this request and there are too few of them, through at most as many batches as responses
  are asked for, and answers whether they are there.
\<close>

theorem wait_outcome:
  "\<exists>k \<le> unat expected. waits_through F rid expected w k \<and> waitForResponseLocked F rid expected w =
     (w\<lparr>rn_st := after F w k, rn_wakes := drop k (rn_wakes w)\<rparr>, expected \<le> responses (after F w k) rid)"
  using waits_through_exists [of F rid expected w] waits_through_bound by blast

text \<open>Whether a response is counted for a request.\<close>

definition answers :: "float_env \<Rightarrow> u64 \<Rightarrow> reader_event \<Rightarrow> bool" where
  "answers F rid e = (case e of
     Response (Some (JObj kvs)) \<Rightarrow> response_id F (map_of (rev kvs)) = rid
   | Response (Some JNull) \<Rightarrow> rid = 0
   | _ \<Rightarrow> False)"

lemma read_event_others: "\<not> answers F rid e \<Longrightarrow> responses (read_event F e st) rid = responses st rid"
  by (auto simp: read_event_def answers_def responses_def count_response_def response_id_def Let_def
      split: reader_event.split option.split json.split)

lemma read_batch_others: "list_all (\<lambda>e. \<not> answers F rid e) es \<Longrightarrow> responses (read_batch F es st) rid = responses st rid"
  by (induction es arbitrary: st) (simp_all add: read_batch_def read_event_others)

text \<open>
  C40: The wait gives up early: when it is woken by a response to any other request (or by a late
  broadcast, with nothing new at all), it reports a timeout at once, although its 30 seconds
  are not over and whatever the plugin sends afterwards. The metrics response a plugin sends every
  minute, which carries the request ID 0, is such a response.
\<close>

theorem wait_gives_up:
  assumes "rn_wakes w = b # bs" "list_all (\<lambda>e. \<not> answers F rid e) b"
    and "responses (rn_st w) rid < expected" "\<not> st_exited (rn_st w)"
  shows "waitForResponseLocked F rid expected w = (w\<lparr>rn_st := read_batch F b (rn_st w), rn_wakes := bs\<rparr>, False)"
  using assms read_batch_others [OF assms(2), of "rn_st w"] by (simp add: waitForResponseLocked_def Let_def)

definition waiting_run :: smoke_run where
  "waiting_run = \<lparr>rn_st = session_state 1 [1 \<mapsto> 0] 9, rn_wakes = [[response_to 0], [response_to 1]], rn_errs = [], rn_sent = [], rn_closed = False\<rparr>"

theorem wait_gives_up_witness:
  "snd (waitForResponseLocked plain_floats 1 1 waiting_run) = False \<and>
   rn_wakes (fst (waitForResponseLocked plain_floats 1 1 waiting_run)) = [[response_to 1]]"
proof -
  have "\<not> answers plain_floats 1 (response_to 0)"
    by (simp add: answers_def response_to_def)
  with wait_gives_up [of waiting_run "[response_to 0]" "[[response_to 1]]" plain_floats 1 1] show ?thesis
    by (simp add: waiting_run_def session_state_def newSmokeTest_def responses_def)
qed

text \<open>
  The arguments the plugin is started with switch its heartbeats off, debugging on and the log
  directory off; they leave the metrics interval at its default of a minute.
\<close>

lemma plugin_args_parsed:
  assumes "parse_uint env ''0'' = Some 0" "sp_Getuid sp \<noteq> 0"
  shows "flag_Parse (option_flags env) (plugin_args sp) opt =
    Inr (opt\<lparr>do_heartbeatSeconds := 0, do_Debug := True, do_LoggingDir := '''', do_Unprivileged := True\<rparr>, [])"
  using assms
  by (simp add: plugin_args_def option_flags_def parsed_flag_def bool_flag_def ParseBool_def)

end
