(* ===== verification/Example_Main.thy ===== *)
theory Example_Main
  imports Workbench_Logger Example_Inmemory
begin

text \<open>
  The start of the in-memory example (\<^verbatim>\<open>main\<close> in \<^verbatim>\<open>src/examples/inmemory/main.go\<close>), up to the running
  plugin: logging after the options and Workbench's configuration, then the logger and the plugin.
\<close>

definition log_defaults :: "DefaultOptions \<Rightarrow> Config" where
  "log_defaults options = \<lparr>lc_Level = (if do_Debug options then LevelDebug else LevelInfo),
     lc_Type = DestinationFile, lc_Dir = do_LoggingDir options\<rparr>"

definition log_config :: "log_world \<Rightarrow> DefaultOptions \<Rightarrow> conf_error + Config" where
  "log_config w options = (case LoadConfig w ''inmemory'' (log_defaults options) of
     (_, Some err) \<Rightarrow> Inl err
   | ((cfg, _), None) \<Rightarrow>
       Inr (if do_Debug options \<and> lc_Level cfg > LevelDebug then cfg\<lparr>lc_Level := LevelDebug\<rparr> else cfg))"

text \<open>What \<^verbatim>\<open>main\<close> comes to: it exits with code 1, or runs the plugin with a logger.\<close>

datatype main_start = MainExit | MainRuns workbenchHandler InMemoryPlugin

definition inmemory_start ::
  "render \<Rightarrow> (sink \<Rightarrow> string \<Rightarrow> string option) \<Rightarrow> instant \<Rightarrow> log_world \<Rightarrow> DefaultOptions \<Rightarrow> main_start" where
  "inmemory_start rd fails now w options = (case log_config w options of
     Inl _ \<Rightarrow> MainExit
   | Inr cfg \<Rightarrow> (case MustNewLogger rd fails now w ''inmemory'' cfg of
       MustExit _ \<Rightarrow> MainExit
     | MustOk lgr \<Rightarrow> MainRuns lgr new_InMemoryPlugin))"

lemma logger_level: "NewLogger w name cfg = Inr h \<Longrightarrow> wh_level h = lc_Level cfg"
  by (auto simp: NewLogger_def newWorkbenchLogger_def Let_def split: if_splits option.splits)

text \<open>With \<^verbatim>\<open>--enable-debug-logging\<close> the running plugin logs debug records, whatever the configuration says.\<close>

lemma debug_flag_enforced:
  assumes "do_Debug options" "inmemory_start rd fails now w options = MainRuns h p"
  shows "wh_Enabled LevelDebug h"
proof -
  from assms(2) obtain cfg where cfg: "log_config w options = Inr cfg" "NewLogger w ''inmemory'' cfg = Inr h"
    by (auto simp: inmemory_start_def MustNewLogger_def split: sum.splits must_logger.splits)
  have "lc_Level cfg \<le> LevelDebug"
    using cfg(1) assms(1) by (auto simp: log_config_def split: prod.splits option.splits if_splits)
  then show ?thesis using logger_level [OF cfg(2)] by (simp add: wh_Enabled_def)
qed

end
