(* ===== verification/Spec2Isabelle.thy ===== *)
theory Spec2Isabelle
  imports Api_Flags Plugin_Runtime Cache_Steps Plugintest_Builders Workbench_Logger Conformance_Inmemory Smoke_Test Example_Main
begin

text \<open>
  Verification of the Launcher plugin SDK for Go.

  \<^bold>\<open>The program.\<close> The SDK (\<^verbatim>\<open>src/\<close>) is a library for writing plugins of the Posit Launcher. The Launcher
  starts a plugin as a process and talks to it over its standard input and output: each message is
  a JSON document preceded by its length. \<^verbatim>\<open>internal/protocol\<close> frames, decodes and encodes the messages,
  and its communicator runs one goroutine per request. \<^verbatim>\<open>launcher\<close> turns a request into a call of the
  plugin's methods and the calls the plugin makes on its response writer into responses; it also
  has the options of a plugin, its start-up, and the loop that reports metrics. \<^verbatim>\<open>api\<close> has the data:
  jobs, filters, operations, errors. \<^verbatim>\<open>cache\<close> is the store of jobs most plugins sit on, with
  subscriptions to status changes. \<^verbatim>\<open>logger\<close> reads Workbench's logging configuration and writes log
  lines. \<^verbatim>\<open>plugintest\<close> has mock writers, assertions and builders for the tests of a plugin,
  \<^verbatim>\<open>conformance\<close> a suite that a plugin has to pass, \<^verbatim>\<open>examples/inmemory\<close> a complete plugin, and
  \<^verbatim>\<open>cmd/smoketest\<close> a program that drives a plugin by hand over its pipes.

  \<^bold>\<open>How the code is rendered.\<close> A struct is a record (field prefixes tell the records apart), an
  interface with known implementations a datatype, \<^verbatim>\<open>uint64\<close> and \<^verbatim>\<open>int32\<close> values are words. A computation
  that may panic has the type \<open>'a go\<close>, one that may return an error a sum; a pointer that may be nil
  is an option, and a slice is one where the code or the JSON text tells nil from empty. A
  method that holds a lock from beginning to end is one function on the state; goroutines are
  steps of an inductive relation with every interleaving of their sections. Code outside
  the repository is a parameter: the JSON parser and the number and time syntax (\<open>json_env\<close>), the order in
  which a map is visited (any enumeration of its keys), the choice of a \<^verbatim>\<open>select\<close>, the clock, the
  operating system (\<open>os_env\<close>, \<open>log_world\<close>), the ini parser, the Prometheus histogram, the writer below
  the encoder, and the plugin of the runtime and of the suite.

  \<^bold>\<open>Theories, their sources, and what they show.\<close>

  \<^descr> \<open>Launcher_Prelude\<close>: results, Go strings, paths, channels; the collections of definitions; the locale
    \<open>inductive_invariant\<close>, the invariant rule of a step relation, interpreted below for each of them.
  \<^descr> \<open>Go_Json\<close>: JSON documents and typed decoding on top of a value in place.
  \<^descr> \<open>Api_Types\<close>, \<open>Api_Jobs\<close>, \<open>Api_Flags\<close> (\<^verbatim>\<open>api/types.go\<close>): errors and the chain \<^verbatim>\<open>errors.As\<close> follows; jobs,
    \<^verbatim>\<open>JobFilter.Includes\<close>, \<^verbatim>\<open>WithFields\<close> and control operations on every branch, with the panics on a nil
    time; \<^verbatim>\<open>String\<close> and \<^verbatim>\<open>Set\<close> of environment variables, mounts and ports. The locale \<open>flag_value\<close> is their
    contract (printing, parsing, canonical forms), interpreted three times.
  \<^descr> \<open>Wire_Stream\<close> (\<^verbatim>\<open>protocol/stream.go\<close>): encoder and decoder with its fixed buffer. The locale
    \<open>stream_codec\<close> gives the reading of a whole stream from the reading of one message. Round trip,
    which truncations are noticed, and that the buffer is never overrun.
  \<^descr> \<open>Wire_Requests\<close>, \<open>Wire_Responses\<close> (\<^verbatim>\<open>protocol/rpc.go\<close>): the messages, the decoding of requests and of
    the job in a submission, and the constructors of responses.
  \<^descr> \<open>Wire_Jobs\<close> (the struct tags of \<^verbatim>\<open>api/types.go\<close>): the JSON form of a job; decoding it gives the job.
  \<^descr> \<open>Wire_Serve\<close> (\<^verbatim>\<open>protocol/communicator.go\<close>): \<^verbatim>\<open>Serve\<close> as the interleaving of its goroutines. No panic,
    queues within their capacity, no infinite run, errors reported, every request handed on once and
    every response written; and the run in which a failed encoding leaves it hanging.
  \<^descr> \<open>Response_Writer\<close>, \<open>Request_Handler\<close> (\<^verbatim>\<open>launcher/launcher.go\<close>): the response writers, the counter and the
    stream store, concurrent handlers, and \<^verbatim>\<open>createHandler\<close> for every request. Response IDs are unique,
    the sequence of a stream has no gaps, cancelling hits exactly one stream, and a decoded
    request is served without a panic except for a submission without a job.
  \<^descr> \<open>Runtime_Metrics\<close> (\<^verbatim>\<open>launcher/metrics.go\<close>): the histogram equals the list of observations since the
    last drain; the outcome of a metrics tick.
  \<^descr> \<open>Runtime_Options\<close>, \<open>Plugin_Runtime\<close> (\<^verbatim>\<open>launcher/launcher.go\<close>): flags, validation, paths, build information;
    the runtime put together, from the bytes read to the bytes written.
  \<^descr> \<open>Job_Store\<close> (\<^verbatim>\<open>cache/store.go\<close>): the store and the merging of jobs. The locale \<open>job_store\<close> is what the
    cache relies on, interpreted for the in-memory store; the listing does not depend on the map order.
  \<^descr> \<open>Sub_Manager\<close>, \<open>Job_Cache\<close>, \<open>Cache_Steps\<close> (\<^verbatim>\<open>cache/cache.go\<close>): subscriptions over a heap of channels, with
    the locale \<open>manager_op\<close> for what both manager operations keep; the operations of the cache; and
    the cache at work. No channel operation panics, subscribers see a subsequence of the
    updates of their topic in order, and a closed cache is silent.
  \<^descr> \<open>Plugintest_Mocks\<close>, \<open>Plugintest_Builders\<close> (\<^verbatim>\<open>plugintest/mocks.go\<close>, \<^verbatim>\<open>helpers.go\<close>, \<^verbatim>\<open>builders.go\<close>): a mock records
    exactly what the real writer would send; the assertions, and the builders with the container
    that clones share.
  \<^descr> \<open>Workbench_Logger\<close> (\<^verbatim>\<open>logger/conf.go\<close>, \<^verbatim>\<open>logger.go\<close>): the layers of the configuration and its
    errors; the handler from a log record to the line written.
  \<^descr> \<open>Example_Inmemory\<close>, \<open>Example_Main\<close> (\<^verbatim>\<open>examples/inmemory/main.go\<close>): the plugin's methods over the cache, the
    goroutine of each job, and the start in \<^verbatim>\<open>main\<close>. The plugin refines the life cycle of jobs.
  \<^descr> \<open>Conformance_Harness\<close>, \<open>Conformance_Suite\<close> (\<^verbatim>\<open>conformance/helpers.go\<close>, \<^verbatim>\<open>conformance.go\<close>, \<^verbatim>\<open>scenarios.go\<close>): tests
    as programs over a plugin, with failing, skipping, panicking and hanging; every test,
    workflow and scenario.
  \<^descr> \<open>Conformance_Logic\<close>, \<open>Conformance_Laws\<close>, \<open>Conformance_Inmemory\<close>: the wait loops against the sequence of
    polls, what a passing scenario shows, a Hoare logic for tests, and the locale \<open>conforming_plugin\<close>, the
    laws under which the invariant tests and the workflows pass. The in-memory plugin under a
    clock (\<open>im_setting\<close>) is a sublocale of it, interpreted for a concrete order of keys.
  \<^descr> \<open>Smoke_Requests\<close>, \<open>Smoke_Test\<close> (\<^verbatim>\<open>cmd/smoketest\<close>): the messages it sends are the requests the SDK
    decodes; the program ends for every session; what waiting for a response comes to.

  \<^bold>\<open>Composition.\<close> \<open>Plugin_Runtime\<close> joins stream, requests, communicator, handler and writers: with
  metrics disabled, the bytes written are the frames of the responses of each request handled
  once. \<open>Conformance_Inmemory\<close> joins suite, mocks, example plugin, cache and store. \<open>Smoke_Requests\<close> joins
  the smoke test's encoding with the protocol's decoding, over \<open>Wire_Jobs\<close>.

  \<^bold>\<open>Bounds.\<close> Counters keep their width: response IDs are shown unique up to \<open>2^64\<close> of them, histogram
  counts up to \<open>2^64\<close> calls, job numbers of the example up to \<open>2^32\<close> submissions, the smoke
  test's counters below \<open>2^64 - 1\<close> responses; message lengths are below \<open>2^32\<close> because the prefix has 32
  bits. Intervals are 64-bit nanoseconds and their wrap-around is stated. No definition runs out of
  fuel silently. The suite's wait loops recurse on the number of polls before the timeout, which
  the surroundings of the plugin give. The smoke test's loops recurse on the lines of input and on the
  batches of responses that arrive; a loop that would go on forever is an outcome of its own (spinning),
  and it is proved not to occur. \<^verbatim>\<open>Serve\<close> has no fuel: it is a relation, proved to have no infinite run.

  \<^bold>\<open>Not modelled.\<close> The text of log lines, of printed output and of test failures (whether
  one is reported is modelled; the lines the logger itself writes are modelled in full).
  Processes, pipes, signals and files: the
  model begins with the bytes read, the environment read and the command line, and ends with the
  bytes written or the exit code. Locks and atomics appear as the atomic sections they make, so
  a data race inside a section is outside the model. The sharing of slices between copies (after
  \<^verbatim>\<open>Clone\<close>, or between the store and its callers) is not modelled; the sharing of the container pointer
  is. Finite values of \<^verbatim>\<open>float64\<close> in metrics are reals, without rounding. In \<open>Conformance_Inmemory\<close>
  calls take no time and sleeps are exact. \<^verbatim>\<open>doc.go\<close> and \<^verbatim>\<open>tools.go\<close> hold no code.
\<close>

end
